(* ===== verification/Hub_Prelude.thy ===== *)
theory Hub_Prelude
  imports Main "HOL-Library.Finite_Map" "HOL-Library.Char_ord" "HOL-Library.List_Lexorder"
    "HOL-Library.Word"
begin

text \<open>
  What every component shares: Go error values and results, Go maps (finite, possibly
  nil), instants of the package \<open>time\<close>, and the collections of simplification rules
  the component proofs are built from.

  Go strings and byte slices are both \<^typ>\<open>string\<close>: a list of bytes. Conversions between
  them are therefore the identity and \<open>len\<close> is \<^const>\<open>length\<close>.
\<close>

named_theorems gomap_simps \<open>lookups and updates of Go maps\<close>
named_theorems state_defs \<open>definitions of the state package\<close>
named_theorems consumer_defs \<open>definitions of the message store consumers\<close>
named_theorems worker_defs \<open>definitions of the delivery worker\<close>

section \<open>Errors and results\<close>

text \<open>
  An error value. \<open>Error\<close> is \<open>errors.New\<close> (and \<open>fmt.Errorf\<close> without a wrapped
  error; the formatted arguments are left out of the text), \<open>Wrap\<close> is \<open>fmt.Errorf\<close>
  with \<open>%w\<close>, \<open>Joined\<close> is \<open>errors.Join\<close>, the others are the sentinel errors and
  error types of the program and of the packages it uses.
\<close>

datatype goerr =
    Error string
  | Wrap string goerr
  | Joined "goerr list"
  | ErrInvalidTransition
  | ErrClosed
  | ErrNotSupported
  | ErrOutOfOrder
  | PermanentSubscriptionError string
  | ErrSubscriptionStale
  | ErrSubscriptionGone
  | DeniedError string
  | ErrContentTypeMismatch
  | ErrEventFetchUnavailable
  | ErrTopicUnavailable
  | ErrInvalidQuery
  | ErrNotFound
  | ErrUnauthenticated
  | ErrForbidden
  | Canceled
  | DeadlineExceeded
  | UnknownTopicOrPartition
  | LeaderNotAvailable
  | GroupIDNotFound
  | TopicAlreadyExists

type_synonym 'a result = "goerr + 'a"

text \<open>\<open>errors.Is\<close>: the target is found by unwrapping.\<close>

fun errors_is :: "goerr \<Rightarrow> goerr \<Rightarrow> bool" where
  "errors_is (Wrap m e) target = (Wrap m e = target \<or> errors_is e target)"
| "errors_is (Joined es) target = (Joined es = target \<or> list_ex (\<lambda>e. errors_is e target) es)"
| "errors_is e target = (e = target)"

text \<open>\<open>errors.As\<close> for \<open>*PermanentSubscriptionError\<close>: the first one in the chain.\<close>

fun as_permanent :: "goerr \<Rightarrow> string option" where
  "as_permanent (PermanentSubscriptionError r) = Some r"
| "as_permanent (Wrap m e) = as_permanent e"
| "as_permanent (Joined es) =
     (case filter (\<lambda>r. r \<noteq> None) (map as_permanent es) of [] \<Rightarrow> None | r # _ \<Rightarrow> r)"
| "as_permanent e = None"

section \<open>Go maps\<close>

text \<open>
  A Go map is finite and may be nil (\<^const>\<open>None\<close>); reading a nil map reads an empty one.
  Iteration visits the keys in an unspecified order, so code that iterates is modelled
  either by a quantifier over the entries or with the order as an argument.
\<close>

type_synonym 'v gomap = "(string, 'v) fmap option"

definition entries :: "('k, 'v) fmap option \<Rightarrow> ('k, 'v) fmap" where
  "entries m = (case m of None \<Rightarrow> fmempty | Some f \<Rightarrow> f)"

definition mget :: "('k, 'v) fmap option \<Rightarrow> 'k \<Rightarrow> 'v option" where
  "mget m k = fmlookup (entries m) k"

text \<open>Assignment \<open>m[k] = v\<close>; the code assigns only to maps it has made.\<close>

definition mput :: "('k, 'v) fmap option \<Rightarrow> 'k \<Rightarrow> 'v \<Rightarrow> ('k, 'v) fmap option" where
  "mput m k v = Some (fmupd k v (entries m))"

definition mlen :: "('k, 'v) fmap option \<Rightarrow> nat" where
  "mlen m = fcard (fmdom (entries m))"

text \<open>\<open>sort.Strings\<close> over the collected keys.\<close>

definition sorted_keys :: "('k::linorder, 'v) fmap option \<Rightarrow> 'k list" where
  "sorted_keys m = sorted_list_of_fset (fmdom (entries m))"

text \<open>Whether all entries, or some entry, satisfy a condition: the effect of a \<open>range\<close>
  loop that returns early.\<close>

definition range_all :: "('k \<Rightarrow> 'v \<Rightarrow> bool) \<Rightarrow> ('k, 'v) fmap option \<Rightarrow> bool" where
  "range_all P m = fmpred P (entries m)"

definition range_any :: "('k \<Rightarrow> 'v \<Rightarrow> bool) \<Rightarrow> ('k, 'v) fmap option \<Rightarrow> bool" where
  "range_any P m = (\<not> fmpred (\<lambda>k v. \<not> P k v) (entries m))"

text \<open>An order in which \<open>range\<close> may visit the keys.\<close>

definition range_order :: "('k, 'v) fmap option \<Rightarrow> 'k list \<Rightarrow> bool" where
  "range_order m ord \<longleftrightarrow> distinct ord \<and> set ord = fset (fmdom (entries m))"

text \<open>A \<open>range\<close> loop that returns the first error it meets; keys in sorted order stand for
  the order Go chooses.\<close>

definition range_first :: "('k::linorder \<Rightarrow> 'v \<Rightarrow> 'e option) \<Rightarrow> ('k, 'v) fmap option \<Rightarrow> 'e option" where
  "range_first f m =
     (case filter (\<lambda>x. x \<noteq> None) (map (\<lambda>k. f k (the (mget m k))) (sorted_keys m)) of
        [] \<Rightarrow> None | e # _ \<Rightarrow> e)"

lemma entries_simps [simp]: "entries None = fmempty" "entries (Some f) = f"
  by (simp_all add: entries_def)

lemma mget_None [simp, gomap_simps]: "mget None k = None"
  by (simp add: mget_def)

lemma mget_mput [simp, gomap_simps]: "mget (mput m k v) k' = (if k' = k then Some v else mget m k')"
  by (simp add: mget_def mput_def)

lemma mget_Some [gomap_simps]: "mget (Some f) k = fmlookup f k"
  by (simp add: mget_def)

lemma mput_not_None [simp]: "mput m k v \<noteq> None"
  by (simp add: mput_def)

lemma mput_mput [simp]: "mput (mput m k v) k w = mput m k w"
  by (simp add: mput_def)

lemma mput_same: "m \<noteq> None \<Longrightarrow> mget m k = Some v \<Longrightarrow> mput m k v = m"
  by (cases m) (auto simp: mput_def mget_def intro!: fmap_ext)

lemma gomap_eqI: "m \<noteq> None \<Longrightarrow> m' \<noteq> None \<Longrightarrow> (\<And>k. mget m k = mget m' k) \<Longrightarrow> m = m'"
  by (auto simp: mget_def intro: fmap_ext)

lemma range_all_iff: "range_all P m \<longleftrightarrow> (\<forall>k v. mget m k = Some v \<longrightarrow> P k v)"
  by (simp add: range_all_def mget_def fmpred_iff)

lemma range_any_iff: "range_any P m \<longleftrightarrow> (\<exists>k v. mget m k = Some v \<and> P k v)"
  by (simp add: range_any_def mget_def fmpred_iff)

lemma range_allD: "range_all P m \<Longrightarrow> mget m k = Some v \<Longrightarrow> P k v"
  by (simp add: range_all_iff)

lemma range_all_mput:
  "(\<And>k' v'. k' \<noteq> k \<Longrightarrow> mget m k' = Some v' \<Longrightarrow> P k' v') \<Longrightarrow> P k v \<Longrightarrow> range_all P (mput m k v)"
  by (auto simp: range_all_iff)

lemma fmdom_mget: "k |\<in>| fmdom (entries m) \<longleftrightarrow> mget m k \<noteq> None"
  by (simp add: mget_def fmlookup_dom_iff)

lemma range_all_dom: "range_all P m \<longleftrightarrow> (\<forall>k\<in>fset (fmdom (entries m)). P k (the (mget m k)))"
  using fmdom_mget [of _ m] unfolding range_all_iff by (metis not_None_eq option.sel)

lemma sorted_keys_set [simp]: "set (sorted_keys m) = {k. mget m k \<noteq> None}"
  using fmdom_mget [of _ m] by (simp add: sorted_keys_def set_eq_iff)

lemma sorted_keys_sorted [simp]: "sorted (sorted_keys m)" "distinct (sorted_keys m)"
  by (simp_all add: sorted_keys_def sorted_list_of_fset.rep_eq)

lemma filtered_error_None:
  "(case filter (\<lambda>x. x \<noteq> None) xs of [] \<Rightarrow> None | e # _ \<Rightarrow> e) = None \<longleftrightarrow> (\<forall>x\<in>set xs. x = None)"
  by (induction xs) auto

lemma range_first_None: "range_first f m = None \<longleftrightarrow> range_all (\<lambda>k v. f k v = None) m"
  unfolding range_first_def filtered_error_None range_all_iff
  by (simp add: image_iff) (metis not_None_eq option.sel)

lemma range_order_sorted_keys: "range_order m (sorted_keys m)"
  by (simp add: range_order_def sorted_keys_def sorted_list_of_fset.rep_eq)

lemma range_order_mget: "range_order m ord \<Longrightarrow> k \<in> set ord \<longleftrightarrow> mget m k \<noteq> None"
  using fmdom_mget [of k m] by (simp add: range_order_def)

section \<open>Instants\<close>

text \<open>
  A \<open>time.Time\<close>: nanoseconds since the zero instant, and the location it is displayed
  in, \<open>Zone\<close> with its name and its offset in seconds east of UTC at that instant. \<open>==\<close> compares both, \<open>Equal\<close> and \<open>After\<close> only the instant. Monotonic clock
  readings are not modelled; they do not survive serialization.
\<close>

datatype location = UTC | Zone string int

record gtime =
  tm_ns :: int
  tm_loc :: location

definition time_IsZero :: "gtime \<Rightarrow> bool" where
  "time_IsZero t = (tm_ns t = 0)"

definition time_Equal :: "gtime \<Rightarrow> gtime \<Rightarrow> bool" where
  "time_Equal a b = (tm_ns a = tm_ns b)"

definition time_After :: "gtime \<Rightarrow> gtime \<Rightarrow> bool" where
  "time_After a b = (tm_ns b < tm_ns a)"

definition time_UTC :: "gtime \<Rightarrow> gtime" where
  "time_UTC t = t\<lparr>tm_loc := UTC\<rparr>"

text \<open>The zero value \<open>time.Time{}\<close>.\<close>

definition zero_time :: gtime where
  "zero_time = \<lparr>tm_ns = 0, tm_loc = UTC\<rparr>"

lemma time_UTC_simps [simp]:
  "tm_ns (time_UTC t) = tm_ns t" "tm_loc (time_UTC t) = UTC" "time_IsZero (time_UTC t) = time_IsZero t"
  by (simp_all add: time_UTC_def time_IsZero_def)

text \<open>Lengths of time in nanoseconds.\<close>

type_synonym duration = int

definition Second :: duration where "Second = 1000000000"

end
