(* ===== verification/Go_Strings.thy ===== *)
theory Go_Strings
  imports Hub_Prelude
begin

text \<open>
  What the program uses of the packages \<open>strings\<close>, \<open>unicode\<close> and \<open>strconv\<close>, on byte
  strings. White space is that of \<open>unicode.IsSpace\<close>, recognised by its UTF-8 bytes;
  \<open>ToLower\<close> maps ASCII letters and the two code points outside ASCII whose lower case is
  an ASCII letter (the Kelvin sign and the dotted capital I), and leaves other bytes alone.
\<close>

section \<open>Bytes\<close>

definition byte :: "char \<Rightarrow> nat" where
  "byte c = of_char c"

definition is_digit :: "char \<Rightarrow> bool" where
  "is_digit c = (48 \<le> byte c \<and> byte c \<le> 57)"

definition digit_val :: "char \<Rightarrow> nat" where
  "digit_val c = byte c - 48"

definition digit_char :: "nat \<Rightarrow> char" where
  "digit_char n = char_of (48 + n)"

definition lower_char :: "char \<Rightarrow> char" where
  "lower_char c = (if 65 \<le> byte c \<and> byte c \<le> 90 then char_of (byte c + 32) else c)"

fun ToLower :: "string \<Rightarrow> string" where
  "ToLower [] = []"
| "ToLower (a # b # c # s) =
     (if byte a = 226 \<and> byte b = 132 \<and> byte c = 170 then CHR ''k'' # ToLower s
      else if byte a = 196 \<and> byte b = 176 then CHR ''i'' # ToLower (c # s)
      else lower_char a # ToLower (b # c # s))"
| "ToLower [a, b] =
     (if byte a = 196 \<and> byte b = 176 then [CHR ''i''] else [lower_char a, lower_char b])"
| "ToLower [a] = [lower_char a]"

section \<open>White space\<close>

text \<open>The length of the white-space code point a string starts with, 0 when there is none.\<close>

fun space_len :: "nat list \<Rightarrow> nat" where
  "space_len (a # s) =
     (if a \<in> {9, 10, 11, 12, 13, 32} then 1
      else case s of
        [] \<Rightarrow> 0
      | b # r \<Rightarrow>
         if a = 194 \<and> (b = 133 \<or> b = 160) then 2
         else (case r of
            [] \<Rightarrow> 0
          | c # _ \<Rightarrow>
             if a = 225 \<and> b = 154 \<and> c = 128 \<or>
                a = 226 \<and> b = 128 \<and> (128 \<le> c \<and> c \<le> 138 \<or> c = 168 \<or> c = 169 \<or> c = 175) \<or>
                a = 226 \<and> b = 129 \<and> c = 159 \<or>
                a = 227 \<and> b = 128 \<and> c = 128
             then 3 else 0))"
| "space_len [] = 0"

definition space_prefix :: "string \<Rightarrow> nat" where
  "space_prefix s = space_len (map byte (take 3 s))"

text \<open>The length of the white-space code point a string ends with.\<close>

definition space_suffix :: "string \<Rightarrow> nat" where
  "space_suffix s =
     (let r = map byte (take 3 (rev s)) in
      if space_len (take 1 r) = 1 then 1
      else if space_len (rev (take 2 r)) = 2 then 2
      else if space_len (rev r) = 3 then 3 else 0)"

function TrimLeft :: "string \<Rightarrow> string" where
  "TrimLeft s = (if space_prefix s = 0 \<or> s = [] then s else TrimLeft (drop (space_prefix s) s))"
  by pat_completeness auto
termination
  by (relation "measure length") auto

function TrimRight :: "string \<Rightarrow> string" where
  "TrimRight s =
     (if space_suffix s = 0 \<or> s = [] then s else TrimRight (take (length s - space_suffix s) s))"
  by pat_completeness auto
termination
  by (relation "measure length") auto

declare TrimLeft.simps [simp del]
declare TrimRight.simps [simp del]

definition TrimSpace :: "string \<Rightarrow> string" where
  "TrimSpace s = TrimRight (TrimLeft s)"

text \<open>\<open>strings.Fields\<close>: the maximal parts without white space. No byte inside a multi-byte code point starts
  the encoding of another one, so the bytes can be scanned one by one.\<close>

fun field_len :: "string \<Rightarrow> nat" where
  "field_len [] = 0"
| "field_len (c # s) = (if space_prefix (c # s) \<noteq> 0 then 0 else Suc (field_len s))"

function Fields :: "string \<Rightarrow> string list" where
  "Fields s =
     (if s = [] then []
      else if space_prefix s \<noteq> 0 then Fields (drop (space_prefix s) s)
      else take (field_len s) s # Fields (drop (field_len s) s))"
  by pat_completeness auto
termination
proof (relation "measure length", goal_cases)
  case (3 s)
  then show ?case by (cases s) auto
qed auto

declare Fields.simps [simp del]

section \<open>Prefixes and separators\<close>

definition HasPrefix :: "string \<Rightarrow> string \<Rightarrow> bool" where
  "HasPrefix s p = (take (length p) s = p)"

definition TrimPrefix :: "string \<Rightarrow> string \<Rightarrow> string" where
  "TrimPrefix s p = (if HasPrefix s p then drop (length p) s else s)"

text \<open>\<open>strings.Cut\<close> at a one-byte separator: before, after, found.\<close>

definition Cut :: "string \<Rightarrow> char \<Rightarrow> string \<times> string \<times> bool" where
  "Cut s c = (let b = takeWhile (\<lambda>x. x \<noteq> c) s in
     if length b < length s then (b, drop (length b + 1) s, True) else (s, [], False))"

text \<open>\<open>strings.Split\<close> at a one-byte separator: always at least one part.\<close>

fun Split :: "string \<Rightarrow> char \<Rightarrow> string list" where
  "Split [] c = [[]]"
| "Split (x # s) c =
     (if x = c then [] # Split s c
      else case Split s c of [] \<Rightarrow> [[x]] | p # ps \<Rightarrow> (x # p) # ps)"

lemma Split_not_Nil [simp]: "Split s c \<noteq> []"
  by (induction s) (auto split: list.splits)

lemma HasPrefix_append [simp]: "HasPrefix (p @ s) p"
  by (simp add: HasPrefix_def)

lemma TrimPrefix_append [simp]: "TrimPrefix (p @ s) p = s"
  by (simp add: TrimPrefix_def)

section \<open>UTF-8\<close>

definition in_range :: "nat \<Rightarrow> nat \<Rightarrow> char \<Rightarrow> bool" where
  "in_range lo hi c \<longleftrightarrow> lo \<le> byte c \<and> byte c \<le> hi"

text \<open>The number of bytes of the first rune, 0 if they are not valid UTF-8.\<close>

definition rune_len :: "string \<Rightarrow> nat" where
  "rune_len s =
     (let cont = in_range 0x80 0xBF in
      case s of
        [] \<Rightarrow> 0
      | a # s1 \<Rightarrow>
          if byte a < 0x80 then 1
          else case s1 of
              [] \<Rightarrow> 0
            | b # s2 \<Rightarrow>
                if in_range 0xC2 0xDF a \<and> cont b then 2
                else case s2 of
                    [] \<Rightarrow> 0
                  | c # s3 \<Rightarrow>
                      if cont c \<and>
                         (byte a = 0xE0 \<and> in_range 0xA0 0xBF b \<or> in_range 0xE1 0xEC a \<and> cont b \<or>
                          byte a = 0xED \<and> in_range 0x80 0x9F b \<or> in_range 0xEE 0xEF a \<and> cont b)
                      then 3
                      else case s3 of
                          [] \<Rightarrow> 0
                        | d # _ \<Rightarrow>
                            if cont c \<and> cont d \<and>
                               (byte a = 0xF0 \<and> in_range 0x90 0xBF b \<or> in_range 0xF1 0xF3 a \<and> cont b \<or>
                                byte a = 0xF4 \<and> in_range 0x80 0x8F b)
                            then 4 else 0)"

function utf8_ValidString :: "string \<Rightarrow> bool" where
  "utf8_ValidString s =
     (if s = [] then True else if rune_len s = 0 then False else utf8_ValidString (drop (rune_len s) s))"
  by pat_completeness auto
termination
  by (relation "measure length") auto

declare utf8_ValidString.simps [simp del]

lemma utf8_ValidString_Nil [simp]: "utf8_ValidString []"
  by (subst utf8_ValidString.simps) simp

section \<open>Letters and hexadecimal digits\<close>

definition ishex :: "char \<Rightarrow> bool" where
  "ishex c = (is_digit c \<or> in_range 97 102 c \<or> in_range 65 70 c)"

definition hexval :: "char \<Rightarrow> nat" where
  "hexval c = (if is_digit c then byte c - 48 else if in_range 97 102 c then byte c - 87 else byte c - 55)"

definition is_letter :: "char \<Rightarrow> bool" where
  "is_letter c = (in_range 97 122 c \<or> in_range 65 90 c)"

definition alnum :: "char \<Rightarrow> bool" where
  "alnum c = (is_letter c \<or> is_digit c)"

text \<open>The last position of a byte: what precedes it and what follows it.\<close>

definition cut_last :: "string \<Rightarrow> char \<Rightarrow> (string \<times> string) option" where
  "cut_last s c =
     (if c \<in> set s
      then let n = length (takeWhile (\<lambda>x. x \<noteq> c) (rev s)) in Some (take (length s - n - 1) s, drop (length s - n) s)
      else None)"

section \<open>Decimal numbers\<close>

fun digits :: "string \<Rightarrow> nat \<Rightarrow> nat" where
  "digits [] n = n"
| "digits (c # s) n = digits s (10 * n + digit_val c)"

text \<open>\<open>strconv.ParseUint(s, 10, bits)\<close> and \<open>strconv.ParseInt(s, 10, bits)\<close>: \<^const>\<open>None\<close> is
  a syntax or range error. Base 10 admits no underscore and no prefix.\<close>

definition ParseUint :: "nat \<Rightarrow> string \<Rightarrow> nat option" where
  "ParseUint bits s =
     (if s \<noteq> [] \<and> list_all is_digit s \<and> digits s 0 < 2 ^ bits then Some (digits s 0) else None)"

definition ParseInt :: "nat \<Rightarrow> string \<Rightarrow> int option" where
  "ParseInt bits s =
     (let neg = (s \<noteq> [] \<and> hd s = CHR ''-'');
          t = (if s \<noteq> [] \<and> (hd s = CHR ''-'' \<or> hd s = CHR ''+'') then tl s else s);
          n = digits t 0
      in if t \<noteq> [] \<and> list_all is_digit t \<and> n < 2 ^ (bits - 1) + (if neg then 1 else 0)
         then Some (if neg then - int n else int n) else None)"

text \<open>\<open>strconv.Itoa\<close>, \<open>strconv.FormatUint(n, 10)\<close> and \<open>%d\<close> on a non-negative number.\<close>

function Itoa :: "nat \<Rightarrow> string" where
  "Itoa n = (if n < 10 then [digit_char n] else Itoa (n div 10) @ [digit_char (n mod 10)])"
  by pat_completeness auto
termination
  by (relation "measure id") auto

declare Itoa.simps [simp del]

lemma byte_digit_char: "n < 10 \<Longrightarrow> byte (digit_char n) = 48 + n"
  by (simp add: byte_def digit_char_def)

lemma digit_char_props [simp]:
  "n < 10 \<Longrightarrow> is_digit (digit_char n)" "n < 10 \<Longrightarrow> digit_val (digit_char n) = n"
  by (simp_all add: is_digit_def digit_val_def byte_digit_char)

lemma digits_append: "digits (s @ t) n = digits t (digits s n)"
  by (induction s arbitrary: n) simp_all

lemma Itoa_not_Nil [simp]: "Itoa n \<noteq> []"
  by (subst Itoa.simps) simp

lemma Itoa_digits: "list_all is_digit (Itoa n) \<and> digits (Itoa n) 0 = n"
proof (induction n rule: less_induct)
  case (less n)
  show ?case
  proof (cases "n < 10")
    case True
    then show ?thesis by (subst (1 2) Itoa.simps) simp
  next
    case False
    then have "n div 10 < n" by simp
    with less.IH have "list_all is_digit (Itoa (n div 10))" "digits (Itoa (n div 10)) 0 = n div 10"
      by blast+
    with False show ?thesis by (subst (1 2) Itoa.simps) (simp add: digits_append)
  qed
qed

lemma ParseUint_Itoa: "n < 2 ^ bits \<Longrightarrow> ParseUint bits (Itoa n) = Some n"
  using Itoa_digits [of n] by (simp add: ParseUint_def)

lemma Itoa_inject [simp]: "Itoa m = Itoa n \<longleftrightarrow> m = n"
  using Itoa_digits [of m] Itoa_digits [of n] by metis

lemma ParseInt_Itoa:
  assumes "n < 2 ^ (bits - 1)"
  shows "ParseInt bits (Itoa n) = Some (int n)"
proof -
  have "is_digit (hd (Itoa n))"
    using Itoa_digits [of n] by (cases "Itoa n") auto
  then have "hd (Itoa n) \<noteq> CHR ''-''" "hd (Itoa n) \<noteq> CHR ''+''"
    by (auto simp: is_digit_def byte_def)
  with Itoa_digits [of n] assms show ?thesis by (simp add: ParseInt_def Let_def)
qed

end
