(* ===== verification/Go_Mime.thy ===== *)
theory Go_Mime
  imports Go_Strings
begin

text \<open>
  \<open>mime.ParseMediaType\<close> and \<open>mime.FormatMediaType\<close>, with the parameter continuations and
  extended values of RFC 2231, and the topic content-type rules the state package builds on
  them (\<open>internal/state/content_type.go\<close>).
\<close>

section \<open>Tokens\<close>

definition isTSpecial :: "char \<Rightarrow> bool" where
  "isTSpecial c = (byte c \<in> {40, 41, 60, 62, 64, 44, 59, 58, 92, 34, 47, 91, 93, 63, 61})"

definition isTokenChar :: "char \<Rightarrow> bool" where
  "isTokenChar c = (32 < byte c \<and> byte c < 127 \<and> \<not> isTSpecial c)"

definition isToken :: "string \<Rightarrow> bool" where
  "isToken s = (s \<noteq> [] \<and> list_all isTokenChar s)"

definition consumeToken :: "string \<Rightarrow> string \<times> string" where
  "consumeToken v = (takeWhile isTokenChar v, dropWhile isTokenChar v)"

text \<open>The body of a quoted string after its opening quote: its value and what follows the
  closing quote.\<close>

fun quoted :: "string \<Rightarrow> string \<Rightarrow> (string \<times> string) option" where
  "quoted [] buf = None"
| "quoted (r # s) buf =
     (if byte r = 34 then Some (rev buf, s)
      else if byte r = 92 \<and> s \<noteq> [] \<and> isTSpecial (hd s) then quoted (tl s) (hd s # buf)
      else if byte r = 13 \<or> byte r = 10 then None
      else quoted s (r # buf))"

definition consumeValue :: "string \<Rightarrow> string \<times> string" where
  "consumeValue v =
     (case v of
        [] \<Rightarrow> ([], [])
      | c # s \<Rightarrow> if byte c \<noteq> 34 then consumeToken v
                 else case quoted s [] of None \<Rightarrow> ([], v) | Some r \<Rightarrow> r)"

text \<open>One \<open>; attribute=value\<close>: the attribute in lower case, its value and the rest;
  \<^const>\<open>None\<close> is the empty attribute the code returns on failure.\<close>

definition consumeMediaParam :: "string \<Rightarrow> (string \<times> string \<times> string) option" where
  "consumeMediaParam v =
     (case TrimLeft v of
        [] \<Rightarrow> None
      | c # r \<Rightarrow>
         if byte c \<noteq> 59 then None else
         let (param, r1) = consumeToken (TrimLeft r) in
         if param = [] then None else
         (case TrimLeft r1 of
            [] \<Rightarrow> None
          | e # r2 \<Rightarrow>
             if byte e \<noteq> 61 then None else
             let r3 = TrimLeft r2; (val, r4) = consumeValue r3 in
             if val = [] \<and> r4 = r3 then None else Some (ToLower param, val, r4)))"

lemma length_TrimLeft: "length (TrimLeft s) \<le> length s"
proof (induction s rule: TrimLeft.induct)
  case (1 s)
  then show ?case by (subst TrimLeft.simps) force
qed

lemma length_quoted: "quoted s buf = Some (v, r) \<Longrightarrow> length r \<le> length s"
proof (induction s buf arbitrary: v r rule: quoted.induct)
  case (2 c s buf)
  then show ?case by (cases s) (auto split: if_splits dest: le_SucI)
qed simp

lemma length_consumeValue: "consumeValue v = (x, r) \<Longrightarrow> length r \<le> length v"
  by (auto simp: consumeValue_def consumeToken_def length_dropWhile_le
      split: list.splits if_splits option.splits dest: length_quoted intro: le_SucI)

lemma length_consumeMediaParam:
  assumes "consumeMediaParam v = Some (k, x, r)" shows "length r < length v"
proof -
  from assms obtain c s where s: "TrimLeft v = c # s"
    by (auto simp: consumeMediaParam_def split: list.splits)
  with assms obtain e t where t: "TrimLeft (dropWhile isTokenChar (TrimLeft s)) = e # t"
    and r: "consumeValue (TrimLeft t) = (x, r)"
    by (auto simp: consumeMediaParam_def consumeToken_def Let_def
        split: list.splits if_splits prod.splits)
  have "length r \<le> length t"
    using length_consumeValue [OF r] length_TrimLeft [of t] by simp
  moreover have "length (e # t) \<le> length s"
    using length_TrimLeft [of "dropWhile isTokenChar (TrimLeft s)"] length_TrimLeft [of s]
      length_dropWhile_le [of isTokenChar "TrimLeft s"] t by simp
  moreover have "length (c # s) \<le> length v"
    using length_TrimLeft [of v] s by simp
  ultimately show ?thesis by simp
qed

section \<open>Parsing\<close>

type_synonym params = "(string, string) fmap"

definition checkMediaType :: "string \<Rightarrow> bool" where
  "checkMediaType s =
     (let (typ, rest) = consumeToken s in
      typ \<noteq> [] \<and>
      (rest = [] \<or>
       (byte (hd rest) = 47 \<and>
        (let (sub, rest') = consumeToken (tl rest) in sub \<noteq> [] \<and> rest' = []))))"

text \<open>The loop over the parameters; names with an asterisk are collected per base name. The
  result is \<^const>\<open>None\<close> on a parse error or on a repeated name with another value.\<close>

function parseParams ::
  "string \<Rightarrow> params \<Rightarrow> (string, params) fmap \<Rightarrow> (params \<times> (string, params) fmap) option" where
  "parseParams v ps cont =
     (if TrimLeft v = [] then Some (ps, cont) else
      case consumeMediaParam (TrimLeft v) of
        None \<Rightarrow> if TrimSpace (TrimLeft v) = '';'' then Some (ps, cont) else None
      | Some (key, val, rest) \<Rightarrow>
         (case Cut key (CHR ''*'') of
            (base, _, star) \<Rightarrow>
             let pm = (if star then (case fmlookup cont base of None \<Rightarrow> fmempty | Some m \<Rightarrow> m)
                       else ps);
                 pm' = fmupd key val pm
             in if (case fmlookup pm key of None \<Rightarrow> False | Some x \<Rightarrow> x \<noteq> val) then None
                else if star then parseParams rest ps (fmupd base pm' cont)
                else parseParams rest pm' cont))"
  by pat_completeness auto
termination
proof (relation "measure (\<lambda>(v, _, _). length v)", goal_cases)
  case (2 v ps cont a key b val rest)
  then show ?case using length_consumeMediaParam length_TrimLeft [of v] by fastforce
next
  case (3 v ps cont a key b val rest)
  then show ?case using length_consumeMediaParam length_TrimLeft [of v] by fastforce
qed simp

declare parseParams.simps [simp del]

definition is_hex :: "char \<Rightarrow> bool" where
  "is_hex c = (is_digit c \<or> 97 \<le> byte c \<and> byte c \<le> 102 \<or> 65 \<le> byte c \<and> byte c \<le> 70)"

definition unhex :: "char \<Rightarrow> nat" where
  "unhex c = (if is_digit c then byte c - 48 else if 97 \<le> byte c then byte c - 87 else byte c - 55)"

fun percentHexUnescape :: "string \<Rightarrow> string option" where
  "percentHexUnescape [] = Some []"
| "percentHexUnescape (c # s) =
     (if byte c \<noteq> 37 then map_option (Cons c) (percentHexUnescape s)
      else case s of
        a # b # r \<Rightarrow> if is_hex a \<and> is_hex b
          then map_option (Cons (char_of (16 * unhex a + unhex b))) (percentHexUnescape r) else None
      | _ \<Rightarrow> None)"

definition decode2231Enc :: "string \<Rightarrow> string option" where
  "decode2231Enc v =
     (case Cut v (CHR 0x27) of
        (cs, r, True) \<Rightarrow> (case Cut r (CHR 0x27) of
           (_, enc, True) \<Rightarrow>
             if ToLower cs = ''us-ascii'' \<or> ToLower cs = ''utf-8'' then percentHexUnescape enc else None
         | _ \<Rightarrow> None)
      | _ \<Rightarrow> None)"

text \<open>The numbered pieces \<open>key*0\<close>, \<open>key*1*\<close>, \<dots> joined until one is missing; each piece is
  another entry of the finite map, so as many steps as the map has entries are enough.\<close>

fun joinPieces :: "nat \<Rightarrow> string \<Rightarrow> nat \<Rightarrow> params \<Rightarrow> string \<Rightarrow> bool \<Rightarrow> string option" where
  "joinPieces 0 key n pm buf valid = (if valid then Some buf else None)"
| "joinPieces (Suc fuel) key n pm buf valid =
     (let simple = key @ ''*'' @ Itoa n in
      case fmlookup pm simple of
        Some v \<Rightarrow> joinPieces fuel key (Suc n) pm (buf @ v) True
      | None \<Rightarrow> (case fmlookup pm (simple @ ''*'') of
          None \<Rightarrow> (if valid then Some buf else None)
        | Some v \<Rightarrow> joinPieces fuel key (Suc n) pm
            (buf @ (case (if n = 0 then decode2231Enc v else percentHexUnescape v) of
               None \<Rightarrow> [] | Some d \<Rightarrow> d)) True))"

definition stitch :: "string \<Rightarrow> params \<Rightarrow> params \<Rightarrow> params" where
  "stitch key pm ps =
     (case fmlookup pm (key @ ''*'') of
        Some v \<Rightarrow> (case decode2231Enc v of None \<Rightarrow> ps | Some d \<Rightarrow> fmupd key d ps)
      | None \<Rightarrow> (case joinPieces (Suc (fcard (fmdom pm))) key 0 pm [] False of
          None \<Rightarrow> ps | Some b \<Rightarrow> fmupd key b ps))"

definition ParseMediaType :: "string \<Rightarrow> (string \<times> params) option" where
  "ParseMediaType v =
     (case Cut v (CHR '';'') of
        (base, _, _) \<Rightarrow>
          let mediatype = TrimSpace (ToLower base) in
          if \<not> checkMediaType mediatype then None else
          case parseParams (drop (length base) v) fmempty fmempty of
            None \<Rightarrow> None
          | Some (ps, cont) \<Rightarrow>
              Some (mediatype, fold (\<lambda>k. stitch k (the (fmlookup cont k)))
                                 (sorted_keys (Some cont)) ps))"

section \<open>Formatting\<close>

definition needsEncoding :: "string \<Rightarrow> bool" where
  "needsEncoding s = list_ex (\<lambda>c. (byte c < 32 \<or> 126 < byte c) \<and> byte c \<noteq> 9) s"

definition upper_hex :: "nat \<Rightarrow> char" where
  "upper_hex n = (if n < 10 then char_of (48 + n) else char_of (55 + n))"

definition encode_attr_char :: "char \<Rightarrow> string" where
  "encode_attr_char c =
     (if byte c \<le> 32 \<or> 127 \<le> byte c \<or> byte c \<in> {42, 39, 37} \<or> isTSpecial c
      then [CHR ''%'', upper_hex (byte c div 16), upper_hex (byte c mod 16)] else [c])"

definition quote_char :: "char \<Rightarrow> string" where
  "quote_char c = (if byte c = 34 \<or> byte c = 92 then [CHR 0x5C, c] else [c])"

definition formatParam :: "string \<Rightarrow> string \<Rightarrow> string" where
  "formatParam attr val =
     ''; '' @ ToLower attr @
     (if needsEncoding val then ''*=utf-8'' @ [CHR 0x27, CHR 0x27] @ concat (map encode_attr_char val)
      else if isToken val then ''='' @ val
      else ''='' @ [CHR 0x22] @ concat (map quote_char val) @ [CHR 0x22])"

definition FormatMediaType :: "string \<Rightarrow> params \<Rightarrow> string" where
  "FormatMediaType t ps =
     (case Cut t (CHR ''/'') of
        (major, sub, slash) \<Rightarrow>
          if (if slash then isToken major \<and> isToken sub else isToken t) \<and>
             list_all isToken (sorted_keys (Some ps))
          then (if slash then ToLower major @ ''/'' @ ToLower sub else ToLower t) @
               concat (map (\<lambda>k. formatParam k (the (fmlookup ps k))) (sorted_keys (Some ps)))
          else [])"

section \<open>Topic content types\<close>

abbreviation DefaultTopicContentType :: string where
  "DefaultTopicContentType \<equiv> ''application/json''"

definition NormalizeContentType :: "string \<Rightarrow> string result" where
  "NormalizeContentType val =
     (if val = [] then Inl (Error ''content type is required'') else
      case ParseMediaType val of
        None \<Rightarrow> Inl (Wrap ''invalid content type'' (Error ''mime''))
      | Some (mediaType, parameters) \<Rightarrow> Inr (FormatMediaType (ToLower mediaType) parameters))"

definition NormalizeTopicContentType :: "string \<Rightarrow> string result" where
  "NormalizeTopicContentType val =
     NormalizeContentType (if val = [] then DefaultTopicContentType else val)"

text \<open>The check \<open>normalized, err := NormalizeContentType(v); err == nil && normalized == v\<close>.\<close>

definition canonical_content_type :: "string \<Rightarrow> bool" where
  "canonical_content_type v = (NormalizeContentType v = Inr v)"

lemma canonical_not_Nil: "canonical_content_type v \<Longrightarrow> v \<noteq> []"
  by (auto simp: canonical_content_type_def NormalizeContentType_def)

end
