(* ===== verification/Contracts.thy ===== *)
theory Contracts
  imports Go_Strings
begin

text \<open>
  The provider-neutral message store boundary, \<open>internal/persistence/messagestore/contracts.go\<close>:
  messages, receipts and batches, consumer specifications, and the bounded subscription
  options with their classification of permanent errors.
\<close>

section \<open>Messages, receipts, batches\<close>

type_synonym Destination = string
type_synonym ConsumerID = string

record Message =
  msg_ID :: string
  Body :: string
  ContentType :: string
  Metadata :: "string gomap"
  StorageError :: string

record Receipt =
  rcpt_Consumer :: ConsumerID
  rcpt_Value :: string

record ReceivedMessage =
  rcv_Message :: Message
  rcv_Receipt :: Receipt

record ReceiveBatch =
  Messages :: "ReceivedMessage list"
  CaughtUp :: bool

type_synonym StartPosition = string

abbreviation StartEarliest :: StartPosition where "StartEarliest \<equiv> ''earliest''"
abbreviation StartLatest :: StartPosition where "StartLatest \<equiv> ''latest''"

record ConsumerMetadata =
  meta_ID :: ConsumerID
  meta_Destination :: Destination
  meta_StartPosition :: StartPosition

type_synonym ClosureIntent = string

abbreviation CloseTemporary :: ClosureIntent where "CloseTemporary \<equiv> ''temporary''"
abbreviation ClosePermanent :: ClosureIntent where "ClosePermanent \<equiv> ''permanent''"

record DeadLetter =
  dl_Destination :: Destination
  dl_Message :: Message
  dl_TopicID :: string
  dl_SubscriptionID :: string
  FailureClass :: string
  Attempt :: "32 word"
  dl_StorageError :: string

record DestinationSpec =
  dst_Name :: Destination
  Compacted :: bool
  Retention :: duration
  Partitions :: int

section \<open>Subscription options\<close>

abbreviation MaxSubscriptionOptionKeys :: nat where "MaxSubscriptionOptionKeys \<equiv> 32"
abbreviation MaxSubscriptionOptionKeyBytes :: nat where "MaxSubscriptionOptionKeyBytes \<equiv> 128"
abbreviation MaxSubscriptionOptionValues :: nat where "MaxSubscriptionOptionValues \<equiv> 8"
abbreviation MaxSubscriptionOptionValueBytes :: nat where "MaxSubscriptionOptionValueBytes \<equiv> 1024"
abbreviation MaxSubscriptionOptionsBytes :: nat where "MaxSubscriptionOptionsBytes \<equiv> 8192"

type_synonym parameters = "string list gomap"

record SubscriptionOptions =
  opt_Parameters :: parameters

record ConsumerSpec =
  spec_ID :: ConsumerID
  spec_Destination :: Destination
  spec_StartPosition :: StartPosition
  spec_Subscription :: "SubscriptionOptions option"

text \<open>The loop over the values of one key adds their lengths to the running tot.\<close>

fun options_values :: "string list \<Rightarrow> nat \<Rightarrow> nat result" where
  "options_values [] tot = Inr tot"
| "options_values (v # vs) tot =
     (if MaxSubscriptionOptionValueBytes < length v
      then Inl (PermanentSubscriptionError ''subscription option value is too long'')
      else options_values vs (tot + length v))"

text \<open>The loop over the entries, in the order \<open>ord\<close> in which the map is visited: the copy
  made so far and the running tot.\<close>

fun options_loop ::
  "(string, string list) fmap \<Rightarrow> string list \<Rightarrow> (string, string list) fmap \<Rightarrow> nat \<Rightarrow>
   ((string, string list) fmap \<times> nat) result" where
  "options_loop ps [] cloned tot = Inr (cloned, tot)"
| "options_loop ps (key # ord) cloned tot =
     (case fmlookup ps key of
        None \<Rightarrow> options_loop ps ord cloned tot
      | Some vals \<Rightarrow>
         if key = [] \<or> MaxSubscriptionOptionKeyBytes < length key
         then Inl (PermanentSubscriptionError ''invalid subscription option name'')
         else if MaxSubscriptionOptionValues < length vals
         then Inl (PermanentSubscriptionError ''too many subscription option values'')
         else case options_values vals (tot + length key) of
             Inl e \<Rightarrow> Inl e
           | Inr tot' \<Rightarrow> options_loop ps ord (fmupd key vals cloned) tot')"

definition options_in_order :: "string list \<Rightarrow> parameters \<Rightarrow> SubscriptionOptions result" where
  "options_in_order ord ps =
     (if MaxSubscriptionOptionKeys < mlen ps
      then Inl (PermanentSubscriptionError ''too many subscription options'')
      else case options_loop (entries ps) ord fmempty 0 of
          Inl e \<Rightarrow> Inl e
        | Inr (cloned, tot) \<Rightarrow>
            if MaxSubscriptionOptionsBytes < tot
            then Inl (PermanentSubscriptionError ''subscription options are too large'')
            else Inr \<lparr>opt_Parameters = (if cloned = fmempty then None else Some cloned)\<rparr>)"

text \<open>The order decides only which of several violations is reported
  (shown below), so the model visits the keys in their sorted order.\<close>

definition NewSubscriptionOptions :: "parameters \<Rightarrow> SubscriptionOptions result" where
  "NewSubscriptionOptions ps = options_in_order (sorted_keys ps) ps"

definition options_Clone :: "SubscriptionOptions \<Rightarrow> SubscriptionOptions" where
  "options_Clone o1 = \<lparr>opt_Parameters = opt_Parameters o1\<rparr>"

definition PermanentSubscriptionReason :: "goerr option \<Rightarrow> string \<times> bool" where
  "PermanentSubscriptionReason err =
     (case (case err of None \<Rightarrow> None | Some e \<Rightarrow> as_permanent e) of
        None \<Rightarrow> ([], False)
      | Some reason \<Rightarrow>
          if reason = [] then ([], True)
          else if 256 < length reason then ([], True)
          else (reason, True))"

definition ValidateConsumerSpec :: "ConsumerSpec \<Rightarrow> goerr option" where
  "ValidateConsumerSpec spec =
     (if spec_ID spec = [] \<or> spec_Destination spec = []
      then Some (Error ''consumer ID and destination are required'')
      else if spec_StartPosition spec \<noteq> StartEarliest \<and> spec_StartPosition spec \<noteq> StartLatest
      then Some (Error ''unsupported consumer start position'')
      else None)"

section \<open>The bounds\<close>

text \<open>The size of one entry and the bounds the options promise, without any loop.\<close>

definition entry_bytes :: "string \<Rightarrow> string list \<Rightarrow> nat" where
  "entry_bytes k vs = length k + sum_list (map length vs)"

definition entry_bounded :: "string \<Rightarrow> string list \<Rightarrow> bool" where
  "entry_bounded k vs \<longleftrightarrow>
     k \<noteq> [] \<and> length k \<le> MaxSubscriptionOptionKeyBytes \<and>
     length vs \<le> MaxSubscriptionOptionValues \<and>
     (\<forall>v\<in>set vs. length v \<le> MaxSubscriptionOptionValueBytes)"

definition options_bounded :: "parameters \<Rightarrow> bool" where
  "options_bounded ps \<longleftrightarrow>
     mlen ps \<le> MaxSubscriptionOptionKeys \<and>
     range_all entry_bounded ps \<and>
     (\<Sum>k\<in>fset (fmdom (entries ps)). entry_bytes k (the (mget ps k))) \<le> MaxSubscriptionOptionsBytes"

lemma options_values_iff:
  "options_values vs t = Inr t' \<longleftrightarrow>
     (\<forall>v\<in>set vs. length v \<le> MaxSubscriptionOptionValueBytes) \<and> t' = t + sum_list (map length vs)"
  by (induction vs arbitrary: t) auto

lemma options_loop_iff:
  assumes "set ord \<subseteq> fset (fmdom ps)"
  shows "options_loop ps ord c t = Inr (c', t') \<longleftrightarrow>
    (\<forall>k\<in>set ord. entry_bounded k (the (fmlookup ps k))) \<and>
    c' = fold (\<lambda>k. fmupd k (the (fmlookup ps k))) ord c \<and>
    t' = t + sum_list (map (\<lambda>k. entry_bytes k (the (fmlookup ps k))) ord)"
  using assms
proof (induction ord arbitrary: c t)
  case (Cons k ord)
  then obtain vs where vs: "fmlookup ps k = Some vs"
    by (auto simp: fmlookup_dom_iff)
  show ?case
  proof (cases "entry_bounded k vs")
    case True
    then have "options_values vs (t + length k) = Inr (t + entry_bytes k vs)"
      by (simp add: options_values_iff entry_bounded_def entry_bytes_def)
    with True vs Cons show ?thesis
      by (simp add: entry_bounded_def ac_simps)
  next
    case False
    then have "k \<noteq> [] \<and> length k \<le> MaxSubscriptionOptionKeyBytes \<and>
        length vs \<le> MaxSubscriptionOptionValues \<Longrightarrow> \<forall>x. options_values vs (t + length k) \<noteq> Inr x"
      by (auto simp: options_values_iff entry_bounded_def)
    with False vs show ?thesis
      by (auto split: sum.splits)
  qed
qed auto

lemma lookup_fold_fmupd:
  "fmlookup (fold (\<lambda>k. fmupd k (f k)) ks c) x = (if x \<in> set ks then Some (f x) else fmlookup c x)"
  by (induction ks arbitrary: c) auto

lemma fold_fmupd_all:
  assumes "set ks = fset (fmdom m)"
  shows "fold (\<lambda>k. fmupd k (the (fmlookup m k))) ks fmempty = m"
proof (rule fmap_ext)
  fix x
  show "fmlookup (fold (\<lambda>k. fmupd k (the (fmlookup m k))) ks fmempty) x = fmlookup m x"
    using assms by (cases "fmlookup m x") (auto simp: lookup_fold_fmupd fmlookup_dom_iff)
qed

text \<open>Within the bounds every visiting order succeeds with the same copy; beyond them every
  order fails.\<close>

definition options_copy :: "parameters \<Rightarrow> SubscriptionOptions" where
  "options_copy ps = \<lparr>opt_Parameters = (if entries ps = fmempty then None else Some (entries ps))\<rparr>"

lemma options_loop_bounded:
  assumes "range_order ps ord"
  shows "options_loop (entries ps) ord fmempty 0 = Inr (c, t) \<longleftrightarrow>
    range_all entry_bounded ps \<and> c = entries ps \<and>
    t = (\<Sum>k\<in>fset (fmdom (entries ps)). entry_bytes k (the (mget ps k)))"
proof -
  have ord: "set ord = fset (fmdom (entries ps))" "distinct ord"
    using assms by (auto simp: range_order_def)
  have "(\<forall>k\<in>set ord. entry_bounded k (the (fmlookup (entries ps) k))) \<longleftrightarrow> range_all entry_bounded ps"
    by (simp add: ord range_all_dom mget_def)
  moreover have "sum_list (map (\<lambda>k. entry_bytes k (the (fmlookup (entries ps) k))) ord) =
      (\<Sum>k\<in>fset (fmdom (entries ps)). entry_bytes k (the (mget ps k)))"
    using ord by (simp add: sum_list_distinct_conv_sum_set mget_def)
  ultimately show ?thesis
    using ord by (simp add: options_loop_iff fold_fmupd_all)
qed

lemma options_in_order_bounded:
  assumes "range_order ps ord" and "options_bounded ps"
  shows "options_in_order ord ps = Inr (options_copy ps)"
proof -
  have "options_loop (entries ps) ord fmempty 0 =
      Inr (entries ps, \<Sum>k\<in>fset (fmdom (entries ps)). entry_bytes k (the (mget ps k)))"
    using options_loop_bounded [OF assms(1)] assms(2) by (simp add: options_bounded_def)
  with assms(2) show ?thesis
    by (simp add: options_in_order_def options_bounded_def options_copy_def)
qed

lemma options_in_order_unbounded:
  assumes "range_order ps ord" and "\<not> options_bounded ps"
  shows "\<exists>r. options_in_order ord ps = Inl (PermanentSubscriptionError r)"
proof -
  have perm: "options_values vs t = Inl e \<Longrightarrow> \<exists>r. e = PermanentSubscriptionError r" for vs t e
    by (induction vs arbitrary: t) (auto split: if_splits)
  have "options_loop m ks c t = Inl e \<Longrightarrow> \<exists>r. e = PermanentSubscriptionError r" for m ks c t e
    by (induction ks arbitrary: c t) (auto split: if_splits option.splits sum.splits dest: perm)
  with assms show ?thesis
    using options_loop_bounded [OF assms(1)]
    by (auto simp: options_in_order_def options_bounded_def split: sum.splits)
qed

lemma NewSubscriptionOptions_bounded:
  "options_bounded ps \<Longrightarrow> NewSubscriptionOptions ps = Inr (options_copy ps)"
  by (simp add: NewSubscriptionOptions_def options_in_order_bounded range_order_sorted_keys)

lemma NewSubscriptionOptions_Inr:
  "NewSubscriptionOptions ps = Inr opts \<longleftrightarrow> options_bounded ps \<and> opts = options_copy ps"
  using NewSubscriptionOptions_bounded [of ps] options_in_order_unbounded [OF range_order_sorted_keys]
  by (metis NewSubscriptionOptions_def sum.inject(2) sum.simps(4))

text \<open>
  (C27) The subscription options accept a parameter map exactly when it stays within the
  product's bounds (32 keys, 128 bytes per key, 8 values, 1024 bytes per value, 8192 bytes in
  all), whatever the order in which Go visits the map; the accepted options hold the same
  entries (an empty map becomes nil), and a refusal is always a permanent subscriber error.
\<close>

theorem NewSubscriptionOptions_bounds:
  assumes "range_order ps ord"
  shows "if options_bounded ps then options_in_order ord ps = Inr (options_copy ps)
         else \<exists>r. options_in_order ord ps = Inl (PermanentSubscriptionError r)"
  using options_in_order_bounded options_in_order_unbounded assms by auto

theorem NewSubscriptionOptions_bounds_witness:
  "range_order (Some (fmap_of_list [(''a'', [''x'']), (''b'', [])])) [''b'', ''a''] \<and>
   options_in_order [''b'', ''a''] (Some (fmap_of_list [(''a'', [''x'']), (''b'', [])])) =
     Inr \<lparr>opt_Parameters = Some (fmap_of_list [(''a'', [''x'']), (''b'', [])])\<rparr>"
proof -
  let ?p = "Some (fmap_of_list [(''a'', [''x'']), (''b'', [])])"
  have o: "range_order ?p [''b'', ''a'']"
    by (auto simp: range_order_def)
  have b: "options_bounded ?p"
    by (auto simp: options_bounded_def mlen_def range_all_dom entry_bounded_def entry_bytes_def
        mget_def fcard_finsert_if fcard_fempty)
  have "options_copy ?p = \<lparr>opt_Parameters = ?p\<rparr>"
    by (simp add: options_copy_def)
  then show ?thesis
    using o b NewSubscriptionOptions_bounds [OF o] by simp
qed

end
