(* ===== verification/State.thy ===== *)
theory State
  imports Go_Mime Contracts
begin

text \<open>
  The state package (\<open>internal/state\<close>): topics, subscriptions and snapshots
  (\<open>model.go\<close>), the event records and their validation (\<open>events.go\<close>), the validity of a
  snapshot (\<open>snapshot.go\<close>) and the reducer (\<open>reducer.go\<close>). Revisions are 64-bit and wrap.
\<close>

section \<open>Model\<close>

abbreviation SchemaVersion :: "16 word" where "SchemaVersion \<equiv> 1"

type_synonym TopicStatus = string
type_synonym SubscriptionStatus = string

abbreviation TopicActive :: TopicStatus where "TopicActive \<equiv> ''active''"
abbreviation TopicInactive :: TopicStatus where "TopicInactive \<equiv> ''inactive''"

abbreviation SubscriptionActive :: SubscriptionStatus where "SubscriptionActive \<equiv> ''active''"
abbreviation SubscriptionStale :: SubscriptionStatus where "SubscriptionStale \<equiv> ''stale''"
abbreviation SubscriptionRemoved :: SubscriptionStatus where "SubscriptionRemoved \<equiv> ''removed''"

record Topic =
  topic_ID :: string
  CanonicalURL :: string
  ContentDestination :: string
  topic_ContentType :: string
  topic_Status :: TopicStatus
  RegisteredAt :: gtime
  RegisteredBy :: string
  topic_Revision :: "64 word"

record Subscription =
  sub_ID :: string
  sub_TopicID :: string
  TopicURL :: string
  CallbackURL :: string
  SecretCiphertext :: string
  SecretKeyID :: string
  LeaseStartedAt :: gtime
  EffectiveLeaseSeconds :: string
  sub_ServerID :: string
  sub_ConsumerID :: string
  Parameters :: parameters
  sub_Status :: SubscriptionStatus
  StaleReason :: string
  sub_Revision :: "64 word"

record Snapshot =
  snap_SchemaVersion :: "16 word"
  snap_Revision :: "64 word"
  Topics :: "Topic gomap"
  Subscriptions :: "Subscription gomap"

definition EmptySnapshot :: Snapshot where
  "EmptySnapshot =
     \<lparr>snap_SchemaVersion = SchemaVersion, snap_Revision = 0,
      Topics = Some fmempty, Subscriptions = Some fmempty\<rparr>"

text \<open>The zero value \<open>Snapshot{}\<close>, with nil maps.\<close>

definition zero_Snapshot :: Snapshot where
  "zero_Snapshot =
     \<lparr>snap_SchemaVersion = 0, snap_Revision = 0, Topics = None, Subscriptions = None\<rparr>"

text \<open>The zero values read from a map at an absent key.\<close>

definition zero_Topic :: Topic where
  "zero_Topic =
     \<lparr>topic_ID = [], CanonicalURL = [], ContentDestination = [], topic_ContentType = [],
      topic_Status = [], RegisteredAt = zero_time, RegisteredBy = [], topic_Revision = 0\<rparr>"

definition zero_Subscription :: Subscription where
  "zero_Subscription =
     \<lparr>sub_ID = [], sub_TopicID = [], TopicURL = [], CallbackURL = [], SecretCiphertext = [],
      SecretKeyID = [], LeaseStartedAt = zero_time, EffectiveLeaseSeconds = [], sub_ServerID = [],
      sub_ConsumerID = [], Parameters = None, sub_Status = [], StaleReason = [], sub_Revision = 0\<rparr>"

section \<open>Events\<close>

record Actor =
  actor_Type :: string
  actor_ID :: string

record EventMetadata =
  meta_SchemaVersion :: "16 word"
  EventID :: string
  OccurredAt :: gtime
  meta_Actor :: Actor

datatype event =
    TopicRegistered EventMetadata Topic
  | TopicDeregistered EventMetadata string
  | SubscriptionVerified EventMetadata Subscription
  | SubscriptionUnsubscribed EventMetadata string
  | SubscriptionStaleEvent EventMetadata string string
  | SubscriptionReactivated EventMetadata string
  | SubscriptionRemovedEvent EventMetadata string string

fun event_Metadata :: "event \<Rightarrow> EventMetadata" where
  "event_Metadata (TopicRegistered m _) = m"
| "event_Metadata (TopicDeregistered m _) = m"
| "event_Metadata (SubscriptionVerified m _) = m"
| "event_Metadata (SubscriptionUnsubscribed m _) = m"
| "event_Metadata (SubscriptionStaleEvent m _ _) = m"
| "event_Metadata (SubscriptionReactivated m _) = m"
| "event_Metadata (SubscriptionRemovedEvent m _ _) = m"

fun eventType :: "event \<Rightarrow> string" where
  "eventType (TopicRegistered _ _) = ''topic_registered''"
| "eventType (TopicDeregistered _ _) = ''topic_deregistered''"
| "eventType (SubscriptionVerified _ _) = ''subscription_verified''"
| "eventType (SubscriptionUnsubscribed _ _) = ''subscription_unsubscribed''"
| "eventType (SubscriptionStaleEvent _ _ _) = ''subscription_stale''"
| "eventType (SubscriptionReactivated _ _) = ''subscription_reactivated''"
| "eventType (SubscriptionRemovedEvent _ _ _) = ''subscription_removed''"

text \<open>\<^const>\<open>None\<close> is the nil interface.\<close>

definition validateEvent :: "event option \<Rightarrow> goerr option" where
  "validateEvent ev =
     (case ev of
        None \<Rightarrow> Some (Error ''event is required'')
      | Some e \<Rightarrow>
         let meta = event_Metadata e in
         if meta_SchemaVersion meta \<noteq> SchemaVersion
         then Some (Error ''unsupported state event schema version'')
         else if EventID meta = [] then Some (Error ''event ID is required'')
         else if time_IsZero (OccurredAt meta) \<or> tm_loc (OccurredAt meta) \<noteq> UTC
         then Some (Error ''event occurrence time must be non-zero UTC'')
         else if actor_Type (meta_Actor meta) = [] then Some (Error ''actor type is required'')
         else (case e of
            TopicRegistered _ topic \<Rightarrow>
              if \<not> canonical_content_type (topic_ContentType topic)
              then Some (Error ''topic registration content type is invalid'') else None
          | _ \<Rightarrow> None))"

section \<open>Valid snapshots\<close>

definition validate_topic :: "64 word \<Rightarrow> string \<Rightarrow> Topic \<Rightarrow> goerr option" where
  "validate_topic limit ident topic =
     (if ident = [] \<or> topic_ID topic \<noteq> ident \<or> CanonicalURL topic = [] \<or> ContentDestination topic = [] \<or>
         topic_ContentType topic = []
      then Some (Error ''invalid topic'')
      else if \<not> canonical_content_type (topic_ContentType topic)
      then Some (Error ''topic has invalid content type'')
      else if topic_Status topic \<noteq> TopicActive \<and> topic_Status topic \<noteq> TopicInactive
      then Some (Error ''topic has invalid status'')
      else if limit < topic_Revision topic then Some (Error ''topic revision exceeds snapshot'')
      else None)"

definition validate_subscription :: "64 word \<Rightarrow> string \<Rightarrow> Subscription \<Rightarrow> goerr option" where
  "validate_subscription limit ident sub =
     (if ident = [] \<or> sub_ID sub \<noteq> ident \<or> sub_TopicID sub = [] \<or> TopicURL sub = [] \<or>
         CallbackURL sub = [] \<or> sub_ServerID sub = [] \<or> sub_ConsumerID sub = []
      then Some (Error ''invalid subscription'')
      else if sub_Status sub \<noteq> SubscriptionActive \<and> sub_Status sub \<noteq> SubscriptionStale \<and>
              sub_Status sub \<noteq> SubscriptionRemoved
      then Some (Error ''subscription has invalid status'')
      else case NewSubscriptionOptions (Parameters sub) of
          Inl _ \<Rightarrow> Some (Error ''subscription has invalid options'')
        | Inr _ \<Rightarrow>
            if limit < sub_Revision sub then Some (Error ''subscription revision exceeds snapshot'')
            else None)"

definition validateSnapshot :: "Snapshot \<Rightarrow> goerr option" where
  "validateSnapshot s =
     (if snap_SchemaVersion s \<noteq> SchemaVersion
      then Some (Error ''unsupported snapshot schema version'')
      else if Topics s = None \<or> Subscriptions s = None
      then Some (Error ''snapshot maps must be initialized'')
      else case range_first (validate_topic (snap_Revision s)) (Topics s) of
          Some e \<Rightarrow> Some e
        | None \<Rightarrow> range_first (validate_subscription (snap_Revision s)) (Subscriptions s))"

abbreviation valid_snapshot :: "Snapshot \<Rightarrow> bool" where
  "valid_snapshot s \<equiv> validateSnapshot s = None"

section \<open>Reducer\<close>

text \<open>\<open>==\<close> on topics after their revisions are cleared.\<close>

definition sameTopic :: "Topic \<Rightarrow> Topic \<Rightarrow> bool" where
  "sameTopic a b = (a\<lparr>topic_Revision := 0\<rparr> = b\<lparr>topic_Revision := 0\<rparr>)"

definition sameSubscription :: "Subscription \<Rightarrow> Subscription \<Rightarrow> bool" where
  "sameSubscription a b =
     (sub_ID a = sub_ID b \<and> sub_TopicID a = sub_TopicID b \<and> TopicURL a = TopicURL b \<and>
      CallbackURL a = CallbackURL b \<and> SecretCiphertext a = SecretCiphertext b \<and>
      SecretKeyID a = SecretKeyID b \<and> time_Equal (LeaseStartedAt a) (LeaseStartedAt b) \<and>
      EffectiveLeaseSeconds a = EffectiveLeaseSeconds b \<and> sub_ServerID a = sub_ServerID b \<and>
      sub_ConsumerID a = sub_ConsumerID b \<and> entries (Parameters a) = entries (Parameters b) \<and>
      sub_Status a = sub_Status b \<and> StaleReason a = StaleReason b)"

definition invalid_transition :: "string \<Rightarrow> (Snapshot \<times> bool) result" where
  "invalid_transition msg = Inl (Wrap msg ErrInvalidTransition)"

definition put_topic :: "Snapshot \<Rightarrow> string \<Rightarrow> Topic \<Rightarrow> Snapshot" where
  "put_topic s ident t = s\<lparr>Topics := mput (Topics s) ident t\<rparr>"

definition put_subscription :: "Snapshot \<Rightarrow> string \<Rightarrow> Subscription \<Rightarrow> Snapshot" where
  "put_subscription s ident b = s\<lparr>Subscriptions := mput (Subscriptions s) ident b\<rparr>"

definition removeSubscription :: "Snapshot \<Rightarrow> string \<Rightarrow> (Snapshot \<times> bool) result" where
  "removeSubscription s ident =
     (case mget (Subscriptions s) ident of
        None \<Rightarrow> invalid_transition ''subscription does not exist''
      | Some sub \<Rightarrow>
          if sub_Status sub = SubscriptionRemoved then Inr (s, False)
          else Inr (put_subscription s ident (sub\<lparr>sub_Status := SubscriptionRemoved, StaleReason := []\<rparr>), True))"

text \<open>The value stored for a verified subscription, before its revision is stamped.\<close>

definition verified_value :: "Subscription \<Rightarrow> Subscription" where
  "verified_value sub = sub\<lparr>sub_Status := SubscriptionActive, StaleReason := [], sub_Revision := 0\<rparr>"

fun apply_event :: "Snapshot \<Rightarrow> event \<Rightarrow> (Snapshot \<times> bool) result" where
  "apply_event s (TopicRegistered _ topic) =
     (if topic_ID topic = [] \<or> CanonicalURL topic = [] \<or> ContentDestination topic = [] \<or>
         topic_ContentType topic = [] \<or> time_IsZero (RegisteredAt topic)
      then invalid_transition ''incomplete topic registration''
      else if \<not> canonical_content_type (topic_ContentType topic)
      then invalid_transition ''topic content type is not canonical''
      else let desired = topic\<lparr>topic_Status := TopicActive, topic_Revision := 0\<rparr>;
               stored = Inr (put_topic s (topic_ID desired) desired, True)
           in case mget (Topics s) (topic_ID desired) of
                None \<Rightarrow> stored
              | Some existing \<Rightarrow>
                  if topic_Status existing = TopicActive \<and> sameTopic existing desired then Inr (s, False)
                  else if CanonicalURL existing \<noteq> CanonicalURL desired
                  then invalid_transition ''topic ID collision''
                  else if topic_ContentType existing \<noteq> topic_ContentType desired
                  then invalid_transition ''topic content type is immutable''
                  else stored)"
| "apply_event s (TopicDeregistered _ ident) =
     (case mget (Topics s) ident of
        None \<Rightarrow> invalid_transition ''topic does not exist''
      | Some topic \<Rightarrow>
          if topic_Status topic = TopicInactive then Inr (s, False)
          else Inr (put_topic s ident (topic\<lparr>topic_Status := TopicInactive\<rparr>), True))"
| "apply_event s (SubscriptionVerified _ sub) =
     (if sub_ID sub = [] \<or> sub_TopicID sub = [] \<or> TopicURL sub = [] \<or> CallbackURL sub = [] \<or>
         sub_ServerID sub = [] \<or> sub_ConsumerID sub = [] \<or> time_IsZero (LeaseStartedAt sub)
      then invalid_transition ''incomplete verified subscription''
      else case NewSubscriptionOptions (Parameters sub) of
          Inl _ \<Rightarrow> invalid_transition ''invalid subscription options''
        | Inr _ \<Rightarrow>
            if (case mget (Topics s) (sub_TopicID sub) of
                  None \<Rightarrow> True
                | Some topic \<Rightarrow> topic_Status topic \<noteq> TopicActive \<or> CanonicalURL topic \<noteq> TopicURL sub)
            then invalid_transition ''subscription topic is not active''
            else let desired = verified_value sub in
              case mget (Subscriptions s) (sub_ID desired) of
                Some existing \<Rightarrow>
                  if sub_Status existing = SubscriptionActive \<and> sameSubscription existing desired
                  then Inr (s, False)
                  else invalid_transition ''subscription ID already exists''
              | None \<Rightarrow>
                  if range_any (\<lambda>_ existing. sub_Status existing \<noteq> SubscriptionRemoved \<and>
                       TopicURL existing = TopicURL desired \<and>
                       CallbackURL existing = CallbackURL desired) (Subscriptions s)
                  then Inr (s, False)
                  else Inr (put_subscription s (sub_ID desired) desired, True))"
| "apply_event s (SubscriptionUnsubscribed _ ident) = removeSubscription s ident"
| "apply_event s (SubscriptionRemovedEvent _ ident _) = removeSubscription s ident"
| "apply_event s (SubscriptionStaleEvent _ ident reason) =
     (case mget (Subscriptions s) ident of
        None \<Rightarrow> invalid_transition ''subscription cannot become stale''
      | Some sub \<Rightarrow>
          if sub_Status sub = SubscriptionRemoved
          then invalid_transition ''subscription cannot become stale''
          else if sub_Status sub = SubscriptionStale \<and> StaleReason sub = reason then Inr (s, False)
          else Inr (put_subscription s ident (sub\<lparr>sub_Status := SubscriptionStale, StaleReason := reason\<rparr>), True))"
| "apply_event s (SubscriptionReactivated _ ident) =
     (case mget (Subscriptions s) ident of
        None \<Rightarrow> invalid_transition ''subscription cannot be reactivated''
      | Some sub \<Rightarrow>
          if sub_Status sub = SubscriptionRemoved
          then invalid_transition ''subscription cannot be reactivated''
          else if sub_Status sub = SubscriptionActive then Inr (s, False)
          else Inr (put_subscription s ident (sub\<lparr>sub_Status := SubscriptionActive, StaleReason := []\<rparr>), True))"

text \<open>\<open>stampRevision\<close> writes the new revision into the entity the event addresses.\<close>

definition stamp_topic :: "Snapshot \<Rightarrow> string \<Rightarrow> 64 word \<Rightarrow> Snapshot" where
  "stamp_topic s ident revision =
     (let topic = (case mget (Topics s) ident of None \<Rightarrow> zero_Topic | Some t \<Rightarrow> t)
      in put_topic s ident (topic\<lparr>topic_Revision := revision\<rparr>))"

definition stamp_subscription :: "Snapshot \<Rightarrow> string \<Rightarrow> 64 word \<Rightarrow> Snapshot" where
  "stamp_subscription s ident revision =
     (let sub = (case mget (Subscriptions s) ident of None \<Rightarrow> zero_Subscription | Some b \<Rightarrow> b)
      in put_subscription s ident (sub\<lparr>sub_Revision := revision\<rparr>))"

fun stampRevision :: "Snapshot \<Rightarrow> event \<Rightarrow> 64 word \<Rightarrow> Snapshot" where
  "stampRevision s (TopicRegistered _ topic) revision = stamp_topic s (topic_ID topic) revision"
| "stampRevision s (TopicDeregistered _ ident) revision = stamp_topic s ident revision"
| "stampRevision s (SubscriptionVerified _ sub) revision = stamp_subscription s (sub_ID sub) revision"
| "stampRevision s (SubscriptionUnsubscribed _ ident) revision = stamp_subscription s ident revision"
| "stampRevision s (SubscriptionStaleEvent _ ident _) revision = stamp_subscription s ident revision"
| "stampRevision s (SubscriptionReactivated _ ident) revision = stamp_subscription s ident revision"
| "stampRevision s (SubscriptionRemovedEvent _ ident _) revision = stamp_subscription s ident revision"

text \<open>Copies share no storage with their source; as values they are equal to it, except that
  the subscriptions map of a copy is never nil.\<close>

definition cloneSubscription :: "Subscription \<Rightarrow> Subscription" where
  "cloneSubscription source =
     source\<lparr>SecretCiphertext := SecretCiphertext source, Parameters := map_option (fmmap (\<lambda>vs. vs)) (Parameters source)\<rparr>"

definition cloneSnapshot :: "Snapshot \<Rightarrow> Snapshot" where
  "cloneSnapshot source =
     source\<lparr>Topics := Topics source,
            Subscriptions := Some (fmmap cloneSubscription (entries (Subscriptions source)))\<rparr>"

text \<open>\<open>Reducer.Apply\<close>: the new snapshot and whether it changed.\<close>

definition Reducer_Apply :: "Snapshot \<Rightarrow> event option \<Rightarrow> (Snapshot \<times> bool) result" where
  "Reducer_Apply current ev =
     (case validateSnapshot current of
        Some e \<Rightarrow> Inl e
      | None \<Rightarrow>
         (case validateEvent ev of
            Some e \<Rightarrow> Inl e
          | None \<Rightarrow>
             (case apply_event (cloneSnapshot current) (the ev) of
                Inl e \<Rightarrow> Inl e
              | Inr (next1, changed) \<Rightarrow>
                  if \<not> changed then Inr (current, False)
                  else let next2 = next1\<lparr>snap_Revision := snap_Revision next1 + 1\<rparr>
                       in Inr (stampRevision next2 (the ev) (snap_Revision next2), True))))"

end
