(* ===== verification/Reducer.thy ===== *)
theory Reducer
  imports State
begin

text \<open>
  What the reducer of \<open>internal/state/reducer.go\<close> promises. The life cycles of topics and
  subscriptions are stated as step relations without events, and \<open>Reducer.Apply\<close> is shown
  to take exactly their steps; the invariants of the hub state are then proved on the
  relation. The contract the consolidator and the projection rely on is the locale
  \<open>event_reducer\<close>, interpreted here on \<^const>\<open>Reducer_Apply\<close>.
\<close>

section \<open>Validity in usable form\<close>

definition topic_ok :: "64 word \<Rightarrow> string \<Rightarrow> Topic \<Rightarrow> bool" where
  "topic_ok limit k t \<longleftrightarrow>
     k \<noteq> [] \<and> topic_ID t = k \<and> CanonicalURL t \<noteq> [] \<and> ContentDestination t \<noteq> [] \<and>
     topic_ContentType t \<noteq> [] \<and> canonical_content_type (topic_ContentType t) \<and>
     topic_Status t \<in> {TopicActive, TopicInactive} \<and> topic_Revision t \<le> limit"

definition options_ok :: "parameters \<Rightarrow> bool" where
  "options_ok p \<longleftrightarrow> (\<exists>opts. NewSubscriptionOptions p = Inr opts)"

definition subscription_ok :: "64 word \<Rightarrow> string \<Rightarrow> Subscription \<Rightarrow> bool" where
  "subscription_ok limit k b \<longleftrightarrow>
     k \<noteq> [] \<and> sub_ID b = k \<and> sub_TopicID b \<noteq> [] \<and> TopicURL b \<noteq> [] \<and> CallbackURL b \<noteq> [] \<and>
     sub_ServerID b \<noteq> [] \<and> sub_ConsumerID b \<noteq> [] \<and>
     sub_Status b \<in> {SubscriptionActive, SubscriptionStale, SubscriptionRemoved} \<and>
     options_ok (Parameters b) \<and> sub_Revision b \<le> limit"

lemma validate_topic_None: "validate_topic limit k t = None \<longleftrightarrow> topic_ok limit k t"
  by (auto simp: validate_topic_def topic_ok_def not_less)

lemma validate_subscription_None: "validate_subscription limit k b = None \<longleftrightarrow> subscription_ok limit k b"
  by (auto simp: validate_subscription_def subscription_ok_def options_ok_def not_less split: sum.splits)

lemma valid_snapshot_iff:
  "valid_snapshot s \<longleftrightarrow>
     snap_SchemaVersion s = SchemaVersion \<and> Topics s \<noteq> None \<and> Subscriptions s \<noteq> None \<and>
     range_all (topic_ok (snap_Revision s)) (Topics s) \<and>
     range_all (subscription_ok (snap_Revision s)) (Subscriptions s)"
proof -
  have "range_first (validate_topic r) m = None \<longleftrightarrow> range_all (topic_ok r) m"
    "range_first (validate_subscription r) m' = None \<longleftrightarrow> range_all (subscription_ok r) m'" for r m m'
    by (simp_all add: range_first_None validate_topic_None validate_subscription_None)
  then show ?thesis
    unfolding validateSnapshot_def by (simp split: option.split) (metis option.distinct(1))
qed

lemma cloneSubscription_eq [simp]: "cloneSubscription b = b"
proof -
  have "map_option (fmmap (\<lambda>vs. vs)) (Parameters b) = Parameters b"
    by (cases "Parameters b") (auto intro!: fmap_ext simp: option.map_ident)
  then show ?thesis by (simp add: cloneSubscription_def)
qed

lemma cloneSnapshot_eq: "Subscriptions s \<noteq> None \<Longrightarrow> cloneSnapshot s = s"
proof -
  assume "Subscriptions s \<noteq> None"
  moreover have "fmmap cloneSubscription m = m" for m :: "(string, Subscription) fmap"
    by (rule fmap_ext) (simp add: option.map_ident_strong)
  ultimately show ?thesis by (cases s) (auto simp: cloneSnapshot_def)
qed

section \<open>Life cycles as step relations\<close>

text \<open>Registration of a new or known topic, and its deregistration, at revision \<open>r\<close>.\<close>

inductive topic_step :: "64 word \<Rightarrow> Topic option \<Rightarrow> Topic \<Rightarrow> bool" for r where
  register:
    "\<lbrakk>topic_ok r (topic_ID t) t; topic_Revision t = r; topic_Status t = TopicActive;
      \<not> time_IsZero (RegisteredAt t);
      \<And>old. before = Some old \<Longrightarrow>
        CanonicalURL old = CanonicalURL t \<and> topic_ContentType old = topic_ContentType t \<and>
        \<not> (topic_Status old = TopicActive \<and> sameTopic old t)\<rbrakk>
     \<Longrightarrow> topic_step r before t"
| deregister:
    "topic_Status old \<noteq> TopicInactive \<Longrightarrow>
     topic_step r (Some old) (old\<lparr>topic_Status := TopicInactive, topic_Revision := r\<rparr>)"

text \<open>Whether a topic accepts a subscription, and whether a subscription is live.\<close>

definition topic_accepts :: "Snapshot \<Rightarrow> Subscription \<Rightarrow> bool" where
  "topic_accepts s b \<longleftrightarrow>
     (\<exists>t. mget (Topics s) (sub_TopicID b) = Some t \<and> topic_Status t = TopicActive \<and>
          CanonicalURL t = TopicURL b)"

definition live :: "Subscription \<Rightarrow> bool" where
  "live b \<longleftrightarrow> sub_Status b \<noteq> SubscriptionRemoved"

definition same_target :: "Subscription \<Rightarrow> Subscription \<Rightarrow> bool" where
  "same_target a b \<longleftrightarrow> TopicURL a = TopicURL b \<and> CallbackURL a = CallbackURL b"

inductive subscription_step :: "Snapshot \<Rightarrow> 64 word \<Rightarrow> Subscription option \<Rightarrow> Subscription \<Rightarrow> bool"
  for s r where
  verify:
    "\<lbrakk>subscription_ok r (sub_ID b) b; sub_Revision b = r; sub_Status b = SubscriptionActive;
      StaleReason b = []; \<not> time_IsZero (LeaseStartedAt b); topic_accepts s b;
      \<And>k old. mget (Subscriptions s) k = Some old \<Longrightarrow> live old \<Longrightarrow> \<not> same_target old b\<rbrakk>
     \<Longrightarrow> subscription_step s r None b"
| suspend:
    "\<lbrakk>live old; \<not> (sub_Status old = SubscriptionStale \<and> StaleReason old = reason)\<rbrakk>
     \<Longrightarrow> subscription_step s r (Some old)
          (old\<lparr>sub_Status := SubscriptionStale, StaleReason := reason, sub_Revision := r\<rparr>)"
| reactivate:
    "\<lbrakk>live old; sub_Status old \<noteq> SubscriptionActive\<rbrakk>
     \<Longrightarrow> subscription_step s r (Some old)
          (old\<lparr>sub_Status := SubscriptionActive, StaleReason := [], sub_Revision := r\<rparr>)"
| remove:
    "live old \<Longrightarrow> subscription_step s r (Some old)
          (old\<lparr>sub_Status := SubscriptionRemoved, StaleReason := [], sub_Revision := r\<rparr>)"

text \<open>One change of the hub state: one topic or one subscription takes a step, at the next
  revision, and nothing else changes.\<close>

inductive transition :: "Snapshot \<Rightarrow> Snapshot \<Rightarrow> bool" where
  topic_transition:
    "topic_step (snap_Revision s + 1) (mget (Topics s) (topic_ID t)) t \<Longrightarrow>
     transition s ((put_topic s (topic_ID t) t)\<lparr>snap_Revision := snap_Revision s + 1\<rparr>)"
| subscription_transition:
    "subscription_step s (snap_Revision s + 1) (mget (Subscriptions s) (sub_ID b)) b \<Longrightarrow>
     transition s ((put_subscription s (sub_ID b) b)\<lparr>snap_Revision := snap_Revision s + 1\<rparr>)"

inductive_cases topic_stepE: "topic_step r old t"
inductive_cases subscription_stepE: "subscription_step s r old b"
inductive_cases transitionE: "transition s s'"

lemma put_simps [simp]:
  "Topics (put_topic s k t) = mput (Topics s) k t" "Subscriptions (put_topic s k t) = Subscriptions s"
  "snap_Revision (put_topic s k t) = snap_Revision s" "snap_SchemaVersion (put_topic s k t) = snap_SchemaVersion s"
  "Topics (put_subscription s k b) = Topics s" "Subscriptions (put_subscription s k b) = mput (Subscriptions s) k b"
  "snap_Revision (put_subscription s k b) = snap_Revision s"
  "snap_SchemaVersion (put_subscription s k b) = snap_SchemaVersion s"
  by (simp_all add: put_topic_def put_subscription_def)

lemma stamp_put [simp]:
  "stamp_topic ((put_topic s k t)\<lparr>snap_Revision := n\<rparr>) k r =
     (put_topic s k (t\<lparr>topic_Revision := r\<rparr>))\<lparr>snap_Revision := n\<rparr>"
  "stamp_subscription ((put_subscription s k b)\<lparr>snap_Revision := n\<rparr>) k r =
     (put_subscription s k (b\<lparr>sub_Revision := r\<rparr>))\<lparr>snap_Revision := n\<rparr>"
  by (simp_all add: stamp_topic_def stamp_subscription_def put_topic_def put_subscription_def)

section \<open>The reducer takes exactly these steps\<close>

lemma Reducer_ApplyE:
  assumes "Reducer_Apply s (Some e) = Inr (s', c)"
  obtains (unchanged) "\<not> c" "s' = s" "valid_snapshot s" "validateEvent (Some e) = None"
      "apply_event s e = Inr (s, False)"
  | (changed) n where "c" "valid_snapshot s" "validateEvent (Some e) = None"
      "apply_event s e = Inr (n, True)"
      "s' = stampRevision (n\<lparr>snap_Revision := snap_Revision n + 1\<rparr>) e (snap_Revision n + 1)"
proof -
  have valid: "valid_snapshot s"
    using assms by (auto simp: Reducer_Apply_def split: option.splits)
  then have same: "cloneSnapshot s = s" by (simp add: valid_snapshot_iff cloneSnapshot_eq)
  have event: "validateEvent (Some e) = None"
    using assms valid by (auto simp: Reducer_Apply_def split: option.splits)
  from assms obtain n d where n: "apply_event s e = Inr (n, d)"
    using valid event by (auto simp: Reducer_Apply_def same split: sum.splits prod.splits)
  have unchanged_eq: "n = s" if "\<not> d"
    using n that
    by (cases e) (auto simp: removeSubscription_def invalid_transition_def Let_def
          split: if_splits option.splits sum.splits)
  show thesis
    using assms valid event n unchanged_eq that
    by (cases d) (auto simp: Reducer_Apply_def same Let_def)
qed

lemma stamp_register:
  "(topic\<lparr>topic_Status := x, topic_Revision := 0\<rparr>)\<lparr>topic_Revision := r\<rparr> =
   topic\<lparr>topic_Status := x, topic_Revision := r\<rparr>"
  by simp

lemma register_transition:
  assumes "valid_snapshot s" "validateEvent (Some (TopicRegistered m t)) = None"
    "apply_event s (TopicRegistered m t) = Inr (n, True)"
  shows "transition s (stampRevision (n\<lparr>snap_Revision := snap_Revision n + 1\<rparr>) (TopicRegistered m t)
            (snap_Revision n + 1))"
proof -
  let ?t = "t\<lparr>topic_Status := TopicActive, topic_Revision := snap_Revision s + 1\<rparr>"
  have n: "n = put_topic s (topic_ID t) (t\<lparr>topic_Status := TopicActive, topic_Revision := 0\<rparr>)"
    using assms(3) by (auto simp: invalid_transition_def Let_def split: if_splits option.splits)
  have "topic_step (snap_Revision s + 1) (mget (Topics s) (topic_ID ?t)) ?t"
    using assms(3)
    by (intro topic_step.register)
      (auto simp: invalid_transition_def Let_def topic_ok_def sameTopic_def split: if_splits option.splits)
  from transition.topic_transition [OF this] show ?thesis
    by (simp add: n)
qed

lemma deregister_transition:
  assumes "valid_snapshot s" "apply_event s (TopicDeregistered m k) = Inr (n, True)"
  shows "transition s (stampRevision (n\<lparr>snap_Revision := snap_Revision n + 1\<rparr>) (TopicDeregistered m k)
            (snap_Revision n + 1))"
proof -
  obtain t where t: "mget (Topics s) k = Some t" "topic_Status t \<noteq> TopicInactive"
    "n = put_topic s k (t\<lparr>topic_Status := TopicInactive\<rparr>)"
    using assms(2) by (auto simp: invalid_transition_def split: if_splits option.splits)
  then have [simp]: "topic_ID t = k"
    using assms(1) by (auto simp: valid_snapshot_iff range_all_iff topic_ok_def)
  from t transition.topic_transition
    [of s "t\<lparr>topic_Status := TopicInactive, topic_Revision := snap_Revision s + 1\<rparr>"] show ?thesis
    by (simp add: topic_step.deregister)
qed

lemma verify_transition:
  assumes "valid_snapshot s" "apply_event s (SubscriptionVerified m b) = Inr (n, True)"
  shows "transition s (stampRevision (n\<lparr>snap_Revision := snap_Revision n + 1\<rparr>) (SubscriptionVerified m b)
            (snap_Revision n + 1))"
proof -
  let ?b = "(verified_value b)\<lparr>sub_Revision := snap_Revision s + 1\<rparr>"
  have n: "n = put_subscription s (sub_ID b) (verified_value b)" "mget (Subscriptions s) (sub_ID b) = None"
    using assms(2) by (auto simp: invalid_transition_def verified_value_def Let_def
        split: if_splits option.splits sum.splits)
  have "subscription_step s (snap_Revision s + 1) None ?b"
    using assms(2)
    by (intro subscription_step.verify)
      (auto simp: invalid_transition_def verified_value_def subscription_ok_def options_ok_def
        topic_accepts_def live_def same_target_def range_any_iff Let_def
        split: if_splits option.splits sum.splits)
  with n transition.subscription_transition [of s ?b] show ?thesis
    by (simp add: verified_value_def)
qed

lemma subscription_transitionI:
  assumes "valid_snapshot s" "mget (Subscriptions s) k = Some old" "sub_ID b = sub_ID old"
    "subscription_step s (snap_Revision s + 1) (Some old) b"
  shows "transition s ((put_subscription s k b)\<lparr>snap_Revision := snap_Revision s + 1\<rparr>)"
proof -
  have "sub_ID old = k"
    using assms(1,2) by (auto simp: valid_snapshot_iff range_all_iff subscription_ok_def)
  with assms transition.subscription_transition [of s b] show ?thesis by simp
qed

lemma removal_transition:
  assumes "valid_snapshot s" "removeSubscription s k = Inr (n, True)"
  shows "transition s (stamp_subscription (n\<lparr>snap_Revision := snap_Revision n + 1\<rparr>) k (snap_Revision n + 1))"
  using assms(2)
  by (auto simp: removeSubscription_def invalid_transition_def live_def split: if_splits option.splits
      intro!: subscription_transitionI [OF assms(1)] subscription_step.remove)

theorem Reducer_Apply_transition:
  assumes "Reducer_Apply s (Some e) = Inr (s', True)"
  shows "transition s s'"
  using assms
proof (cases rule: Reducer_ApplyE)
  case (changed n)
  then show ?thesis
  proof (cases e)
    case (SubscriptionStaleEvent m k reason)
    then show ?thesis using changed
      by (auto simp: invalid_transition_def live_def split: if_splits option.splits
          intro!: subscription_transitionI [OF changed(2)] subscription_step.suspend)
  next
    case (SubscriptionReactivated m k)
    then show ?thesis using changed
      by (auto simp: invalid_transition_def live_def split: if_splits option.splits
          intro!: subscription_transitionI [OF changed(2)] subscription_step.reactivate)
  qed (auto simp only: stampRevision.simps(4,7) apply_event.simps(4,5)
        intro: register_transition deregister_transition verify_transition removal_transition)
qed simp

lemma Reducer_ApplyI:
  assumes "valid_snapshot s" "validateEvent (Some e) = None" "apply_event s e = Inr (n, True)"
  shows "Reducer_Apply s (Some e) =
           Inr (stampRevision (n\<lparr>snap_Revision := snap_Revision n + 1\<rparr>) e (snap_Revision n + 1), True)"
proof -
  have "cloneSnapshot s = s" using assms(1) by (simp add: valid_snapshot_iff cloneSnapshot_eq)
  then show ?thesis using assms by (simp add: Reducer_Apply_def Let_def)
qed

lemma Reducer_Apply_rejects:
  assumes "valid_snapshot s" "validateEvent (Some e) = None" "apply_event s e = Inl err"
  shows "Reducer_Apply s (Some e) = Inl err"
proof -
  have "cloneSnapshot s = s" using assms(1) by (simp add: valid_snapshot_iff cloneSnapshot_eq)
  then show ?thesis using assms by (simp add: Reducer_Apply_def)
qed

text \<open>Some metadata that passes validation.\<close>

definition sample_meta :: EventMetadata where
  "sample_meta = \<lparr>meta_SchemaVersion = SchemaVersion, EventID = ''event'',
     OccurredAt = \<lparr>tm_ns = 1, tm_loc = UTC\<rparr>, meta_Actor = \<lparr>actor_Type = ''system'', actor_ID = []\<rparr>\<rparr>"

lemma validateEvent_sample:
  "event_Metadata e = sample_meta \<Longrightarrow> (\<And>m t. e = TopicRegistered m t \<Longrightarrow> canonical_content_type (topic_ContentType t)) \<Longrightarrow>
   validateEvent (Some e) = None"
  by (cases e) (simp_all add: validateEvent_def sample_meta_def time_IsZero_def Let_def)

lemma transition_eventI:
  assumes "valid_snapshot s" "event_Metadata e = sample_meta"
    "\<And>m t. e = TopicRegistered m t \<Longrightarrow> canonical_content_type (topic_ContentType t)"
    "apply_event s e = Inr (n, True)"
    "stampRevision (n\<lparr>snap_Revision := snap_Revision n + 1\<rparr>) e (snap_Revision n + 1) = s'"
  shows "\<exists>e. Reducer_Apply s (Some e) = Inr (s', True)"
proof -
  have "validateEvent (Some e) = None" using validateEvent_sample [OF assms(2)] assms(3) by blast
  from Reducer_ApplyI [OF assms(1) this assms(4)] assms(5) show ?thesis by blast
qed

lemma topic_transition_event:
  assumes "valid_snapshot s" "topic_step (snap_Revision s + 1) (mget (Topics s) (topic_ID t)) t"
  shows "\<exists>e. Reducer_Apply s (Some e) =
           Inr ((put_topic s (topic_ID t) t)\<lparr>snap_Revision := snap_Revision s + 1\<rparr>, True)"
  using assms(2)
proof (cases rule: topic_step.cases)
  case register
  have *: "t\<lparr>topic_Status := TopicActive, topic_Revision := snap_Revision s + 1\<rparr> = t"
    using register by (cases t) simp
  have "apply_event s (TopicRegistered sample_meta t) =
          Inr (put_topic s (topic_ID t) (t\<lparr>topic_Status := TopicActive, topic_Revision := 0\<rparr>), True)"
    using register by (auto simp: topic_ok_def sameTopic_def Let_def split: option.splits)
  then show ?thesis
    by (rule transition_eventI [OF assms(1), rotated 2]) (use register in \<open>auto simp: * topic_ok_def\<close>)
next
  case (deregister old)
  have "apply_event s (TopicDeregistered sample_meta (topic_ID t)) =
          Inr (put_topic s (topic_ID t) (old\<lparr>topic_Status := TopicInactive\<rparr>), True)"
    using deregister by auto
  then show ?thesis
    by (rule transition_eventI [OF assms(1), rotated 2]) (use deregister in simp_all)
qed

lemma subscription_transition_event:
  assumes "valid_snapshot s" "subscription_step s (snap_Revision s + 1) (mget (Subscriptions s) (sub_ID b)) b"
  shows "\<exists>e. Reducer_Apply s (Some e) =
           Inr ((put_subscription s (sub_ID b) b)\<lparr>snap_Revision := snap_Revision s + 1\<rparr>, True)"
  using assms(2)
proof (cases rule: subscription_step.cases)
  case verify
  have *: "(verified_value b)\<lparr>sub_Revision := snap_Revision s + 1\<rparr> = b"
    using verify by (cases b) (simp add: verified_value_def)
  have "apply_event s (SubscriptionVerified sample_meta b) =
          Inr (put_subscription s (sub_ID b) (verified_value b), True)"
    using verify
    by (auto simp: subscription_ok_def options_ok_def topic_accepts_def verified_value_def range_any_iff
        live_def same_target_def Let_def split: option.splits sum.splits)
  then show ?thesis
    by (rule transition_eventI [OF assms(1), rotated 2]) (simp_all add: *)
next
  case (suspend old reason)
  have "apply_event s (SubscriptionStaleEvent sample_meta (sub_ID b) reason) =
          Inr (put_subscription s (sub_ID b) (old\<lparr>sub_Status := SubscriptionStale, StaleReason := reason\<rparr>), True)"
    using suspend by (auto simp: live_def)
  then show ?thesis
    by (rule transition_eventI [OF assms(1), rotated 2]) (use suspend in simp_all)
next
  case (reactivate old)
  have "apply_event s (SubscriptionReactivated sample_meta (sub_ID b)) =
          Inr (put_subscription s (sub_ID b) (old\<lparr>sub_Status := SubscriptionActive, StaleReason := []\<rparr>), True)"
    using reactivate by (auto simp: live_def)
  then show ?thesis
    by (rule transition_eventI [OF assms(1), rotated 2]) (use reactivate in simp_all)
next
  case (remove old)
  have "apply_event s (SubscriptionUnsubscribed sample_meta (sub_ID b)) =
          Inr (put_subscription s (sub_ID b) (old\<lparr>sub_Status := SubscriptionRemoved, StaleReason := []\<rparr>), True)"
    using remove by (auto simp: live_def removeSubscription_def)
  then show ?thesis
    by (rule transition_eventI [OF assms(1), rotated 2]) (use remove in simp_all)
qed

lemma transition_event:
  "valid_snapshot s \<Longrightarrow> transition s s' \<Longrightarrow> \<exists>e. Reducer_Apply s (Some e) = Inr (s', True)"
  by (erule transitionE) (auto intro: topic_transition_event subscription_transition_event)

section \<open>Invariants of the hub state\<close>

definition unique_live :: "Snapshot \<Rightarrow> bool" where
  "unique_live s \<longleftrightarrow>
     (\<forall>i j a b. mget (Subscriptions s) i = Some a \<and> mget (Subscriptions s) j = Some b \<and>
        live a \<and> live b \<and> same_target a b \<longrightarrow> i = j)"

definition topics_known :: "Snapshot \<Rightarrow> bool" where
  "topics_known s \<longleftrightarrow>
     (\<forall>k b. mget (Subscriptions s) k = Some b \<longrightarrow>
        (\<exists>t. mget (Topics s) (sub_TopicID b) = Some t \<and> CanonicalURL t = TopicURL b))"

definition hub_invariant :: "Snapshot \<Rightarrow> bool" where
  "hub_invariant s \<longleftrightarrow> valid_snapshot s \<and> unique_live s \<and> topics_known s"

text \<open>There is a revision left; the counter is 64 bits wide.\<close>

abbreviation revision_left :: "Snapshot \<Rightarrow> bool" where
  "revision_left s \<equiv> snap_Revision s \<noteq> - 1"

lemma next_revision: "r \<noteq> - 1 \<Longrightarrow> r < r + (1 :: 64 word)"
  by (metis inc_less_eq_triv_imp not_le)

lemma topic_step_ok:
  assumes "topic_step r before t" "\<And>old. before = Some old \<Longrightarrow> topic_ok q (topic_ID t) old"
  shows "topic_ok r (topic_ID t) t"
  using assms by (cases rule: topic_step.cases) (auto simp: topic_ok_def)

lemma subscription_step_ok:
  assumes "subscription_step s r before b" "\<And>old. before = Some old \<Longrightarrow> subscription_ok q (sub_ID b) old"
  shows "subscription_ok r (sub_ID b) b"
  using assms by (cases rule: subscription_step.cases) (auto simp: subscription_ok_def)

lemma ok_mono:
  "topic_ok q k t \<Longrightarrow> q \<le> r \<Longrightarrow> topic_ok r k t"
  "subscription_ok q k b \<Longrightarrow> q \<le> r \<Longrightarrow> subscription_ok r k b"
  by (auto simp: topic_ok_def subscription_ok_def)

lemma transition_valid:
  assumes "transition s s'" "valid_snapshot s" "revision_left s"
  shows "valid_snapshot s'"
proof -
  have le: "snap_Revision s \<le> snap_Revision s + 1" using next_revision [OF assms(3)] by simp
  from assms(1) show ?thesis
  proof (cases rule: transition.cases)
    case (topic_transition t)
    have "topic_ok (snap_Revision s + 1) (topic_ID t) t"
      by (rule topic_step_ok [OF topic_transition(2)]) (use assms(2) in \<open>auto simp: valid_snapshot_iff range_all_iff\<close>)
    with assms(2) topic_transition(1) show ?thesis
      by (auto simp: valid_snapshot_iff range_all_iff intro: ok_mono [OF _ le])
  next
    case (subscription_transition b)
    have "subscription_ok (snap_Revision s + 1) (sub_ID b) b"
      by (rule subscription_step_ok [OF subscription_transition(2)])
        (use assms(2) in \<open>auto simp: valid_snapshot_iff range_all_iff\<close>)
    with assms(2) subscription_transition(1) show ?thesis
      by (auto simp: valid_snapshot_iff range_all_iff intro: ok_mono [OF _ le])
  qed
qed

lemma transition_unique_live:
  assumes "transition s s'" "unique_live s"
  shows "unique_live s'"
  using assms(1)
proof (cases rule: transition.cases)
  case (topic_transition t)
  with assms(2) show ?thesis by (simp add: unique_live_def)
next
  case (subscription_transition b)
  have target: "k = sub_ID b"
    if "mget (Subscriptions s) k = Some a" "live a" "same_target a b" for k a
    using subscription_transition(2)
  proof (cases "mget (Subscriptions s) (sub_ID b)")
    case None
    with subscription_transition(2) that show ?thesis by (auto elim!: subscription_stepE)
  next
    case (Some old)
    with subscription_transition(2) have "live old" "same_target old b"
      by (auto simp: same_target_def elim!: subscription_stepE)
    with that have "live old \<and> same_target a old" by (simp add: same_target_def)
    with assms(2) that Some show ?thesis unfolding unique_live_def by blast
  qed
  have sym: "same_target b a \<Longrightarrow> same_target a b" for a by (auto simp: same_target_def)
  have subs: "Subscriptions s' = mput (Subscriptions s) (sub_ID b) b" using subscription_transition(1) by simp
  show ?thesis
    unfolding unique_live_def subs mget_mput
  proof (intro allI impI, elim conjE)
    fix i j a c
    assume "(if i = sub_ID b then Some b else mget (Subscriptions s) i) = Some a"
      "(if j = sub_ID b then Some b else mget (Subscriptions s) j) = Some c"
      and *: "live a" "live c" "same_target a c"
    then have "i = sub_ID b \<and> a = b \<or> mget (Subscriptions s) i = Some a"
      "j = sub_ID b \<and> c = b \<or> mget (Subscriptions s) j = Some c"
      by (simp_all split: if_splits)
    moreover have "i = j" if "mget (Subscriptions s) i = Some a" "mget (Subscriptions s) j = Some c"
      "live a" "live c" "same_target a c"
      using that assms(2) unfolding unique_live_def by blast
    ultimately show "i = j" using * target sym by blast
  qed
qed

lemma transition_topics:
  assumes "transition s s'" "mget (Topics s) k = Some t"
  shows "\<exists>t'. mget (Topics s') k = Some t' \<and> CanonicalURL t' = CanonicalURL t \<and>
              topic_ContentType t' = topic_ContentType t"
  using assms(1)
  by (cases rule: transition.cases) (use assms(2) in \<open>auto elim!: topic_stepE\<close>)

lemma transition_topics_known:
  assumes "transition s s'" "topics_known s"
  shows "topics_known s'"
proof -
  have known: "\<exists>t. mget (Topics s') (sub_TopicID b) = Some t \<and> CanonicalURL t = TopicURL b"
    if "mget (Subscriptions s) k = Some b" for k b
    using that assms(2) transition_topics [OF assms(1)] unfolding topics_known_def by metis
  from assms(1) show ?thesis
  proof (cases rule: transition.cases)
    case (topic_transition t)
    with known show ?thesis by (auto simp: topics_known_def)
  next
    case (subscription_transition b)
    have "\<exists>t. mget (Topics s) (sub_TopicID b) = Some t \<and> CanonicalURL t = TopicURL b"
      using subscription_transition(2) assms(2)
      by (cases rule: subscription_step.cases) (auto simp: topics_known_def topic_accepts_def)
    with known subscription_transition(1) show ?thesis by (auto simp: topics_known_def)
  qed
qed

lemma transition_hub_invariant:
  "transition s s' \<Longrightarrow> hub_invariant s \<Longrightarrow> revision_left s \<Longrightarrow> hub_invariant s'"
  by (simp add: hub_invariant_def transition_valid transition_unique_live transition_topics_known)

lemma transition_revision: "transition s s' \<Longrightarrow> snap_Revision s' = snap_Revision s + 1"
  by (auto elim: transitionE)

text \<open>What no later event changes: the identity of a topic and of a subscription, and a removed
  subscription altogether.\<close>

definition topic_persists :: "Topic \<Rightarrow> Topic \<Rightarrow> bool" where
  "topic_persists t t' \<longleftrightarrow> CanonicalURL t' = CanonicalURL t \<and> topic_ContentType t' = topic_ContentType t"

definition identity_of :: "Subscription \<Rightarrow> Subscription" where
  "identity_of b = b\<lparr>sub_Status := [], StaleReason := [], sub_Revision := 0\<rparr>"

definition subscription_persists :: "Subscription \<Rightarrow> Subscription \<Rightarrow> bool" where
  "subscription_persists b b' \<longleftrightarrow> identity_of b' = identity_of b \<and> (live b \<or> b' = b)"

definition persists :: "Snapshot \<Rightarrow> Snapshot \<Rightarrow> bool" where
  "persists s s' \<longleftrightarrow>
     (\<forall>k t. mget (Topics s) k = Some t \<longrightarrow> (\<exists>t'. mget (Topics s') k = Some t' \<and> topic_persists t t')) \<and>
     (\<forall>k b. mget (Subscriptions s) k = Some b \<longrightarrow>
        (\<exists>b'. mget (Subscriptions s') k = Some b' \<and> subscription_persists b b'))"

lemma persists_refl: "persists s s"
  by (simp add: persists_def topic_persists_def subscription_persists_def)

lemma subscription_persists_trans:
  "subscription_persists a b \<Longrightarrow> subscription_persists b c \<Longrightarrow> subscription_persists a c"
  by (auto simp: subscription_persists_def)

lemma topic_persists_trans: "topic_persists a b \<Longrightarrow> topic_persists b c \<Longrightarrow> topic_persists a c"
  by (auto simp: topic_persists_def)

lemma persists_trans: "persists s s' \<Longrightarrow> persists s' s'' \<Longrightarrow> persists s s''"
  unfolding persists_def by (meson subscription_persists_trans topic_persists_trans)

lemma subscription_step_persists: "subscription_step s r (Some b) b' \<Longrightarrow> subscription_persists b b'"
  by (erule subscription_stepE) (simp_all add: subscription_persists_def identity_of_def)

lemma transition_persists:
  assumes "transition s s'"
  shows "persists s s'"
proof -
  have "\<exists>b'. mget (Subscriptions s') k = Some b' \<and> subscription_persists b b'"
    if "mget (Subscriptions s) k = Some b" for k b
    using assms
  proof (cases rule: transition.cases)
    case (subscription_transition b')
    with that subscription_step_persists [of s _ b b'] show ?thesis
      by (cases "k = sub_ID b'") (simp_all add: subscription_persists_def)
  qed (simp add: that subscription_persists_def)
  with transition_topics [OF assms] show ?thesis by (simp add: persists_def topic_persists_def)
qed

section \<open>Repeated events\<close>

lemma apply_again:
  assumes "apply_event s e = Inr (n, True)" "valid_snapshot s"
  shows "apply_event (stampRevision (n\<lparr>snap_Revision := r\<rparr>) e r) e =
           Inr (stampRevision (n\<lparr>snap_Revision := r\<rparr>) e r, False)"
  using assms(1)
  by (cases e)
    (auto simp: removeSubscription_def invalid_transition_def sameTopic_def sameSubscription_def
      verified_value_def time_Equal_def Let_def split: if_splits option.splits sum.splits)

lemma Reducer_Apply_again:
  assumes "Reducer_Apply s (Some e) = Inr (s', c)" "revision_left s"
  shows "Reducer_Apply s' (Some e) = Inr (s', False)"
  using assms(1)
proof (cases rule: Reducer_ApplyE)
  case (changed n)
  then have valid: "valid_snapshot s'"
    using transition_valid [OF Reducer_Apply_transition] assms by simp
  then have "cloneSnapshot s' = s'" by (simp add: valid_snapshot_iff cloneSnapshot_eq)
  with changed valid apply_again [OF changed(4,2)] show ?thesis by (simp add: Reducer_Apply_def)
qed (use assms in simp)

section \<open>The contract of an event reducer\<close>

text \<open>Folding events, stopping at the first error, as the consolidator and the projection do.\<close>

fun fold_events :: "('s \<Rightarrow> 'e \<Rightarrow> ('s \<times> bool) result) \<Rightarrow> 's \<Rightarrow> 'e list \<Rightarrow> 's result" where
  "fold_events f s [] = Inr s"
| "fold_events f s (e # es) =
     (case f s e of Inl err \<Rightarrow> Inl err | Inr (s', _) \<Rightarrow> fold_events f s' es)"

lemma fold_events_append:
  "fold_events f s (xs @ ys) = (case fold_events f s xs of Inl err \<Rightarrow> Inl err | Inr s' \<Rightarrow> fold_events f s' ys)"
  by (induction xs arbitrary: s) (auto split: sum.split prod.split)

lemma fold_events_snoc:
  "fold_events f s xs = Inr s' \<Longrightarrow> f s' e = Inr (s'', c) \<Longrightarrow> fold_events f s (xs @ [e]) = Inr s''"
  by (simp add: fold_events_append)

locale event_reducer =
  fixes step :: "'s \<Rightarrow> 'e \<Rightarrow> ('s \<times> bool) result"
    and inv :: "'s \<Rightarrow> bool"
    and later :: "'s \<Rightarrow> 's \<Rightarrow> bool"
    and count :: "'s \<Rightarrow> nat"
    and limit :: nat
  assumes unchanged: "step s e = Inr (s', False) \<Longrightarrow> s' = s"
    and changed: "inv s \<Longrightarrow> count s < limit \<Longrightarrow> step s e = Inr (s', True) \<Longrightarrow>
                    inv s' \<and> later s s' \<and> count s' = Suc (count s)"
    and again: "inv s \<Longrightarrow> count s < limit \<Longrightarrow> step s e = Inr (s', c) \<Longrightarrow> step s' e = Inr (s', False)"
    and later_refl: "later s s"
    and later_trans: "later s s' \<Longrightarrow> later s' s'' \<Longrightarrow> later s s''"
begin

lemma step_keeps:
  assumes "inv s" "count s < limit" "step s e = Inr (s', c)"
  shows "inv s' \<and> later s s' \<and> count s \<le> count s' \<and> count s' \<le> Suc (count s)"
  using assms changed [of s e s'] unchanged [of s e s'] later_refl by (cases c) auto

lemma fold_keeps:
  assumes "inv s" "count s + length es \<le> limit" "fold_events step s es = Inr s'"
  shows "inv s' \<and> later s s' \<and> count s \<le> count s' \<and> count s' \<le> count s + length es"
  using assms
proof (induction es arbitrary: s)
  case Nil
  then show ?case by (simp add: later_refl)
next
  case (Cons e es)
  then obtain n c where n: "step s e = Inr (n, c)" "fold_events step n es = Inr s'"
    by (auto split: sum.splits)
  with Cons.prems step_keeps [of s e n c] have "inv n" "later s n" "count s \<le> count n" "count n \<le> Suc (count s)"
    by auto
  with Cons.IH [of n] Cons.prems n later_trans [of s n s'] show ?case by auto
qed

lemma fold_replicate:
  assumes "inv s" "count s < limit"
  shows "fold_events step s (replicate (Suc n) e) = fold_events step s [e]"
proof (cases "step s e")
  case (Inr p)
  obtain s' c where p: "step s e = Inr (s', c)" using Inr by (cases p) auto
  have "fold_events step s' (replicate n e) = Inr s'"
    by (induction n) (simp_all add: again [OF assms p])
  with p show ?thesis by simp
qed simp

lemma fold_redelivered:
  assumes "inv s" "count s + length es \<le> limit"
  shows "fold_events step s (concat (map (\<lambda>(e, n). replicate (Suc n) e) es)) = fold_events step s (map fst es)"
  using assms
proof (induction es arbitrary: s)
  case (Cons p es)
  obtain e n where p: "p = (e, n)" by (cases p)
  show ?case
  proof (cases "step s e")
    case (Inr q)
    obtain s' c where q: "step s e = Inr (s', c)" using Inr by (cases q) auto
    with Cons.prems step_keeps [of s e s' c] Cons.IH [of s'] fold_replicate [of s n e] show ?thesis
      by (simp add: p fold_events_append del: replicate_Suc)
  next
    case (Inl err)
    then show ?thesis by (simp add: p)
  qed
qed simp

end

text \<open>The reducer applied to a decoded, hence non-nil, event.\<close>

definition reducer_step :: "Snapshot \<Rightarrow> event \<Rightarrow> (Snapshot \<times> bool) result" where
  "reducer_step s e = Reducer_Apply s (Some e)"

definition revision_count :: "Snapshot \<Rightarrow> nat" where
  "revision_count s = unat (snap_Revision s)"

definition max_revision :: nat where "max_revision = 2 ^ 64 - 1"

lemma revision_count_left: "revision_count s < max_revision \<longleftrightarrow> revision_left s"
proof -
  have "unat (- 1 :: 64 word) = max_revision" by (simp add: max_revision_def unsigned_minus_1_eq_mask mask_eq_exp_minus_1)
  moreover have "unat (snap_Revision s) \<le> max_revision"
    using unsigned_less [of "snap_Revision s", where ?'a = nat] by (simp add: max_revision_def)
  ultimately show ?thesis
    unfolding revision_count_def by (metis le_neq_implies_less less_irrefl word_unat_eq_iff)
qed

lemma revision_count_Suc: "revision_left s \<Longrightarrow> snap_Revision s' = snap_Revision s + 1 \<Longrightarrow> revision_count s' = Suc (revision_count s)"
  unfolding revision_count_def by (metis add.commute add_eq_0_iff unatSuc)

interpretation hub_reducer: event_reducer reducer_step hub_invariant persists revision_count max_revision
proof
  show "s' = s" if "reducer_step s e = Inr (s', False)" for s e s'
    using that unfolding reducer_step_def by (cases rule: Reducer_ApplyE) auto
  show "hub_invariant s' \<and> persists s s' \<and> revision_count s' = Suc (revision_count s)"
    if "hub_invariant s" "revision_count s < max_revision" "reducer_step s e = Inr (s', True)" for s e s'
    using that Reducer_Apply_transition [of s e s'] unfolding reducer_step_def revision_count_left
    by (auto intro: transition_hub_invariant transition_persists revision_count_Suc transition_revision)
  show "reducer_step s' e = Inr (s', False)"
    if "revision_count s < max_revision" "reducer_step s e = Inr (s', c)" for s e s' c
    using that Reducer_Apply_again unfolding reducer_step_def revision_count_left by blast
qed (auto intro: persists_refl persists_trans)

section \<open>Properties of the reducer\<close>

lemma EmptySnapshot_invariant: "hub_invariant EmptySnapshot" "revision_count EmptySnapshot = 0"
  by (simp_all add: hub_invariant_def valid_snapshot_iff range_all_iff EmptySnapshot_def mget_Some
      unique_live_def topics_known_def revision_count_def)

text \<open>A hub with one topic and one subscription, for the witnesses.\<close>

definition sample_topic :: Topic where
  "sample_topic = \<lparr>topic_ID = ''t'', CanonicalURL = ''https://hub/t'', ContentDestination = ''d'',
     topic_ContentType = ''application/json'', topic_Status = TopicActive,
     RegisteredAt = \<lparr>tm_ns = 1, tm_loc = UTC\<rparr>, RegisteredBy = ''p'', topic_Revision = 1\<rparr>"

definition sample_subscription :: Subscription where
  "sample_subscription =
     \<lparr>sub_ID = ''s'', sub_TopicID = ''t'', TopicURL = ''https://hub/t'', CallbackURL = ''https://cb'',
      SecretCiphertext = [], SecretKeyID = [], LeaseStartedAt = \<lparr>tm_ns = 1, tm_loc = UTC\<rparr>,
      EffectiveLeaseSeconds = [], sub_ServerID = ''h'', sub_ConsumerID = ''c'', Parameters = None,
      sub_Status = SubscriptionActive, StaleReason = [], sub_Revision = 2\<rparr>"

definition sample_registered :: Snapshot where
  "sample_registered = \<lparr>snap_SchemaVersion = SchemaVersion, snap_Revision = 1,
     Topics = Some (fmupd ''t'' sample_topic fmempty), Subscriptions = Some fmempty\<rparr>"

definition sample_verified :: Snapshot where
  "sample_verified = \<lparr>snap_SchemaVersion = SchemaVersion, snap_Revision = 2,
     Topics = Some (fmupd ''t'' sample_topic fmempty),
     Subscriptions = Some (fmupd ''s'' sample_subscription fmempty)\<rparr>"

lemma canonical_json: "canonical_content_type ''application/json''"
  by code_simp

lemma NewSubscriptionOptions_None: "NewSubscriptionOptions None = Inr (options_copy None)"
  by (rule NewSubscriptionOptions_bounded) code_simp

lemma sample_invariant: "hub_invariant sample_registered" "hub_invariant sample_verified"
  by (auto simp: hub_invariant_def valid_snapshot_iff range_all_iff mget_Some unique_live_def
      topics_known_def topic_ok_def subscription_ok_def options_ok_def NewSubscriptionOptions_None
      canonical_json sample_registered_def sample_verified_def sample_topic_def sample_subscription_def
      split: if_splits)

lemmas valid_sample = EmptySnapshot_invariant(1) [unfolded hub_invariant_def, THEN conjunct1]
  sample_invariant [unfolded hub_invariant_def, THEN conjunct1]

lemma sample_register:
  "reducer_step EmptySnapshot (TopicRegistered sample_meta sample_topic) = Inr (sample_registered, True)"
proof -
  have "apply_event EmptySnapshot (TopicRegistered sample_meta sample_topic) =
          Inr (put_topic EmptySnapshot ''t'' (sample_topic\<lparr>topic_Revision := 0\<rparr>), True)"
    by (simp add: sample_topic_def EmptySnapshot_def mget_Some time_IsZero_def canonical_json)
  moreover have "validateEvent (Some (TopicRegistered sample_meta sample_topic)) = None"
    by (rule validateEvent_sample) (auto simp: sample_topic_def canonical_json)
  ultimately show ?thesis
    using Reducer_ApplyI [OF valid_sample(1)]
    by (simp add: reducer_step_def sample_topic_def stamp_topic_def put_topic_def mput_def mget_Some EmptySnapshot_def sample_registered_def)
qed

lemma sample_verify:
  "reducer_step sample_registered (SubscriptionVerified sample_meta sample_subscription) =
     Inr (sample_verified, True)"
proof -
  have "apply_event sample_registered (SubscriptionVerified sample_meta sample_subscription) =
          Inr (put_subscription sample_registered ''s'' (sample_subscription\<lparr>sub_Revision := 0\<rparr>), True)"
    by (simp add: sample_subscription_def sample_registered_def sample_topic_def mget_Some
        time_IsZero_def NewSubscriptionOptions_None verified_value_def range_any_iff Let_def)
  moreover have "validateEvent (Some (SubscriptionVerified sample_meta sample_subscription)) = None"
    by (rule validateEvent_sample) simp_all
  ultimately show ?thesis
    using Reducer_ApplyI [OF valid_sample(2)]
    by (simp add: reducer_step_def sample_subscription_def stamp_subscription_def put_subscription_def mput_def mget_Some sample_registered_def sample_verified_def)
qed

text \<open>(C16) Refinement: from a valid snapshot the changes \<open>Reducer.Apply\<close> can make are exactly the
  steps of the topic and subscription life cycles, each at the next revision.\<close>

theorem Reducer_refines_lifecycle:
  assumes "valid_snapshot s"
  shows "(\<exists>e. Reducer_Apply s (Some e) = Inr (s', True)) \<longleftrightarrow> transition s s'"
  using assms Reducer_Apply_transition transition_event by blast

theorem Reducer_refines_lifecycle_witness:
  "(\<exists>e. Reducer_Apply sample_registered (Some e) = Inr (sample_verified, True)) \<and>
   transition sample_registered sample_verified"
  using Reducer_refines_lifecycle [OF valid_sample(2), of sample_verified] sample_verify
  unfolding reducer_step_def by blast

text \<open>(C1) In every state the hub reaches from the empty snapshot by fewer than 2^64 events, the
  snapshot is valid, no two live subscriptions share topic and callback, every subscription's topic
  is known under its URL, and the revision is at most the number of events.\<close>

theorem reachable_invariant:
  assumes "fold_events reducer_step EmptySnapshot es = Inr s" "length es < 2 ^ 64"
  shows "valid_snapshot s \<and> unique_live s \<and> topics_known s \<and> unat (snap_Revision s) \<le> length es"
  using hub_reducer.fold_keeps [OF EmptySnapshot_invariant(1) _ assms(1)] assms(2) EmptySnapshot_invariant(2)
  by (auto simp: hub_invariant_def revision_count_def max_revision_def)

theorem reachable_invariant_witness:
  "unique_live sample_verified \<and> topics_known sample_verified \<and> unat (snap_Revision sample_verified) \<le> 2"
  using reachable_invariant [of "[TopicRegistered sample_meta sample_topic,
      SubscriptionVerified sample_meta sample_subscription]" sample_verified]
  by (simp add: sample_register sample_verify)

text \<open>(C22) Topics are never forgotten and keep their URL and content type, subscriptions are never
  forgotten and keep everything but status, stale reason and revision, and a removed subscription
  never changes again, whatever events follow.\<close>

theorem history_persists:
  assumes "hub_invariant s" "fold_events reducer_step s es = Inr s'"
    "unat (snap_Revision s) + length es < 2 ^ 64"
  shows "persists s s'"
  using hub_reducer.fold_keeps [OF assms(1) _ assms(2)] assms(3)
  by (auto simp: revision_count_def max_revision_def)

theorem history_persists_witness: "persists sample_registered sample_verified"
  using history_persists [OF sample_invariant(1),
      of "[SubscriptionVerified sample_meta sample_subscription]" sample_verified]
  by (simp add: sample_verify sample_registered_def [THEN arg_cong [where f = snap_Revision]])

text \<open>(C9) Redelivery is harmless: if each event of a log is delivered one or more times before the
  next one, the resulting state, or error, is that of the log itself.\<close>

theorem redelivery_harmless:
  assumes "hub_invariant s" "unat (snap_Revision s) + length es < 2 ^ 64"
  shows "fold_events reducer_step s (concat (map (\<lambda>(e, n). replicate (Suc n) e) es)) =
         fold_events reducer_step s (map fst es)"
  using hub_reducer.fold_redelivered [OF assms(1)] assms(2)
  by (simp add: revision_count_def max_revision_def)

theorem redelivery_harmless_witness:
  "fold_events reducer_step sample_registered
     [SubscriptionVerified sample_meta sample_subscription, SubscriptionVerified sample_meta sample_subscription]
   = Inr sample_verified"
  using redelivery_harmless [OF sample_invariant(1), of "[(SubscriptionVerified sample_meta sample_subscription, 1)]"]
  by (simp add: sample_verify sample_registered_def [THEN arg_cong [where f = snap_Revision]])

text \<open>The topic, or the subscription, an event addresses.\<close>

fun event_topic :: "event \<Rightarrow> string option" where
  "event_topic (TopicRegistered _ t) = Some (topic_ID t)"
| "event_topic (TopicDeregistered _ k) = Some k"
| "event_topic _ = None"

fun event_subscription :: "event \<Rightarrow> string option" where
  "event_subscription (SubscriptionVerified _ b) = Some (sub_ID b)"
| "event_subscription (SubscriptionUnsubscribed _ k) = Some k"
| "event_subscription (SubscriptionStaleEvent _ k _) = Some k"
| "event_subscription (SubscriptionReactivated _ k) = Some k"
| "event_subscription (SubscriptionRemovedEvent _ k _) = Some k"
| "event_subscription _ = None"

lemma apply_event_shape:
  assumes "apply_event s e = Inr (n, True)"
  shows "(\<exists>k t. event_topic e = Some k \<and> event_subscription e = None \<and> n = put_topic s k t) \<or>
         (\<exists>k b. event_subscription e = Some k \<and> event_topic e = None \<and> n = put_subscription s k b)"
  using assms
  by (cases e) (auto simp: removeSubscription_def invalid_transition_def verified_value_def Let_def
      split: if_splits option.splits sum.splits)

lemma stampRevision_shape:
  "event_topic e = Some k \<Longrightarrow> stampRevision s e r = stamp_topic s k r"
  "event_subscription e = Some k \<Longrightarrow> stampRevision s e r = stamp_subscription s k r"
  by (cases e; simp)+

text \<open>An event that changes the state raises the revision by one, stamps the entity it addresses
  with the new revision and leaves every other topic and subscription as it was.\<close>

theorem change_is_local:
  assumes "Reducer_Apply s (Some e) = Inr (s', True)"
  shows "snap_Revision s' = snap_Revision s + 1 \<and>
     (\<forall>k. if event_topic e = Some k
          then \<exists>t. mget (Topics s') k = Some t \<and> topic_Revision t = snap_Revision s'
          else mget (Topics s') k = mget (Topics s) k) \<and>
     (\<forall>k. if event_subscription e = Some k
          then \<exists>b. mget (Subscriptions s') k = Some b \<and> sub_Revision b = snap_Revision s'
          else mget (Subscriptions s') k = mget (Subscriptions s) k)"
  using assms
proof (cases rule: Reducer_ApplyE)
  case (changed n)
  from apply_event_shape [OF changed(4)] show ?thesis
    using changed(5) by (auto simp: stampRevision_shape)
qed simp

theorem change_is_local_witness: "snap_Revision sample_verified = snap_Revision sample_registered + 1"
  using change_is_local [OF sample_verify [unfolded reducer_step_def]] by blast

text \<open>Applied to a valid snapshot and a valid event, the reducer fails only with an invalid
  transition.\<close>

theorem rejection_is_invalid_transition:
  assumes "valid_snapshot s" "validateEvent (Some e) = None" "Reducer_Apply s (Some e) = Inl err"
  shows "errors_is err ErrInvalidTransition"
proof -
  have "cloneSnapshot s = s" using assms(1) by (simp add: valid_snapshot_iff cloneSnapshot_eq)
  then have "apply_event s e = Inl err"
    using assms by (auto simp: Reducer_Apply_def Let_def split: sum.splits prod.splits if_splits)
  then show ?thesis
    by (cases e) (auto simp: removeSubscription_def invalid_transition_def Let_def
        split: if_splits option.splits sum.splits)
qed

theorem rejection_is_invalid_transition_witness:
  "\<exists>err. Reducer_Apply EmptySnapshot (Some (TopicDeregistered sample_meta ''t'')) = Inl err \<and>
     errors_is err ErrInvalidTransition"
proof -
  have valid: "validateEvent (Some (TopicDeregistered sample_meta ''t'')) = None"
    by (rule validateEvent_sample) simp_all
  obtain err where "Reducer_Apply EmptySnapshot (Some (TopicDeregistered sample_meta ''t'')) = Inl err"
    using valid valid_sample(1)
    by (simp add: Reducer_Apply_def cloneSnapshot_def EmptySnapshot_def mget_Some invalid_transition_def)
  with rejection_is_invalid_transition [OF valid_sample(1) valid] show ?thesis by blast
qed

end
