(* ===== verification/Consumer_Contract.thy ===== *)
theory Consumer_Contract
  imports Contracts "HOL-Library.Sublist"
begin

text \<open>
  The contract of the \<open>Consumer\<close> interface of \<open>messagestore/contracts.go\<close>: a consumer
  shows an ordered queue of messages that are not yet acknowledged, hands them out in that order,
  settles only the first one and hands out again whatever was negatively acknowledged. The
  in-memory store and the Kafka consumer are both shown to satisfy it. Every operation takes what
  its environment answers as a first argument.
\<close>

type_synonym ('e, 'c) receive_op = "'e \<Rightarrow> int \<Rightarrow> 'c \<Rightarrow> 'c \<times> ReceiveBatch result"
type_synonym ('e, 'c) ack_op = "'e \<Rightarrow> Receipt \<Rightarrow> 'c \<Rightarrow> 'c \<times> goerr option"
type_synonym ('e, 'c) nack_op = "'e \<Rightarrow> Receipt \<Rightarrow> duration \<Rightarrow> 'c \<Rightarrow> 'c \<times> goerr option"

datatype 'e request =
    ReceiveRequest 'e int
  | AckRequest 'e Receipt
  | NackRequest 'e Receipt duration

text \<open>A client that settles only receipts it was given: the consumer afterwards, the receipts it has
  seen and the receipts it acknowledged, in order.\<close>

fun run_requests ::
  "('e, 'c) receive_op \<Rightarrow> ('e, 'c) ack_op \<Rightarrow> ('e, 'c) nack_op \<Rightarrow> 'c \<Rightarrow> Receipt list \<Rightarrow> 'e request list \<Rightarrow>
   'c \<times> Receipt list \<times> Receipt list" where
  "run_requests receive ack nack c seen [] = (c, seen, [])"
| "run_requests receive ack nack c seen (ReceiveRequest e n # rs) =
     (case receive e n c of
        (c', Inl _) \<Rightarrow> run_requests receive ack nack c' seen rs
      | (c', Inr b) \<Rightarrow> run_requests receive ack nack c' (seen @ map rcv_Receipt (Messages b)) rs)"
| "run_requests receive ack nack c seen (AckRequest e r # rs) =
     (if r \<in> set seen
      then case ack e r c of
          (c', Some _) \<Rightarrow> run_requests receive ack nack c' seen rs
        | (c', None) \<Rightarrow>
            (case run_requests receive ack nack c' seen rs of (c'', seen', acked) \<Rightarrow> (c'', seen', r # acked))
      else run_requests receive ack nack c seen rs)"
| "run_requests receive ack nack c seen (NackRequest e r d # rs) =
     (if r \<in> set seen then run_requests receive ack nack (fst (nack e r d c)) seen rs
      else run_requests receive ack nack c seen rs)"

locale message_consumer =
  fixes inv :: "'c \<Rightarrow> bool"
    and pend :: "'c \<Rightarrow> ReceivedMessage list"
    and cursor :: "'c \<Rightarrow> nat"
    and known :: "'c \<Rightarrow> Receipt \<Rightarrow> bool"
    and receive :: "('e, 'c) receive_op"
    and ack :: "('e, 'c) ack_op"
    and nack :: "('e, 'c) nack_op"
  assumes receive_keeps: "inv c \<Longrightarrow> receive e n c = (c', res) \<Longrightarrow>
            inv c' \<and> prefix (pend c) (pend c') \<and> (\<forall>r. known c r \<longrightarrow> known c' r)"
    and receive_batch: "inv c \<Longrightarrow> receive e n c = (c', Inr b) \<Longrightarrow>
            1 \<le> n \<and> Messages b = take (nat n) (drop (cursor c) (pend c')) \<and>
            (\<forall>m\<in>set (Messages b). known c' (rcv_Receipt m))"
    and ack_keeps: "inv c \<Longrightarrow> known c r \<Longrightarrow> ack e r c = (c', out) \<Longrightarrow>
            inv c' \<and> (\<forall>r'. known c r' \<longrightarrow> known c' r')"
    and ack_first: "inv c \<Longrightarrow> known c r \<Longrightarrow> ack e r c = (c', None) \<Longrightarrow>
            \<exists>m. pend c = m # pend c' \<and> rcv_Receipt m = r"
    and ack_failed: "inv c \<Longrightarrow> known c r \<Longrightarrow> ack e r c = (c', Some err) \<Longrightarrow> pend c' = pend c"
    and nack_keeps: "inv c \<Longrightarrow> known c r \<Longrightarrow> nack e r d c = (c', out) \<Longrightarrow>
            inv c' \<and> pend c' = pend c \<and> (\<forall>r'. known c r' \<longrightarrow> known c' r')"
    and nack_rewinds: "inv c \<Longrightarrow> known c r \<Longrightarrow> nack e r d c = (c', None) \<Longrightarrow>
            cursor c' = 0 \<and> (\<exists>m ms. pend c = m # ms \<and> rcv_Receipt m = r)"
begin

lemma nack_redelivers:
  assumes "inv c" "known c r" "nack e r d c = (c', None)" "receive e' n c' = (c'', Inr b)"
  shows "\<exists>m ms. Messages b = m # ms \<and> rcv_Receipt m = r \<and> m = hd (pend c)"
proof -
  obtain m ms where m: "pend c = m # ms" "rcv_Receipt m = r" "cursor c' = 0"
    using nack_rewinds assms by blast
  have "inv c'" "pend c' = pend c" using nack_keeps assms by blast+
  with assms(4) have "prefix (m # ms) (pend c'')" "1 \<le> n" "Messages b = take (nat n) (pend c'')"
    using receive_keeps [of c'] receive_batch [of c'] m by auto
  then show ?thesis using m by (cases "nat n") (auto simp: prefix_def)
qed

lemma run_in_order:
  assumes "inv c" "\<And>r. r \<in> set seen \<Longrightarrow> known c r"
    "run_requests receive ack nack c seen rs = (c', seen', acked)"
  shows "inv c' \<and> prefix (map rcv_Receipt (pend c)) (acked @ map rcv_Receipt (pend c'))"
  using assms
proof (induction rs arbitrary: c seen acked)
  case (Cons q rs)
  show ?case
  proof (cases q)
    case (ReceiveRequest e n)
    obtain n1 res where res: "receive e n c = (n1, res)" by fastforce
    define seen1 where "seen1 = (case res of Inl _ \<Rightarrow> seen | Inr b \<Rightarrow> seen @ map rcv_Receipt (Messages b))"
    have "inv n1" "prefix (pend c) (pend n1)" "\<And>r. r \<in> set seen1 \<Longrightarrow> known n1 r"
      using receive_keeps [OF Cons.prems(1) res] receive_batch [OF Cons.prems(1)] res Cons.prems(2)
      by (auto simp: seen1_def split: sum.splits)
    moreover have "run_requests receive ack nack n1 seen1 rs = (c', seen', acked)"
      using Cons.prems(3) by (auto simp: ReceiveRequest res seen1_def split: sum.splits)
    ultimately show ?thesis
      using Cons.IH [of n1 seen1 acked] by (meson map_mono_prefix prefix_order.trans)
  next
    case (AckRequest e r)
    show ?thesis
    proof (cases "r \<in> set seen")
      case True
      obtain n1 res where res: "ack e r c = (n1, res)" by fastforce
      have n1: "inv n1" "\<And>r. r \<in> set seen \<Longrightarrow> known n1 r"
        using ack_keeps [OF Cons.prems(1) _ res] Cons.prems(2) True by blast+
      show ?thesis
      proof (cases res)
        case None
        then obtain rest where rest: "run_requests receive ack nack n1 seen rs = (c', seen', rest)" "acked = r # rest"
          using Cons.prems(3) True by (auto simp: AckRequest res split: prod.splits)
        from ack_first [OF Cons.prems(1) _ res [unfolded None]] True Cons.prems(2)
        obtain m where "pend c = m # pend n1" "rcv_Receipt m = r" by blast
        with Cons.IH [OF n1 rest(1)] rest(2) show ?thesis by simp
      next
        case (Some err)
        with Cons.prems(3) True have "run_requests receive ack nack n1 seen rs = (c', seen', acked)"
          by (simp add: AckRequest res)
        with Cons.IH [OF n1] ack_failed [OF Cons.prems(1) _ res [unfolded Some]] True Cons.prems(2)
        show ?thesis by auto
      qed
    qed (use Cons AckRequest in auto)
  next
    case (NackRequest e r d)
    show ?thesis
    proof (cases "r \<in> set seen")
      case True
      obtain n1 res where res: "nack e r d c = (n1, res)" by fastforce
      have n1: "inv n1" "pend n1 = pend c" "\<And>r. r \<in> set seen \<Longrightarrow> known n1 r"
        using nack_keeps [OF Cons.prems(1) _ res] Cons.prems(2) True by blast+
      with Cons.IH [of n1 seen] Cons.prems(3) True show ?thesis by (simp add: NackRequest res)
    qed (use Cons NackRequest in auto)
  qed
qed simp

end

end
