(* ===== verification/Capabilities.thy ===== *)
theory Capabilities
  imports Contracts
begin

text \<open>
  Provider capabilities, \<open>messagestore/capabilities.go\<close>: every provider declares the support
  level of each capability, and a composition root requires some of them.
\<close>

type_synonym Support = string
type_synonym Capability = string

abbreviation Native :: Support where "Native \<equiv> ''native''"
abbreviation Emulated :: Support where "Emulated \<equiv> ''product-emulated''"
abbreviation Restricted :: Support where "Restricted \<equiv> ''restricted''"
abbreviation Unsupported :: Support where "Unsupported \<equiv> ''unsupported''"

definition allCapabilities :: "Capability list" where
  "allCapabilities =
     [''durable_publish'', ''ordering'', ''durable_subscription'', ''acknowledgement'', ''replay'',
      ''retention'', ''dead_lettering'', ''delayed_delivery'', ''transactions'', ''provisioning'',
      ''consumer_scaling'']"

record CapabilityStatus =
  cs_Support :: Support
  cs_Detail :: string

record Capabilities =
  Provider :: string
  Statuses :: "CapabilityStatus gomap"

definition validSupport :: "Support \<Rightarrow> bool" where
  "validSupport s = (s = Native \<or> s = Emulated \<or> s = Restricted \<or> s = Unsupported)"

definition knownCapability :: "Capability \<Rightarrow> bool" where
  "knownCapability candidate = list_ex (\<lambda>capability. candidate = capability) allCapabilities"

fun validate_declared :: "CapabilityStatus gomap \<Rightarrow> Capability list \<Rightarrow> goerr option" where
  "validate_declared statuses [] = None"
| "validate_declared statuses (capability # rest) =
     (case mget statuses capability of
        None \<Rightarrow> Some (Error ''capability is not declared'')
      | Some status \<Rightarrow>
          if \<not> validSupport (cs_Support status) then Some (Error ''capability has invalid support'')
          else if (cs_Support status = Restricted \<or> cs_Support status = Unsupported) \<and> cs_Detail status = []
          then Some (Error ''capability requires a restriction detail'')
          else validate_declared statuses rest)"

definition capabilities_Validate :: "Capabilities \<Rightarrow> goerr option" where
  "capabilities_Validate c =
     (if Provider c = [] then Some (Error ''provider is required'')
      else case validate_declared (Statuses c) allCapabilities of
          Some e \<Rightarrow> Some e
        | None \<Rightarrow>
            range_first (\<lambda>capability _. if \<not> knownCapability capability then Some (Error ''unknown capability'') else None)
              (Statuses c))"

text \<open>The capabilities a requirement misses.\<close>

definition missing_capabilities :: "Capabilities \<Rightarrow> Capability list \<Rightarrow> Capability list" where
  "missing_capabilities c required =
     filter (\<lambda>capability. case mget (Statuses c) capability of
        None \<Rightarrow> True
      | Some status \<Rightarrow> cs_Support status = Unsupported \<or> cs_Support status = Restricted) required"

definition capabilities_Require :: "Capabilities \<Rightarrow> Capability list \<Rightarrow> goerr option" where
  "capabilities_Require c required =
     (case capabilities_Validate c of
        Some e \<Rightarrow> Some e
      | None \<Rightarrow>
          if missing_capabilities c required = [] then None
          else Some (Error ''provider cannot satisfy required capabilities''))"

text \<open>A status that is complete, and one that fully supports its capability.\<close>

definition supported :: "CapabilityStatus \<Rightarrow> bool" where
  "supported st \<longleftrightarrow> cs_Support st \<in> {Native, Emulated}"

definition explained :: "CapabilityStatus \<Rightarrow> bool" where
  "explained st \<longleftrightarrow> cs_Support st \<in> {Restricted, Unsupported} \<and> cs_Detail st \<noteq> []"

lemma validate_declared_None:
  "validate_declared statuses cs = None \<longleftrightarrow>
     (\<forall>c\<in>set cs. \<exists>st. mget statuses c = Some st \<and> (supported st \<or> explained st))"
  by (induction cs) (auto simp: validSupport_def supported_def explained_def split: option.splits)

lemma missing_capabilities_Nil:
  assumes "\<And>k st. mget (Statuses c) k = Some st \<Longrightarrow> supported st \<or> explained st"
  shows "missing_capabilities c required = [] \<longleftrightarrow>
     (\<forall>k\<in>set required. \<exists>st. mget (Statuses c) k = Some st \<and> supported st)"
proof -
  have "(case mget (Statuses c) k of None \<Rightarrow> True
      | Some status \<Rightarrow> cs_Support status = Unsupported \<or> cs_Support status = Restricted) \<longleftrightarrow>
      \<not> (\<exists>st. mget (Statuses c) k = Some st \<and> supported st)" for k
    using assms [of k] by (auto simp: supported_def explained_def split: option.splits)
  then show ?thesis by (simp add: missing_capabilities_def filter_empty_conv)
qed

lemma declared_iff:
  "(\<forall>k\<in>A. \<exists>st. mget m k = Some st \<and> P st) \<and> (\<forall>k. mget m k \<noteq> None \<longrightarrow> k \<in> A) \<longleftrightarrow>
   {k. mget m k \<noteq> None} = A \<and> (\<forall>k st. mget m k = Some st \<longrightarrow> P st)"
  by fastforce

lemma capabilities_Require_None:
  "capabilities_Require c required = None \<longleftrightarrow>
     Provider c \<noteq> [] \<and>
     {k. mget (Statuses c) k \<noteq> None} = set allCapabilities \<and>
     (\<forall>k st. mget (Statuses c) k = Some st \<longrightarrow> supported st \<or> explained st) \<and>
     (\<forall>k\<in>set required. \<exists>st. mget (Statuses c) k = Some st \<and> supported st)"
proof -
  have "capabilities_Validate c = None \<longleftrightarrow>
      Provider c \<noteq> [] \<and> validate_declared (Statuses c) allCapabilities = None \<and>
      (\<forall>k. mget (Statuses c) k \<noteq> None \<longrightarrow> k \<in> set allCapabilities)"
    by (auto simp: capabilities_Validate_def range_first_None range_all_iff knownCapability_def list_ex_iff
        split: option.splits if_splits)
  also have "\<dots> \<longleftrightarrow> Provider c \<noteq> [] \<and> {k. mget (Statuses c) k \<noteq> None} = set allCapabilities \<and>
      (\<forall>k st. mget (Statuses c) k = Some st \<longrightarrow> supported st \<or> explained st)"
    unfolding validate_declared_None declared_iff by (rule refl)
  finally have valid: "capabilities_Validate c = None \<longleftrightarrow> Provider c \<noteq> [] \<and>
      {k. mget (Statuses c) k \<noteq> None} = set allCapabilities \<and>
      (\<forall>k st. mget (Statuses c) k = Some st \<longrightarrow> supported st \<or> explained st)" .
  show ?thesis
  proof (cases "capabilities_Validate c")
    case None
    with valid missing_capabilities_Nil [of c required] show ?thesis
      by (simp add: capabilities_Require_def)
  next
    case (Some e)
    with valid show ?thesis by (auto simp: capabilities_Require_def)
  qed
qed

text \<open>A requirement passes exactly when the provider is named, every capability it declares is
  one of the eleven, all eleven are declared, explained where restricted, and each required one is
  fully supported, natively or by emulation.\<close>

theorem Require_satisfied:
  "capabilities_Require c required = None \<longleftrightarrow>
     Provider c \<noteq> [] \<and>
     {k. mget (Statuses c) k \<noteq> None} = set allCapabilities \<and>
     (\<forall>k st. mget (Statuses c) k = Some st \<longrightarrow> supported st \<or> explained st) \<and>
     (\<forall>k\<in>set required. \<exists>st. mget (Statuses c) k = Some st \<and> supported st)"
  by (rule capabilities_Require_None)

end
