(* ===== verification/Memory_Store.thy ===== *)
theory Memory_Store
  imports Consumer_Contract Capabilities
begin

text \<open>
  The in-process message store of \<open>messagestore/messagestoretest/memory.go\<close>, and that its
  consumer satisfies the consumer contract. A \<open>panic\<close> is an error value.
\<close>

section \<open>The store\<close>

record Store =
  store_messages :: "Message list gomap"
  store_progress :: "int gomap"
  store_capabilities :: Capabilities

record memory_consumer =
  mc_metadata :: ConsumerMetadata
  mc_key :: string
  mc_observed :: int
  mc_closed :: bool

definition memory_New :: "Capabilities \<Rightarrow> Store" where
  "memory_New caps =
     \<lparr>store_messages = Some fmempty, store_progress = Some fmempty, store_capabilities = caps\<rparr>"

text \<open>Reading the maps at an absent key gives the zero value.\<close>

definition stored :: "Store \<Rightarrow> Destination \<Rightarrow> Message list" where
  "stored s d = (case mget (store_messages s) d of None \<Rightarrow> [] | Some ms \<Rightarrow> ms)"

definition position_of :: "Store \<Rightarrow> string \<Rightarrow> int" where
  "position_of s k = (case mget (store_progress s) k of None \<Rightarrow> 0 | Some p \<Rightarrow> p)"

definition memory_Send :: "Store \<Rightarrow> Destination \<Rightarrow> Message \<Rightarrow> Store" where
  "memory_Send s d m = s\<lparr>store_messages := mput (store_messages s) d (stored s d @ [m])\<rparr>"

definition memory_EnsureDestination :: "Store \<Rightarrow> DestinationSpec \<Rightarrow> Store \<times> goerr option" where
  "memory_EnsureDestination s spec =
     (if dst_Name spec = [] then (s, Some (Error ''destination is required''))
      else case mget (store_messages s) (dst_Name spec) of
          None \<Rightarrow> (s\<lparr>store_messages := mput (store_messages s) (dst_Name spec) []\<rparr>, None)
        | Some _ \<Rightarrow> (s, None))"

definition memory_ValidateSubscription :: "SubscriptionOptions \<Rightarrow> goerr option" where
  "memory_ValidateSubscription options =
     (case NewSubscriptionOptions (opt_Parameters options) of Inl e \<Rightarrow> Some e | Inr _ \<Rightarrow> None)"

definition memory_OpenConsumer :: "Store \<Rightarrow> ConsumerSpec \<Rightarrow> Store \<times> memory_consumer result" where
  "memory_OpenConsumer s spec =
     (if spec_ID spec = [] \<or> spec_Destination spec = []
      then (s, Inl (Error ''consumer ID and destination are required''))
      else let key = spec_Destination spec @ [CHR 0x00] @ spec_ID spec;
               s' = (if mget (store_progress s) key = None \<and> spec_StartPosition spec = StartLatest
                     then s\<lparr>store_progress := mput (store_progress s) key (int (length (stored s (spec_Destination spec))))\<rparr>
                     else s)
           in (s', Inr \<lparr>mc_metadata = \<lparr>meta_ID = spec_ID spec, meta_Destination = spec_Destination spec,
                          meta_StartPosition = spec_StartPosition spec\<rparr>,
                        mc_key = key, mc_observed = position_of s' key, mc_closed = False\<rparr>))"

section \<open>The consumer\<close>

type_synonym memory = "Store \<times> memory_consumer"

abbreviation available :: "memory \<Rightarrow> Message list" where
  "available x \<equiv> stored (fst x) (meta_Destination (mc_metadata (snd x)))"

abbreviation position :: "memory \<Rightarrow> int" where
  "position x \<equiv> position_of (fst x) (mc_key (snd x))"

definition received :: "memory \<Rightarrow> nat \<Rightarrow> ReceivedMessage" where
  "received x i = \<lparr>rcv_Message = available x ! i,
     rcv_Receipt = \<lparr>rcpt_Consumer = meta_ID (mc_metadata (snd x)), rcpt_Value = Itoa i\<rparr>\<rparr>"

definition memory_Receive :: "unit \<Rightarrow> int \<Rightarrow> memory \<Rightarrow> memory \<times> ReceiveBatch result" where
  "memory_Receive _ max1 x =
     (if mc_closed (snd x) then (x, Inl ErrClosed)
      else if max1 < 1 then (x, Inl (Error ''max must be positive''))
      else let last1 = min (position x + max1) (int (length (available x)));
               x' = (fst x, (snd x)\<lparr>mc_observed := last1\<rparr>)
           in if last1 < position x then (x', Inl (Error ''panic: makeslice: cap out of range''))
              else (x', Inr \<lparr>Messages = map (received x) [nat (position x) ..< nat last1],
                             CaughtUp = (last1 = int (length (available x)))\<rparr>))"

definition memory_CaughtUp :: "memory \<Rightarrow> bool result" where
  "memory_CaughtUp x =
     (if mc_closed (snd x) then Inl ErrClosed
      else Inr (int (length (available x)) \<le> mc_observed (snd x)))"

definition memory_Ack :: "unit \<Rightarrow> Receipt \<Rightarrow> memory \<Rightarrow> memory \<times> goerr option" where
  "memory_Ack _ receipt x =
     (if mc_closed (snd x) then (x, Some ErrClosed)
      else case ParseInt 64 (rcpt_Value receipt) of
          None \<Rightarrow> (x, Some (Error ''invalid receipt''))
        | Some i \<Rightarrow>
            if rcpt_Consumer receipt \<noteq> meta_ID (mc_metadata (snd x)) then (x, Some (Error ''invalid receipt''))
            else if i \<noteq> position x then (x, Some ErrOutOfOrder)
            else (((fst x)\<lparr>store_progress := mput (store_progress (fst x)) (mc_key (snd x)) (position x + 1)\<rparr>, snd x), None))"

definition memory_Nack :: "unit \<Rightarrow> Receipt \<Rightarrow> duration \<Rightarrow> memory \<Rightarrow> memory \<times> goerr option" where
  "memory_Nack _ receipt _ x =
     (if mc_closed (snd x) then (x, Some ErrClosed)
      else case ParseInt 64 (rcpt_Value receipt) of
          None \<Rightarrow> (x, Some ErrOutOfOrder)
        | Some i \<Rightarrow> if i \<noteq> position x then (x, Some ErrOutOfOrder) else (x, None))"

definition memory_DeadLetter :: "Receipt \<Rightarrow> DeadLetter \<Rightarrow> memory \<Rightarrow> memory \<times> goerr option" where
  "memory_DeadLetter receipt letter x =
     memory_Ack () receipt (memory_Send (fst x) (dl_Destination letter) (dl_Message letter), snd x)"

definition memory_Reconnect :: "memory \<Rightarrow> memory" where
  "memory_Reconnect x = (fst x, (snd x)\<lparr>mc_closed := False, mc_observed := position x\<rparr>)"

definition memory_Close :: "ClosureIntent \<Rightarrow> memory \<Rightarrow> memory" where
  "memory_Close intent x =
     ((if intent = ClosePermanent
       then (fst x)\<lparr>store_progress := Some (fmdrop (mc_key (snd x)) (entries (store_progress (fst x))))\<rparr>
       else fst x),
      (snd x)\<lparr>mc_closed := True\<rparr>)"

section \<open>The consumer contract\<close>

definition memory_inv :: "memory \<Rightarrow> bool" where
  "memory_inv x \<longleftrightarrow>
     0 \<le> position x \<and> position x \<le> int (length (available x)) \<and> length (available x) < 2 ^ 63"

definition memory_pend :: "memory \<Rightarrow> ReceivedMessage list" where
  "memory_pend x = map (received x) [nat (position x) ..< length (available x)]"

definition memory_known :: "memory \<Rightarrow> Receipt \<Rightarrow> bool" where
  "memory_known x r \<longleftrightarrow> rcpt_Consumer r = meta_ID (mc_metadata (snd x)) \<and>
     (\<exists>i<length (available x). rcpt_Value r = Itoa i)"

lemma take_map_upt: "take n (map f [a ..< b]) = map f [a ..< min (a + n) b]"
  by (simp add: take_map min_def)

lemma received_cong:
  "available x = available y \<Longrightarrow> mc_metadata (snd x) = mc_metadata (snd y) \<Longrightarrow> received x = received y"
  by (simp add: received_def fun_eq_iff)

lemma received_observed [simp]: "received (fst x, (snd x)\<lparr>mc_observed := n\<rparr>) = received x"
  by (rule received_cong) simp_all

lemma position_advance:
  "position_of (s\<lparr>store_progress := mput (store_progress s) k p\<rparr>) k = p"
  by (simp add: position_of_def)

lemma stored_progress [simp]: "stored (s\<lparr>store_progress := p\<rparr>) d = stored s d"
  by (simp add: stored_def)

lemma memory_Ack_failed: "memory_Ack u r x = (x', Some err) \<Longrightarrow> x' = x"
  by (auto simp: memory_Ack_def split: if_splits option.splits)

lemma memory_Ack_known:
  assumes "memory_inv x" "memory_known x r" "memory_Ack u r x = (x', None)"
  shows "position x < int (length (available x)) \<and> rcpt_Value r = Itoa (nat (position x)) \<and>
         x' = ((fst x)\<lparr>store_progress := mput (store_progress (fst x)) (mc_key (snd x)) (position x + 1)\<rparr>, snd x)"
proof -
  obtain i where i: "i < length (available x)" "rcpt_Value r = Itoa i"
    using assms(2) by (auto simp: memory_known_def)
  with assms(1) have "ParseInt 64 (rcpt_Value r) = Some (int i)"
    by (simp add: ParseInt_Itoa memory_inv_def)
  with assms(3) i show ?thesis by (auto simp: memory_Ack_def split: if_splits)
qed

lemma memory_Receive_batch:
  assumes "memory_inv x" "memory_Receive e n x = (x', Inr b)"
  shows "1 \<le> n \<and> Messages b = take (nat n) (memory_pend x') \<and> (\<forall>m\<in>set (Messages b). memory_known x' (rcv_Receipt m))"
proof -
  have n: "1 \<le> n" "x' = (fst x, (snd x)\<lparr>mc_observed := min (position x + n) (int (length (available x)))\<rparr>)"
    and b: "Messages b = map (received x) [nat (position x) ..< nat (min (position x + n) (int (length (available x))))]"
    using assms(2) by (auto simp: memory_Receive_def Let_def split: if_splits)
  have "nat (min (position x + n) (int (length (available x)))) = min (nat (position x) + nat n) (length (available x))"
    using assms(1) n(1) by (auto simp: memory_inv_def nat_add_distrib)
  then have batch: "Messages b = take (nat n) (memory_pend x)"
    by (simp add: b memory_pend_def take_map_upt)
  have pend: "memory_pend x' = memory_pend x" by (simp add: n memory_pend_def)
  have "memory_known x (rcv_Receipt m)" if "m \<in> set (memory_pend x)" for m
    using that by (auto simp: memory_pend_def memory_known_def received_def)
  moreover have "memory_known x' = memory_known x" by (simp add: n memory_known_def fun_eq_iff)
  ultimately show ?thesis
    using n(1) by (simp add: pend batch) (meson in_set_takeD)
qed

lemma memory_Ack_keeps:
  assumes "memory_inv x" "memory_known x r" "memory_Ack e r x = (x', out)"
  shows "memory_inv x' \<and> (\<forall>r'. memory_known x r' \<longrightarrow> memory_known x' r')"
proof (cases out)
  case None
  with assms memory_Ack_known [OF assms(1,2), of e x'] have
    "x' = ((fst x)\<lparr>store_progress := mput (store_progress (fst x)) (mc_key (snd x)) (position x + 1)\<rparr>, snd x)"
    "position x < int (length (available x))" by simp_all
  then show ?thesis using assms(1) by (simp add: memory_inv_def memory_known_def position_advance)
qed (use assms memory_Ack_failed in blast)

lemma memory_Ack_first:
  assumes "memory_inv x" "memory_known x r" "memory_Ack e r x = (x', None)"
  shows "\<exists>m. memory_pend x = m # memory_pend x' \<and> rcv_Receipt m = r"
proof -
  note a = memory_Ack_known [OF assms]
  then have "received x' = received x" by (intro received_cong) simp_all
  moreover have "nat (position x') = Suc (nat (position x))" "available x' = available x"
    using a assms(1) by (simp_all add: position_advance memory_inv_def Suc_nat_eq_nat_zadd1 add.commute)
  ultimately show ?thesis
    using a assms by (auto simp: memory_pend_def upt_conv_Cons memory_inv_def received_def memory_known_def
        intro!: Receipt.equality)
qed

lemma memory_Nack_first:
  assumes "memory_inv x" "memory_known x r" "memory_Nack e r d x = (x', None)"
  shows "\<exists>m ms. memory_pend x = m # ms \<and> rcv_Receipt m = r"
proof -
  obtain i where i: "i < length (available x)" "rcpt_Value r = Itoa i"
    using assms(2) by (auto simp: memory_known_def)
  then have "position x = int i"
    using assms(1,3) by (auto simp: memory_Nack_def ParseInt_Itoa memory_inv_def split: if_splits)
  then show ?thesis
    using i assms(2) by (auto simp: memory_pend_def upt_conv_Cons received_def memory_known_def
        intro!: Receipt.equality)
qed

interpretation memory: message_consumer memory_inv memory_pend "\<lambda>_. 0" memory_known
  memory_Receive memory_Ack memory_Nack
proof
  fix x x' and e :: unit and n res r d err
  show "memory_inv x' \<and> prefix (memory_pend x) (memory_pend x') \<and> (\<forall>r. memory_known x r \<longrightarrow> memory_known x' r)"
    if "memory_inv x" "memory_Receive e n x = (x', res)"
    using that
    by (auto simp: memory_Receive_def memory_inv_def memory_pend_def memory_known_def received_def Let_def
        split: if_splits)
  show "memory_pend x' = memory_pend x"
    if "memory_Ack e r x = (x', Some err)"
    using memory_Ack_failed [OF that] by simp
  show "memory_inv x' \<and> memory_pend x' = memory_pend x \<and> (\<forall>r'. memory_known x r' \<longrightarrow> memory_known x' r')"
    if "memory_inv x" "memory_Nack e r d x = (x', out)" for out
    using that by (auto simp: memory_Nack_def split: if_splits option.splits)
  show "1 \<le> n \<and> Messages b = take (nat n) (drop 0 (memory_pend x')) \<and> (\<forall>m\<in>set (Messages b). memory_known x' (rcv_Receipt m))"
    if "memory_inv x" "memory_Receive e n x = (x', Inr b)" for b
    using memory_Receive_batch [OF that] by simp
  show "0 = (0 :: nat) \<and> (\<exists>m ms. memory_pend x = m # ms \<and> rcv_Receipt m = r)"
    if "memory_inv x" "memory_known x r" "memory_Nack e r d x = (x', None)"
    using memory_Nack_first [OF that] by simp
qed (fact memory_Ack_keeps memory_Ack_first)+

section \<open>Properties\<close>

text \<open>A client of the in-memory consumer that settles only receipts it was given acknowledges the
  stored messages in order, without a gap and without a repetition: what it has acknowledged,
  followed by what is still pending, begins with what was pending at first.\<close>

theorem memory_acks_in_order:
  assumes "memory_inv x" "run_requests memory_Receive memory_Ack memory_Nack x [] rs = (x', seen, acked)"
  shows "memory_inv x' \<and> prefix (map rcv_Receipt (memory_pend x)) (acked @ map rcv_Receipt (memory_pend x'))"
  using memory.run_in_order [OF assms(1) _ assms(2)] by simp

definition sample_message :: Message where
  "sample_message = \<lparr>msg_ID = ''m'', Body = ''b'', ContentType = [], Metadata = None, StorageError = []\<rparr>"

definition sample_memory :: memory where
  "sample_memory = (\<lparr>store_messages = Some (fmupd ''d'' [sample_message, sample_message] fmempty),
     store_progress = Some fmempty, store_capabilities = \<lparr>Provider = ''memory'', Statuses = None\<rparr>\<rparr>,
     \<lparr>mc_metadata = \<lparr>meta_ID = ''c'', meta_Destination = ''d'', meta_StartPosition = StartEarliest\<rparr>,
      mc_key = ''k'', mc_observed = 0, mc_closed = False\<rparr>)"

definition sample_receipt :: Receipt where
  "sample_receipt = \<lparr>rcpt_Consumer = ''c'', rcpt_Value = Itoa 0\<rparr>"

lemma sample_memory_inv: "memory_inv sample_memory"
  by (simp add: memory_inv_def sample_memory_def position_of_def stored_def mget_Some)

lemma sample_memory_run:
  "\<exists>x. run_requests memory_Receive memory_Ack memory_Nack sample_memory []
     [ReceiveRequest () 1, AckRequest () sample_receipt] = (x, [sample_receipt], [sample_receipt])"
  by (simp add: memory_Receive_def memory_Ack_def sample_memory_def sample_receipt_def position_of_def
      stored_def received_def mget_Some ParseInt_Itoa)

theorem memory_acks_in_order_witness:
  "\<exists>x. run_requests memory_Receive memory_Ack memory_Nack sample_memory []
     [ReceiveRequest () 1, AckRequest () sample_receipt] = (x, [sample_receipt], [sample_receipt]) \<and>
     prefix (map rcv_Receipt (memory_pend sample_memory)) (sample_receipt # map rcv_Receipt (memory_pend x))"
  using sample_memory_run memory_acks_in_order [OF sample_memory_inv] by fastforce

text \<open>A dead letter is published before its message is settled: it is in the store even when the
  settlement is refused, and on success exactly the first pending message is settled.\<close>

theorem memory_DeadLetter_publishes:
  assumes "memory_inv x" "memory_known x r" "dl_Destination l \<noteq> meta_Destination (mc_metadata (snd x))"
    "memory_DeadLetter r l x = (x', err)"
  shows "stored (fst x') (dl_Destination l) = stored (fst x) (dl_Destination l) @ [dl_Message l] \<and>
    (if err = None then \<exists>m. memory_pend x = m # memory_pend x' \<and> rcv_Receipt m = r
     else memory_pend x' = memory_pend x)"
proof -
  let ?y = "(memory_Send (fst x) (dl_Destination l) (dl_Message l), snd x)"
  have same: "available ?y = available x" "position ?y = position x"
    using assms(3) by (simp_all add: memory_Send_def stored_def position_of_def)
  have sent: "stored (fst ?y) (dl_Destination l) = stored (fst x) (dl_Destination l) @ [dl_Message l]"
    by (simp add: memory_Send_def stored_def)
  have y: "memory_inv ?y" "memory_known ?y r" "memory_pend ?y = memory_pend x"
    using assms(1,2) same received_cong [OF same(1)] by (simp_all add: memory_inv_def memory_known_def memory_pend_def)
  have ack: "memory_Ack () r ?y = (x', err)" using assms(4) by (simp add: memory_DeadLetter_def)
  show ?thesis
  proof (cases err)
    case None
    with memory_Ack_known [OF y(1,2)] memory.ack_first [OF y(1,2)] ack y(3) sent show ?thesis by auto
  next
    case (Some e)
    with memory_Ack_failed [OF ack [unfolded Some]] y(3) sent show ?thesis by simp
  qed
qed

theorem memory_DeadLetter_publishes_witness:
  "\<exists>m x. memory_DeadLetter sample_receipt \<lparr>dl_Destination = ''q'', dl_Message = sample_message, dl_TopicID = [],
      dl_SubscriptionID = [], FailureClass = [], Attempt = 1, dl_StorageError = []\<rparr> sample_memory = (x, None) \<and>
     memory_pend sample_memory = m # memory_pend x \<and> stored (fst x) ''q'' = [sample_message]"
proof -
  let ?l = "\<lparr>dl_Destination = ''q'', dl_Message = sample_message, dl_TopicID = [],
      dl_SubscriptionID = [], FailureClass = [], Attempt = 1, dl_StorageError = []\<rparr>"
  have known: "memory_known sample_memory sample_receipt"
    by (auto simp: memory_known_def sample_memory_def sample_receipt_def stored_def mget_Some intro: exI [of _ 0])
  obtain x where x: "memory_DeadLetter sample_receipt ?l sample_memory = (x, None)"
    by (simp add: memory_DeadLetter_def memory_Ack_def memory_Send_def sample_memory_def sample_receipt_def
        position_of_def stored_def mget_Some mput_def ParseInt_Itoa)
  have "stored (fst sample_memory) ''q'' = []" by (simp add: sample_memory_def stored_def mget_Some)
  moreover have "dl_Destination ?l \<noteq> meta_Destination (mc_metadata (snd sample_memory))"
    by (simp add: sample_memory_def)
  ultimately show ?thesis
    using x memory_DeadLetter_publishes [OF sample_memory_inv known _ x] by fastforce
qed

end
