(* ===== verification/Kafka_Options.thy ===== *)
theory Kafka_Options
  imports Capabilities
begin

text \<open>
  The Kafka provider's configuration (\<open>kafka/config.go\<close>), its reading of subscription options
  (\<open>kafka/subscription_options.go\<close>), the mapping between messages and Kafka records
  (\<open>kafka/record.go\<close>) and the producer (\<open>kafka/producer.go\<close>). The franz-go client is a
  parameter: the answer of a produce request is an argument.
\<close>

section \<open>Configuration\<close>

text \<open>The TLS configuration and the SASL mechanisms are opaque; only their presence matters.\<close>

record Config =
  Brokers :: "string list"
  ClientID :: string
  TLS :: bool
  SASL :: nat
  DialTimeout :: duration
  RequestTimeoutOverhead :: duration
  DefaultReplicationFactor :: int

definition config_validate :: "Config \<Rightarrow> goerr option" where
  "config_validate c =
     (if Brokers c = [] then Some (Error ''at least one Kafka broker is required'')
      else if list_ex (\<lambda>broker. broker = []) (Brokers c) then Some (Error ''Kafka broker cannot be empty'')
      else if DefaultReplicationFactor c < -1
      then Some (Error ''Kafka replication factor must be positive or -1 for the broker default'')
      else if DialTimeout c < 0 \<or> RequestTimeoutOverhead c < 0
      then Some (Error ''Kafka timeouts cannot be negative'')
      else None)"

definition config_normalized :: "Config \<Rightarrow> Config" where
  "config_normalized c =
     c\<lparr>ClientID := (if ClientID c = [] then ''websubhub'' else ClientID c),
       DialTimeout := (if DialTimeout c = 0 then 10 * Second else DialTimeout c),
       RequestTimeoutOverhead := (if RequestTimeoutOverhead c = 0 then 30 * Second else RequestTimeoutOverhead c),
       DefaultReplicationFactor := (if DefaultReplicationFactor c = 0 then -1 else DefaultReplicationFactor c)\<rparr>"

section \<open>Subscription options\<close>

abbreviation consumerGroupParameter :: string where "consumerGroupParameter \<equiv> ''kafka.consumer_group''"
abbreviation topicPartitionsParameter :: string where "topicPartitionsParameter \<equiv> ''kafka.topic_partitions''"
abbreviation maxConsumerGroupBytes :: nat where "maxConsumerGroupBytes \<equiv> 255"

record subscriptionConfig =
  cfg_group :: string
  cfg_partitions :: "int list"

definition permanent :: "string \<Rightarrow> goerr" where
  "permanent reason = PermanentSubscriptionError (if 256 < length reason then [] else reason)"

definition decimalPartition :: "string \<Rightarrow> bool" where
  "decimalPartition v = (v \<noteq> [] \<and> list_all is_digit v)"

text \<open>The loop over the items: \<open>seen\<close> holds the partitions accepted so far, in order.\<close>

fun parse_partitions :: "string list \<Rightarrow> int list \<Rightarrow> int list result" where
  "parse_partitions [] seen = Inr seen"
| "parse_partitions (item # items) seen =
     (let item' = TrimSpace item in
      case ParseInt 32 item' of
        None \<Rightarrow> Inl (permanent ''invalid Kafka topic partitions'')
      | Some v \<Rightarrow>
          if v < 0 \<or> \<not> decimalPartition item' then Inl (permanent ''invalid Kafka topic partitions'')
          else if v \<in> set seen then Inl (permanent ''duplicate Kafka topic partition'')
          else parse_partitions items (seen @ [v]))"

definition group_option :: "string list \<Rightarrow> subscriptionConfig result" where
  "group_option groupValues =
     (if length groupValues \<noteq> 1 \<or> hd groupValues = [] \<or> maxConsumerGroupBytes < length (hd groupValues) \<or>
         \<not> utf8_ValidString (hd groupValues)
      then Inl (permanent ''invalid Kafka consumer group'')
      else Inr \<lparr>cfg_group = hd groupValues, cfg_partitions = []\<rparr>)"

definition partitions_option :: "string list \<Rightarrow> subscriptionConfig result" where
  "partitions_option partitionValues =
     (if length partitionValues \<noteq> 1 \<or> hd partitionValues = []
      then Inl (permanent ''invalid Kafka topic partitions'')
      else case parse_partitions (Split (hd partitionValues) (CHR '','')) [] of
          Inl e \<Rightarrow> Inl e
        | Inr ps \<Rightarrow> if ps = [] then Inl (permanent ''invalid Kafka topic partitions'')
                    else Inr \<lparr>cfg_group = [], cfg_partitions = ps\<rparr>)"

definition parseSubscriptionOptions :: "SubscriptionOptions \<Rightarrow> subscriptionConfig result" where
  "parseSubscriptionOptions options =
     (case (mget (opt_Parameters options) consumerGroupParameter,
            mget (opt_Parameters options) topicPartitionsParameter) of
        (Some _, Some _) \<Rightarrow>
          Inl (permanent ''Kafka consumer group and topic partitions cannot be combined'')
      | (Some groupValues, None) \<Rightarrow> group_option groupValues
      | (None, Some partitionValues) \<Rightarrow> partitions_option partitionValues
      | (None, None) \<Rightarrow> Inr \<lparr>cfg_group = [], cfg_partitions = []\<rparr>)"

definition validatePartitionMembership :: "subscriptionConfig \<Rightarrow> Destination \<Rightarrow> int set \<Rightarrow> goerr option" where
  "validatePartitionMembership config destination partitions =
     (if \<not> list_all (\<lambda>p. p \<in> partitions) (cfg_partitions config)
      then Some (permanent ''Kafka topic partition does not exist'')
      else if destination = [] then Some (Error ''destination is required'')
      else None)"

section \<open>Records\<close>

abbreviation headerMessageID :: string where "headerMessageID \<equiv> ''websubhub-message-id''"
abbreviation headerContentType :: string where "headerContentType \<equiv> ''content-type''"
definition headerMetadataPrefix :: string where "headerMetadataPrefix = ''websubhub-meta-''"

text \<open>The fields of \<open>kgo.Record\<close> the provider uses.\<close>

record kgo_Record =
  krec_Topic :: string
  krec_Key :: string
  krec_Value :: string
  Headers :: "(string \<times> string) list"
  Partition :: int
  Offset :: int
  LeaderEpoch :: int

definition unsafe_key :: "string \<Rightarrow> bool" where
  "unsafe_key key = (key = [] \<or> ToLower key \<noteq> key \<or> HasPrefix key headerMetadataPrefix \<or>
     key = headerMessageID \<or> key = headerContentType)"

definition metadata_headers :: "string gomap \<Rightarrow> (string \<times> string) list" where
  "metadata_headers m = map (\<lambda>key. (headerMetadataPrefix @ key, the (mget m key))) (sorted_keys m)"

definition encodeRecord :: "Destination \<Rightarrow> Message \<Rightarrow> kgo_Record result" where
  "encodeRecord destination message =
     (if destination = [] then Inl (Error ''destination is required'')
      else if msg_ID message = [] then Inl (Error ''message ID is required'')
      else if StorageError message \<noteq> []
      then Inl (Error ''a storage-invalid message cannot be published as normal content'')
      else if list_ex unsafe_key (sorted_keys (Metadata message))
      then Inl (Error ''unsafe message metadata key'')
      else Inr \<lparr>krec_Topic = destination, krec_Key = msg_ID message, krec_Value = Body message,
                Headers = [(headerMessageID, msg_ID message)] @
                  (if ContentType message \<noteq> [] then [(headerContentType, ContentType message)] else []) @
                  metadata_headers (Metadata message),
                Partition = 0, Offset = 0, LeaderEpoch = 0\<rparr>)"

definition decode_header :: "string \<times> string \<Rightarrow> Message \<Rightarrow> Message" where
  "decode_header h message =
     (if fst h = headerMessageID then message\<lparr>msg_ID := snd h\<rparr>
      else if fst h = headerContentType then message\<lparr>ContentType := snd h\<rparr>
      else if HasPrefix (fst h) headerMetadataPrefix
      then message\<lparr>Metadata := mput (Metadata message) (TrimPrefix (fst h) headerMetadataPrefix) (snd h)\<rparr>
      else message)"

text \<open>The code never returns an error here.\<close>

definition decodeRecord :: "kgo_Record \<Rightarrow> Message result" where
  "decodeRecord record1 =
     (let message = fold decode_header (Headers record1)
            \<lparr>msg_ID = [], Body = krec_Value record1, ContentType = [], Metadata = Some fmempty, StorageError = []\<rparr>
      in Inr (if msg_ID message = [] then message\<lparr>StorageError := ''missing_message_id''\<rparr> else message))"

section \<open>Producer\<close>

record Producer =
  prod_closed :: bool

text \<open>\<open>produced\<close> is what \<open>ProduceSync(...).FirstErr()\<close> answers. The result lists the records
  handed to the client.\<close>

definition Producer_Send :: "Producer \<Rightarrow> (kgo_Record \<Rightarrow> goerr option) \<Rightarrow> Destination \<Rightarrow> Message \<Rightarrow>
    kgo_Record list \<times> goerr option" where
  "Producer_Send p produced destination message =
     (case encodeRecord destination message of
        Inl e \<Rightarrow> ([], Some e)
      | Inr record1 \<Rightarrow> if prod_closed p then ([], Some ErrClosed) else ([record1], produced record1))"

definition Producer_Close :: "Producer \<Rightarrow> Producer" where
  "Producer_Close p = p\<lparr>prod_closed := True\<rparr>"

section \<open>Properties\<close>

lemma parse_partitions_sound:
  assumes "parse_partitions items seen = Inr ps" "distinct seen" "\<And>p. p \<in> set seen \<Longrightarrow> 0 \<le> p \<and> p < 2 ^ 31"
  shows "distinct ps \<and> (\<forall>p\<in>set ps. 0 \<le> p \<and> p < 2 ^ 31) \<and> length ps = length seen + length items"
  using assms
proof (induction items arbitrary: seen)
  case (Cons item items)
  obtain v where v: "ParseInt 32 (TrimSpace item) = Some v" "0 \<le> v" "v \<notin> set seen"
    "parse_partitions items (seen @ [v]) = Inr ps"
    using Cons.prems(1) by (auto simp: Let_def split: option.splits if_splits)
  have "v < 2 ^ 31" using v(1,2) by (auto simp: ParseInt_def Let_def split: if_splits)
  then have "\<And>p. p \<in> set (seen @ [v]) \<Longrightarrow> 0 \<le> p \<and> p < 2 ^ 31" using Cons.prems(3) v(2) by auto
  moreover have "distinct (seen @ [v])" using Cons.prems(2) v(3) by simp
  ultimately show ?case using Cons.IH [OF v(4)] by simp
qed auto

lemma parse_partitions_error:
  "parse_partitions items seen = Inl e \<Longrightarrow> \<exists>r. e = PermanentSubscriptionError r"
  by (induction items seen rule: parse_partitions.induct)
    (auto simp: Let_def permanent_def split: option.splits if_splits)

lemma group_option_cases:
  "case group_option vs of
     Inl e \<Rightarrow> \<exists>r. e = PermanentSubscriptionError r
   | Inr cfg \<Rightarrow> cfg_group cfg \<noteq> [] \<and> cfg_partitions cfg = [] \<and> length (cfg_group cfg) \<le> 255 \<and>
       utf8_ValidString (cfg_group cfg)"
  by (simp add: group_option_def permanent_def)

lemma partitions_option_cases:
  "case partitions_option vs of
     Inl e \<Rightarrow> \<exists>r. e = PermanentSubscriptionError r
   | Inr cfg \<Rightarrow> cfg_group cfg = [] \<and> cfg_partitions cfg \<noteq> [] \<and> distinct (cfg_partitions cfg) \<and>
       (\<forall>p\<in>set (cfg_partitions cfg). 0 \<le> p \<and> p < 2 ^ 31)"
  using parse_partitions_sound [of "Split (hd vs) (CHR '','')" "[]"]
    parse_partitions_error [of "Split (hd vs) (CHR '','')" "[]"]
  by (cases "parse_partitions (Split (hd vs) (CHR '','')) []")
    (simp_all add: partitions_option_def permanent_def)

text \<open>The Kafka options of a subscription name a group, or distinct partitions that fit in 31 bits, or
  neither, never both; a group is one non-empty UTF-8 text of at most 255 bytes; any refusal is a
  permanent subscription error.\<close>

theorem parseSubscriptionOptions_sound:
  "case parseSubscriptionOptions options of
     Inl e \<Rightarrow> \<exists>r. e = PermanentSubscriptionError r
   | Inr cfg \<Rightarrow>
       (cfg_group cfg = [] \<or> cfg_partitions cfg = []) \<and>
       (cfg_group cfg \<noteq> [] \<longleftrightarrow> mget (opt_Parameters options) consumerGroupParameter \<noteq> None) \<and>
       (cfg_partitions cfg \<noteq> [] \<longleftrightarrow> mget (opt_Parameters options) topicPartitionsParameter \<noteq> None) \<and>
       length (cfg_group cfg) \<le> 255 \<and> utf8_ValidString (cfg_group cfg) \<and>
       distinct (cfg_partitions cfg) \<and> (\<forall>p\<in>set (cfg_partitions cfg). 0 \<le> p \<and> p < 2 ^ 31)"
proof (cases "mget (opt_Parameters options) consumerGroupParameter")
  case None
  note group = None
  show ?thesis
  proof (cases "mget (opt_Parameters options) topicPartitionsParameter")
    case (Some vs)
    with group partitions_option_cases [of vs] show ?thesis
      by (cases "partitions_option vs") (simp_all add: parseSubscriptionOptions_def)
  qed (simp add: parseSubscriptionOptions_def group)
next
  case (Some vs)
  with group_option_cases [of vs] show ?thesis
    by (cases "mget (opt_Parameters options) topicPartitionsParameter"; cases "group_option vs")
      (simp_all add: parseSubscriptionOptions_def permanent_def)
qed

text \<open>Decoding the metadata headers of a record rebuilds the map.\<close>

lemma decode_header_metadata [simp]:
  "decode_header (headerMetadataPrefix @ k, v) m = m\<lparr>Metadata := mput (Metadata m) k v\<rparr>"
proof -
  have "headerMetadataPrefix @ k \<noteq> headerMessageID" "headerMetadataPrefix @ k \<noteq> headerContentType"
    by (simp_all add: headerMetadataPrefix_def)
  then show ?thesis by (simp add: decode_header_def)
qed

lemma decode_metadata:
  assumes "distinct ks"
  shows "mget (Metadata (fold decode_header (map (\<lambda>k. (headerMetadataPrefix @ k, f k)) ks) m)) k =
           (if k \<in> set ks then Some (f k) else mget (Metadata m) k)"
  using assms
  by (induction ks arbitrary: m) auto

lemma decode_metadata_frame:
  "Metadata m \<noteq> None \<Longrightarrow>
   let m' = fold decode_header (map (\<lambda>k. (headerMetadataPrefix @ k, f k)) ks) m
   in msg_ID m' = msg_ID m \<and> ContentType m' = ContentType m \<and> Body m' = Body m \<and>
      StorageError m' = StorageError m \<and> Metadata m' \<noteq> None"
  by (induction ks arbitrary: m) (simp_all add: Let_def del: not_None_eq)

text \<open>(C28) Round trip: a published record decodes to the message it was made from, its metadata as an
  initialised map with the same entries.\<close>

theorem record_roundtrip:
  assumes "encodeRecord destination message = Inr r"
  shows "\<exists>m. decodeRecord r = Inr m \<and> m = message\<lparr>Metadata := Some (entries (Metadata message))\<rparr>"
proof -
  let ?start = "\<lparr>msg_ID = msg_ID message, Body = Body message, ContentType = ContentType message,
    Metadata = Some fmempty, StorageError = []\<rparr>"
  let ?m = "fold decode_header (metadata_headers (Metadata message)) ?start"
  have ok: "msg_ID message \<noteq> []" "StorageError message = []"
    using assms by (auto simp: encodeRecord_def split: if_splits)
  have frame: "msg_ID ?m = msg_ID message" "ContentType ?m = ContentType message" "Body ?m = Body message"
    "StorageError ?m = []" "Metadata ?m \<noteq> None"
    using decode_metadata_frame [of ?start "\<lambda>k. the (mget (Metadata message) k)" "sorted_keys (Metadata message)"]
    by (simp_all add: metadata_headers_def Let_def)
  have "Metadata ?m = Some (entries (Metadata message))"
  proof (rule gomap_eqI)
    show "mget (Metadata ?m) k = mget (Some (entries (Metadata message))) k" for k
      unfolding metadata_headers_def
      using decode_metadata [OF sorted_keys_sorted(2), of "\<lambda>k. the (mget (Metadata message) k)" "Metadata message" ?start k]
      by (cases "mget (Metadata message) k") (simp_all add: mget_def)
  qed (use frame in simp_all)
  with frame ok have "?m = message\<lparr>Metadata := Some (entries (Metadata message))\<rparr>" by simp
  moreover have "decodeRecord r = Inr ?m"
    using assms ok frame
    by (auto simp: encodeRecord_def decodeRecord_def decode_header_def Let_def split: if_splits)
  ultimately show ?thesis by simp
qed

theorem record_roundtrip_witness:
  "\<exists>r. encodeRecord ''d'' \<lparr>msg_ID = ''m'', Body = ''b'', ContentType = ''t'', Metadata = None, StorageError = []\<rparr> = Inr r \<and>
     decodeRecord r = Inr \<lparr>msg_ID = ''m'', Body = ''b'', ContentType = ''t'', Metadata = Some fmempty, StorageError = []\<rparr>"
proof -
  let ?m = "\<lparr>msg_ID = ''m'', Body = ''b'', ContentType = ''t'', Metadata = None, StorageError = []\<rparr>"
  have "list_ex unsafe_key (sorted_keys (None :: string gomap)) = False"
    by (simp add: list_ex_iff)
  then obtain r where r: "encodeRecord ''d'' ?m = Inr r" by (simp add: encodeRecord_def)
  from record_roundtrip [OF r] r show ?thesis by simp
qed

text \<open>The producer hands a record to Kafka only when it is open and the message is well formed: named
  destination, an identifier, no storage error and safe metadata keys; otherwise it reports an error.\<close>

theorem Producer_Send_guarded:
  "case Producer_Send p produced destination message of
     (sent, err) \<Rightarrow>
       if destination \<noteq> [] \<and> msg_ID message \<noteq> [] \<and> StorageError message = [] \<and>
          (\<forall>k. mget (Metadata message) k \<noteq> None \<longrightarrow> \<not> unsafe_key k) \<and> \<not> prod_closed p
       then \<exists>r. encodeRecord destination message = Inr r \<and> sent = [r] \<and> err = produced r
       else sent = [] \<and> err \<noteq> None"
  by (auto simp: Producer_Send_def encodeRecord_def list_ex_iff) (metis option.distinct(1))

definition sample_options :: SubscriptionOptions where
  "sample_options = \<lparr>opt_Parameters = Some (fmupd consumerGroupParameter [''g''] fmempty)\<rparr>"

theorem parseSubscriptionOptions_sound_witness:
  "cfg_partitions (projr (parseSubscriptionOptions sample_options)) = [] \<and>
   utf8_ValidString (cfg_group (projr (parseSubscriptionOptions sample_options)))"
proof -
  have "parseSubscriptionOptions sample_options = Inr \<lparr>cfg_group = ''g'', cfg_partitions = []\<rparr>" by code_simp
  with parseSubscriptionOptions_sound [of sample_options] show ?thesis by simp
qed

definition sample_outgoing :: Message where
  "sample_outgoing = \<lparr>msg_ID = ''m'', Body = ''b'', ContentType = [], Metadata = None, StorageError = []\<rparr>"

theorem Producer_Send_guarded_witness:
  "\<exists>r. encodeRecord ''d'' sample_outgoing = Inr r \<and>
     fst (Producer_Send \<lparr>prod_closed = False\<rparr> (\<lambda>_. None) ''d'' sample_outgoing) = [r]"
  using Producer_Send_guarded [where p = "\<lparr>prod_closed = False\<rparr>" and produced = "\<lambda>_. None" and destination = "''d''"
      and message = sample_outgoing]
  by (auto simp: mget_def sample_outgoing_def split: prod.splits)

end
