(* ===== verification/Go_Sha256.thy ===== *)
theory Go_Sha256
  imports Go_Strings "HOL-Library.Word"
begin

unbundle bit_operations_syntax

text \<open>
  The packages \<open>crypto/sha256\<close> (FIPS 180-4) and \<open>encoding/hex\<close>, and the big-endian
  length of \<open>encoding/binary\<close>, as far as the program uses them to derive names.
\<close>

section \<open>SHA-256\<close>

text \<open>The constants in decimal: the fractional parts of the cube roots of the first 64 primes, and of the
  square roots of the first eight.\<close>

definition sha_K :: "32 word list" where
  "sha_K =
     [1116352408, 1899447441, 3049323471, 3921009573, 961987163, 1508970993,
      2453635748, 2870763221, 3624381080, 310598401, 607225278, 1426881987,
      1925078388, 2162078206, 2614888103, 3248222580, 3835390401, 4022224774,
      264347078, 604807628, 770255983, 1249150122, 1555081692, 1996064986,
      2554220882, 2821834349, 2952996808, 3210313671, 3336571891, 3584528711,
      113926993, 338241895, 666307205, 773529912, 1294757372, 1396182291,
      1695183700, 1986661051, 2177026350, 2456956037, 2730485921, 2820302411,
      3259730800, 3345764771, 3516065817, 3600352804, 4094571909, 275423344,
      430227734, 506948616, 659060556, 883997877, 958139571, 1322822218,
      1537002063, 1747873779, 1955562222, 2024104815, 2227730452, 2361852424,
      2428436474, 2756734187, 3204031479, 3329325298]"

definition sha_H0 :: "32 word list" where
  "sha_H0 = [1779033703, 3144134277, 1013904242, 2773480762, 1359893119, 2600822924, 528734635, 1541459225]"

definition Ch :: "32 word \<Rightarrow> 32 word \<Rightarrow> 32 word \<Rightarrow> 32 word" where
  "Ch x y z = (x AND y) XOR (NOT x AND z)"

definition Maj :: "32 word \<Rightarrow> 32 word \<Rightarrow> 32 word \<Rightarrow> 32 word" where
  "Maj x y z = (x AND y) XOR (x AND z) XOR (y AND z)"

definition Sigma0 :: "32 word \<Rightarrow> 32 word" where
  "Sigma0 x = word_rotr 2 x XOR word_rotr 13 x XOR word_rotr 22 x"

definition Sigma1 :: "32 word \<Rightarrow> 32 word" where
  "Sigma1 x = word_rotr 6 x XOR word_rotr 11 x XOR word_rotr 25 x"

definition sigma0 :: "32 word \<Rightarrow> 32 word" where
  "sigma0 x = word_rotr 7 x XOR word_rotr 18 x XOR drop_bit 3 x"

definition sigma1 :: "32 word \<Rightarrow> 32 word" where
  "sigma1 x = word_rotr 17 x XOR word_rotr 19 x XOR drop_bit 10 x"

text \<open>Big-endian bytes.\<close>

fun be_bytes :: "nat \<Rightarrow> nat \<Rightarrow> string" where
  "be_bytes 0 v = []"
| "be_bytes (Suc n) v = be_bytes n (v div 256) @ [char_of (v mod 256)]"

definition be_word :: "string \<Rightarrow> 32 word" where
  "be_word bs = fold (\<lambda>c w. push_bit 8 w OR of_nat (byte c)) bs 0"

definition sha_pad :: "string \<Rightarrow> string" where
  "sha_pad m = m @ [char_of (128 :: nat)] @ replicate ((119 - length m mod 64) mod 64) (CHR 0x00) @
     be_bytes 8 (8 * length m)"

fun blocks :: "nat \<Rightarrow> string \<Rightarrow> string list" where
  "blocks 0 s = []"
| "blocks (Suc n) s = take 64 s # blocks n (drop 64 s)"

definition block_words :: "string \<Rightarrow> 32 word list" where
  "block_words b = map (\<lambda>i. be_word (take 4 (drop (4 * i) b))) [0 ..< 16]"

text \<open>The schedule, last word first.\<close>

definition schedule_step :: "32 word list \<Rightarrow> 32 word list" where
  "schedule_step ws = (sigma1 (ws ! 1) + ws ! 6 + sigma0 (ws ! 14) + ws ! 15) # ws"

definition schedule :: "string \<Rightarrow> 32 word list" where
  "schedule b = rev ((schedule_step ^^ 48) (rev (block_words b)))"

fun sha_round :: "32 word \<times> 32 word \<Rightarrow> 32 word list \<Rightarrow> 32 word list" where
  "sha_round (k, w) [a, b, c, d, e, f, g, h] =
     (let t1 = h + Sigma1 e + Ch e f g + k + w; t2 = Sigma0 a + Maj a b c
      in [t1 + t2, a, b, c, d + t1, e, f, g])"
| "sha_round _ hs = hs"

definition sha_block :: "string \<Rightarrow> 32 word list \<Rightarrow> 32 word list" where
  "sha_block b hs = map (\<lambda>(x, y). x + y) (zip hs (fold sha_round (zip sha_K (schedule b)) hs))"

definition sha256_Sum256 :: "string \<Rightarrow> string" where
  "sha256_Sum256 m =
     (let p = sha_pad m
      in concat (map (\<lambda>w. be_bytes 4 (unat w)) (fold sha_block (blocks (length p div 64) p) sha_H0)))"

section \<open>Hexadecimal text\<close>

definition hex_digit :: "nat \<Rightarrow> char" where
  "hex_digit n = char_of (if n < 10 then 48 + n else 87 + n)"

definition hex_EncodeToString :: "string \<Rightarrow> string" where
  "hex_EncodeToString s = concat (map (\<lambda>c. [hex_digit (byte c div 16), hex_digit (byte c mod 16)]) s)"

lemma length_be_bytes [simp]: "length (be_bytes n v) = n"
  by (induction n v rule: be_bytes.induct) simp_all

lemma be_bytes_inject: "v < 256 ^ n \<Longrightarrow> w < 256 ^ n \<Longrightarrow> be_bytes n v = be_bytes n w \<longleftrightarrow> v = w"
proof (induction n arbitrary: v w)
  case (Suc n)
  have "v div 256 < 256 ^ n" "w div 256 < 256 ^ n" using Suc.prems by (simp_all add: less_mult_imp_div_less)
  with Suc.IH have "be_bytes n (v div 256) = be_bytes n (w div 256) \<longleftrightarrow> v div 256 = w div 256" .
  moreover have "char_of (v mod 256) = (char_of (w mod 256) :: char) \<longleftrightarrow> v mod 256 = w mod 256"
    by (metis char_of_eq_iff mod_less_divisor of_char_of zero_less_numeral mod_mod_trivial)
  ultimately show ?case by (simp only: be_bytes.simps append1_eq_conv) (metis mod_div_mult_eq)
qed simp

lemma hex_digit_inject: "m < 16 \<Longrightarrow> n < 16 \<Longrightarrow> hex_digit m = hex_digit n \<longleftrightarrow> m = n"
  unfolding hex_digit_def by (auto simp: char_of_eq_iff take_bit_eq_mod)

lemma byte_less: "byte c < 256"
  by (simp add: byte_def)

lemma hex_inject: "hex_EncodeToString s = hex_EncodeToString t \<longleftrightarrow> s = t"
proof (induction s arbitrary: t)
  case (Cons a s)
  show ?case
  proof (cases t)
    case (Cons b u)
    have "byte a div 16 < 16" "byte b div 16 < 16" using byte_less [of a] byte_less [of b] by auto
    then have "hex_EncodeToString (a # s) = hex_EncodeToString t \<longleftrightarrow>
        byte a div 16 = byte b div 16 \<and> byte a mod 16 = byte b mod 16 \<and> s = u"
      using Cons.IH [of u] Cons by (simp add: hex_EncodeToString_def hex_digit_inject)
    also have "\<dots> \<longleftrightarrow> byte a = byte b \<and> s = u" by (metis mod_div_mult_eq)
    finally show ?thesis by (simp add: Cons byte_def)
  qed (simp add: hex_EncodeToString_def)
qed (auto simp: hex_EncodeToString_def)

end
