(* ===== verification/Go_Time.thy ===== *)
theory Go_Time
  imports Hub_Prelude Go_Strings "HOL-Library.Monad_Syntax"
begin

text \<open>
  The text form of instants: \<open>time.Time.Format(time.RFC3339Nano)\<close>, and \<open>MarshalJSON\<close> and
  \<open>UnmarshalJSON\<close> without the quotes. Dates are of the proleptic Gregorian calendar.
\<close>

section \<open>Dates\<close>

text \<open>The civil date of a day number counted from 1 January of year 1. Years are counted from March
  here, so that a leap day is the last day of its year.\<close>

definition civil_of_days :: "int \<Rightarrow> int \<times> int \<times> int" where
  "civil_of_days days =
     (let z = days + 306; era = z div 146097; r = z mod 146097;
          c = min 3 (r div 36524); r1 = r - 36524 * c;
          q = r1 div 1461; r2 = r1 - 1461 * q;
          n = min 3 (r2 div 365); doy = r2 - 365 * n;
          mp = (5 * doy + 2) div 153;
          d = doy - (153 * mp + 2) div 5 + 1;
          m = (if mp < 10 then mp + 3 else mp - 9)
      in (400 * era + 100 * c + 4 * q + n + (if m \<le> 2 then 1 else 0), m, d))"

definition days_of_civil :: "int \<Rightarrow> int \<Rightarrow> int \<Rightarrow> int" where
  "days_of_civil y m d =
     (let y' = (if m \<le> 2 then y - 1 else y);
          mp = (if m \<le> 2 then m + 9 else m - 3)
      in 365 * y' + y' div 4 - y' div 100 + y' div 400 + (153 * mp + 2) div 5 + d - 1 - 306)"

definition is_leap :: "int \<Rightarrow> bool" where
  "is_leap y = (y mod 4 = 0 \<and> (y mod 100 \<noteq> 0 \<or> y mod 400 = 0))"

definition daysIn :: "int \<Rightarrow> int \<Rightarrow> int" where
  "daysIn m y = (if m = 2 then if is_leap y then 29 else 28 else if m \<in> {4, 6, 9, 11} then 30 else 31)"

section \<open>Formatting\<close>

text \<open>\<open>appendInt\<close>: decimal, zero-padded to a width.\<close>

definition appendInt :: "nat \<Rightarrow> int \<Rightarrow> string" where
  "appendInt width n =
     (let s = Itoa (nat \<bar>n\<bar>)
      in (if n < 0 then ''-'' else []) @ replicate (width - length s) (CHR ''0'') @ s)"

definition trim_zeros :: "string \<Rightarrow> string" where
  "trim_zeros s = rev (dropWhile (\<lambda>c. c = CHR ''0'') (rev s))"

definition fraction :: "int \<Rightarrow> string" where
  "fraction ns = (if ns = 0 then [] else ''.'' @ trim_zeros (appendInt 9 ns))"

definition zone_offset :: "gtime \<Rightarrow> int" where
  "zone_offset t = (case tm_loc t of UTC \<Rightarrow> 0 | Zone _ offset \<Rightarrow> offset)"

definition format_zone :: "int \<Rightarrow> string" where
  "format_zone offset =
     (if offset = 0 then ''Z''
      else let zone = sgn offset * (\<bar>offset\<bar> div 60)
        in (if zone < 0 then ''-'' else ''+'') @ appendInt 2 (\<bar>zone\<bar> div 60) @ '':'' @ appendInt 2 (\<bar>zone\<bar> mod 60))"

definition local_seconds :: "gtime \<Rightarrow> int" where
  "local_seconds t = tm_ns t div 1000000000 + zone_offset t"

definition format_RFC3339Nano :: "gtime \<Rightarrow> string" where
  "format_RFC3339Nano t =
     (let secs = local_seconds t; tod = secs mod 86400
      in case civil_of_days (secs div 86400) of (y, m, d) \<Rightarrow>
        appendInt 4 y @ ''-'' @ appendInt 2 m @ ''-'' @ appendInt 2 d @ ''T'' @
        appendInt 2 (tod div 3600) @ '':'' @ appendInt 2 (tod div 60 mod 60) @ '':'' @ appendInt 2 (tod mod 60) @
        fraction (tm_ns t mod 1000000000) @ format_zone (zone_offset t))"

text \<open>\<open>MarshalJSON\<close> refuses years outside 0 to 9999 and offsets of a day or more.\<close>

definition time_Marshal :: "gtime \<Rightarrow> string option" where
  "time_Marshal t =
     (let y = fst (civil_of_days (local_seconds t div 86400))
      in if y < 0 \<or> 9999 < y then None
         else if 24 \<le> \<bar>zone_offset t\<bar> div 3600 then None
         else Some (format_RFC3339Nano t))"

section \<open>Parsing\<close>

definition fixnum :: "nat \<Rightarrow> string \<Rightarrow> (int \<times> string) option" where
  "fixnum n s = (if n \<le> length s \<and> list_all is_digit (take n s) then Some (int (digits (take n s) 0), drop n s) else None)"

definition accept :: "char \<Rightarrow> string \<Rightarrow> string option" where
  "accept c s = (case s of [] \<Rightarrow> None | x # r \<Rightarrow> if x = c then Some r else None)"

text \<open>An hour may have one digit.\<close>

definition parse_hour :: "string \<Rightarrow> (int \<times> string) option" where
  "parse_hour s = (case fixnum 2 s of None \<Rightarrow> fixnum 1 s | Some r \<Rightarrow> Some r)"

definition parse_fraction :: "string \<Rightarrow> int \<times> string" where
  "parse_fraction s =
     (case s of
        c # d # r \<Rightarrow>
          if c \<in> {CHR ''.'', CHR '',''} \<and> is_digit d
          then let ds = take 9 (takeWhile is_digit (d # r))
            in (int (digits ds 0) * 10 ^ (9 - length ds), dropWhile is_digit (d # r))
          else (0, s)
      | _ \<Rightarrow> (0, s))"

text \<open>The location of a time with an offset: \<open>FixedZone\<close>. (Go takes the local zone when it has that
  offset then; the two differ in name only.)\<close>

definition parse_zone :: "string \<Rightarrow> location option" where
  "parse_zone s =
     (if s = ''Z'' then Some UTC
      else case s of
          [] \<Rightarrow> None
        | sign # r \<Rightarrow> do {
            (hh, r) \<leftarrow> fixnum 2 r; r \<leftarrow> accept (CHR '':'') r; (mm, r) \<leftarrow> fixnum 2 r;
            if r \<noteq> [] \<or> sign \<notin> {CHR ''+'', CHR ''-''} \<or> 24 < hh \<or> 60 < mm then None
            else Some (Zone [] ((if sign = CHR ''-'' then - 1 else 1) * (hh * 60 + mm) * 60))})"

definition time_Unmarshal :: "string \<Rightarrow> gtime option" where
  "time_Unmarshal s = do {
     (y, s) \<leftarrow> fixnum 4 s; s \<leftarrow> accept (CHR ''-'') s;
     (m, s) \<leftarrow> fixnum 2 s; s \<leftarrow> accept (CHR ''-'') s;
     (d, s) \<leftarrow> fixnum 2 s; s \<leftarrow> accept (CHR ''T'') s;
     (hh, s) \<leftarrow> parse_hour s; s \<leftarrow> accept (CHR '':'') s;
     (mi, s) \<leftarrow> fixnum 2 s; s \<leftarrow> accept (CHR '':'') s;
     (se, s) \<leftarrow> fixnum 2 s;
     let (ns, s) = parse_fraction s;
     loc \<leftarrow> parse_zone s;
     if m < 1 \<or> 12 < m \<or> d < 1 \<or> daysIn m y < d \<or> 23 < hh \<or> 59 < mi \<or> 59 < se then None
     else let t = \<lparr>tm_ns = 0, tm_loc = loc\<rparr>
       in Some (t\<lparr>tm_ns := (days_of_civil y m d * 86400 + hh * 3600 + mi * 60 + se - zone_offset t) * 1000000000 + ns\<rparr>)}"

section \<open>Round trip\<close>

lemma cycle_bounds:
  fixes r :: int
  assumes "0 \<le> r" "r < 146097"
  defines "c \<equiv> min 3 (r div 36524)"
  defines "r1 \<equiv> r - 36524 * c"
  defines "q \<equiv> r1 div 1461"
  defines "r2 \<equiv> r1 - 1461 * q"
  defines "n \<equiv> min 3 (r2 div 365)"
  shows "0 \<le> c \<and> c \<le> 3 \<and> 0 \<le> q \<and> q \<le> 24 \<and> 0 \<le> n \<and> n \<le> 3 \<and> 0 \<le> r2 - 365 * n \<and> r2 - 365 * n \<le> 365 \<and>
    (r2 - 365 * n = 365 \<longrightarrow> n = 3 \<and> (q \<noteq> 24 \<or> c = 3))"
proof -
  have c: "0 \<le> c \<and> c \<le> 3 \<and> 0 \<le> r1 \<and> (r1 < 36524 \<or> c = 3 \<and> r1 = 36524)"
    using assms(1,2) unfolding c_def r1_def by linarith
  have q: "0 \<le> q \<and> q \<le> 24 \<and> 0 \<le> r2 \<and> r2 < 1461 \<and> (q = 24 \<longrightarrow> c = 3 \<or> r2 < 1460)"
    using c unfolding q_def r2_def by linarith
  have n: "0 \<le> n \<and> n \<le> 3 \<and> 0 \<le> r2 - 365 * n \<and> r2 - 365 * n \<le> 365 \<and> (r2 - 365 * n = 365 \<longrightarrow> n = 3 \<and> r2 = 1460)"
    using q unfolding n_def by linarith
  show ?thesis using c q n by auto
qed

text \<open>The day of the year, counted from March, and its month.\<close>

lemma month_bounds:
  fixes doy :: int
  assumes "0 \<le> doy" "doy \<le> 365"
  defines "mp \<equiv> (5 * doy + 2) div 153"
  shows "0 \<le> mp \<and> mp \<le> 11 \<and> (153 * mp + 2) div 5 \<le> doy \<and>
    (mp = 11 \<longrightarrow> doy - (153 * mp + 2) div 5 + 1 = doy - 336) \<and>
    (mp \<noteq> 11 \<longrightarrow> doy - (153 * mp + 2) div 5 + 1 \<le> (if mp \<in> {1, 3, 6, 8} then 30 else 31))"
proof -
  have "0 \<le> mp" "mp \<le> 11" using assms(1,2) unfolding mp_def by linarith+
  then have "mp \<in> {0, 1, 2, 3, 4, 5, 6, 7, 8, 9, 10, 11}"
    by (simp only: insert_iff empty_iff) presburger
  moreover have "153 * mp \<le> 5 * doy + 2" "5 * doy + 2 < 153 * mp + 153" unfolding mp_def by linarith+
  ultimately show ?thesis by auto
qed

lemma civil_of_days:
  assumes "civil_of_days days = (y, m, d)"
  shows "days_of_civil y m d = days \<and> 1 \<le> m \<and> m \<le> 12 \<and> 1 \<le> d \<and> d \<le> daysIn m y"
proof -
  define z where "z = days + 306"
  define era r where "era = z div 146097" and "r = z mod 146097"
  define c where "c = min 3 (r div 36524)"
  define r1 where "r1 = r - 36524 * c"
  define q where "q = r1 div 1461"
  define r2 where "r2 = r1 - 1461 * q"
  define n where "n = min 3 (r2 div 365)"
  define doy where "doy = r2 - 365 * n"
  define mp where "mp = (5 * doy + 2) div 153"
  have "0 \<le> r" "r < 146097" unfolding r_def by simp_all
  note b = cycle_bounds [OF this, folded c_def, folded r1_def, folded q_def, folded r2_def, folded n_def, folded doy_def]
  have "0 \<le> doy" "doy \<le> 365" using b by blast+
  note mb = month_bounds [OF this, folded mp_def]
  define y' where "y' = 400 * era + 100 * c + 4 * q + n"
  have m: "m = (if mp < 10 then mp + 3 else mp - 9)" and d: "d = doy - (153 * mp + 2) div 5 + 1"
    and y: "y = y' + (if m \<le> 2 then 1 else 0)"
    using assms [unfolded civil_of_days_def Let_def, folded z_def, folded era_def r_def, folded c_def, folded r1_def,
      folded q_def, folded r2_def, folded n_def, folded doy_def, folded mp_def, folded y'_def] by auto
  have m_cases: "(if m \<le> 2 then m + 9 else m - 3) = mp" "(if m \<le> 2 then y - 1 else y) = y'" using mb by (auto simp: m y)
  have "y' div 400 = era" "y' div 100 = 4 * era + c" "y' div 4 = 100 * era + 25 * c + q"
    using b unfolding y'_def by linarith+
  then have "365 * y' + y' div 4 - y' div 100 + y' div 400 + doy = z"
    unfolding y'_def doy_def r2_def r1_def r_def era_def by (simp add: minus_mult_div_eq_mod algebra_simps)
  then have days: "days_of_civil y m d = days"
    unfolding days_of_civil_def Let_def m_cases d z_def by simp
  have leap: "is_leap (y' + 1)" if "n = 3" "q \<noteq> 24 \<or> c = 3"
  proof -
    have y1: "y' + 1 = 4 * (100 * era + 25 * c + q + 1)" "c = 3 \<Longrightarrow> q = 24 \<Longrightarrow> y' + 1 = 400 * (era + 1)"
      "y' + 1 = (4 * q + 4) + 100 * (4 * era + c)" using that(1) by (simp_all add: y'_def)
    have "(y' + 1) mod 4 = 0" by (subst y1(1)) (rule mod_mult_self1_is_0)
    moreover have "(y' + 1) mod 400 = 0" if "c = 3" "q = 24" by (subst y1(2) [OF that]) (rule mod_mult_self1_is_0)
    moreover have "(y' + 1) mod 100 \<noteq> 0" if "q \<noteq> 24"
    proof -
      have "(y' + 1) mod 100 = (4 * q + 4) mod 100" by (subst y1(3)) (rule mod_mult_self2)
      also have "\<dots> = 4 * q + 4" using b that by (intro mod_pos_pos_trivial) linarith+
      finally show ?thesis using b by linarith
    qed
    ultimately show ?thesis using that(2) unfolding is_leap_def by (cases "q = 24") auto
  qed
  have "d \<le> daysIn m y"
  proof (cases "mp = 11")
    case True
    then have "d = doy - 336" "m = 2" "y = y' + 1" using mb by (auto simp: m d y)
    then show ?thesis using b leap \<open>doy \<le> 365\<close> by (auto simp: daysIn_def)
  next
    case False
    then have "m \<noteq> 2" "m \<in> {4, 6, 9, 11} \<longleftrightarrow> mp \<in> {1, 3, 6, 8}" using mb by (auto simp: m)
    then show ?thesis using mb False by (simp add: daysIn_def d)
  qed
  then show ?thesis using days mb by (auto simp: m d)
qed

lemma length_Itoa: "0 < w \<Longrightarrow> n < 10 ^ w \<Longrightarrow> length (Itoa n) \<le> w"
proof (induction w arbitrary: n)
  case (Suc w)
  show ?case
  proof (cases "n < 10")
    case False
    with Suc.prems have "n div 10 < 10 ^ w" "0 < w" by (auto simp: less_mult_imp_div_less mult.commute intro: gr0I)
    from Suc.IH [OF this(2,1)] False show ?thesis by (subst Itoa.simps) simp
  qed (subst Itoa.simps, simp)
qed simp

lemma digits_zeros: "digits (replicate k (CHR ''0'')) n = n * 10 ^ k"
  by (induction k arbitrary: n) (simp_all add: digit_val_def byte_def)

lemma digit_zero [simp]: "is_digit (CHR ''0'')"
  by (simp add: is_digit_def byte_def)

lemma appendInt_digits:
  assumes "0 \<le> n" "n < 10 ^ w" "0 < w"
  shows "length (appendInt w n) = w \<and> list_all is_digit (appendInt w n) \<and> digits (appendInt w n) 0 = nat n"
proof -
  have "nat n < 10 ^ w" using assms(1,2) by (simp add: nat_less_iff)
  then have "length (Itoa (nat n)) \<le> w" using assms(3) by (intro length_Itoa)
  then show ?thesis using assms(1) Itoa_digits [of "nat n"]
    by (auto simp: appendInt_def Let_def digits_append digits_zeros list_all_iff)
qed

lemma fixnum_appendInt [simp]:
  "0 \<le> n \<Longrightarrow> n < 10 ^ w \<Longrightarrow> 0 < w \<Longrightarrow> fixnum w (appendInt w n @ r) = Some (n, r)"
  using appendInt_digits [of n w] by (simp add: fixnum_def)

lemma fixnum_appendInt_2 [simp]: "0 \<le> n \<Longrightarrow> n < 100 \<Longrightarrow> fixnum 2 (appendInt 2 n @ r) = Some (n, r)"
  by (rule fixnum_appendInt) simp_all

lemma parse_hour_appendInt [simp]: "0 \<le> n \<Longrightarrow> n < 100 \<Longrightarrow> parse_hour (appendInt 2 n @ r) = Some (n, r)"
  by (simp add: parse_hour_def)

lemma accept_Cons [simp]: "accept c (c # r) = Some r"
  by (simp add: accept_def)

lemma trim_zeros_split: "\<exists>k. s = trim_zeros s @ replicate k (CHR ''0'')"
proof -
  have "takeWhile (\<lambda>c. c = CHR ''0'') (rev s) = replicate (length (takeWhile (\<lambda>c. c = CHR ''0'') (rev s))) (CHR ''0'')"
    by (metis (full_types) replicate_eqI set_takeWhileD)
  then have "rev s = replicate (length (takeWhile (\<lambda>c. c = CHR ''0'') (rev s))) (CHR ''0'') @ dropWhile (\<lambda>c. c = CHR ''0'') (rev s)"
    by (metis takeWhile_dropWhile_id)
  then show ?thesis unfolding trim_zeros_def by (metis rev_append rev_replicate rev_rev_ident)
qed

lemma parse_fraction_fraction:
  assumes "0 \<le> ns" "ns < 1000000000" "r = [] \<or> \<not> is_digit (hd r)" "r \<noteq> [] \<longrightarrow> hd r \<notin> {CHR ''.'', CHR '',''}"
  shows "parse_fraction (fraction ns @ r) = (ns, r)"
proof (cases "ns = 0")
  case True
  then show ?thesis using assms(4) by (auto simp: fraction_def parse_fraction_def split: list.splits)
next
  case False
  let ?s = "appendInt 9 ns" and ?p = "trim_zeros (appendInt 9 ns)"
  have s: "length ?s = 9" "list_all is_digit ?s" "digits ?s 0 = nat ns" using appendInt_digits [of ns 9] assms(1,2) by auto
  obtain k where k: "?s = ?p @ replicate k (CHR ''0'')" using trim_zeros_split by blast
  have "length (?p @ replicate k (CHR ''0'')) = 9" "digits (?p @ replicate k (CHR ''0'')) 0 = nat ns"
    "list_all is_digit (?p @ replicate k (CHR ''0''))"
    using s k by simp_all
  then have p: "length ?p + k = 9" "digits ?p 0 * 10 ^ k = nat ns" "list_all is_digit ?p"
    by (simp_all add: digits_append digits_zeros list_all_append)
  have "?p \<noteq> []" using p(2) False assms(1) by auto
  then obtain d t where dt: "?p = d # t" by (cases ?p) auto
  have w: "takeWhile is_digit (?p @ r) = ?p" "dropWhile is_digit (?p @ r) = r"
    using p(3) assms(3) by (cases r; auto simp: list_all_iff takeWhile_append dropWhile_append)+
  have "parse_fraction (''.'' @ ?p @ r) = (int (digits ?p 0) * 10 ^ (9 - length ?p), r)"
    using w p(1,3) unfolding dt by (simp add: parse_fraction_def)
  also have "int (digits ?p 0) * 10 ^ (9 - length ?p) = ns"
  proof -
    have "9 - length ?p = k" using p(1) by simp
    then show ?thesis using arg_cong [OF p(2), of int] assms(1) by simp
  qed
  finally show ?thesis using False by (simp add: fraction_def)
qed

lemma time_Unmarshal_text:
  assumes "0 \<le> y" "y < 10 ^ 4" "1 \<le> m" "m \<le> 12" "1 \<le> d" "d \<le> daysIn m y"
    "0 \<le> hh" "hh \<le> 23" "0 \<le> mi" "mi \<le> 59" "0 \<le> se" "se \<le> 59" "0 \<le> ns" "ns < 1000000000"
  shows "time_Unmarshal (appendInt 4 y @ ''-'' @ appendInt 2 m @ ''-'' @ appendInt 2 d @ ''T'' @
      appendInt 2 hh @ '':'' @ appendInt 2 mi @ '':'' @ appendInt 2 se @ fraction ns @ ''Z'') =
    Some \<lparr>tm_ns = (days_of_civil y m d * 86400 + (hh * 3600 + mi * 60 + se)) * 1000000000 + ns, tm_loc = UTC\<rparr>"
proof -
  have d: "d < 100" using assms(5,6) by (auto simp: daysIn_def split: if_splits)
  have f: "parse_fraction (fraction ns @ ''Z'') = (ns, ''Z'')"
    using assms(13,14) by (rule parse_fraction_fraction) (simp_all add: is_digit_def byte_def)
  show ?thesis using assms d f
    by (simp add: time_Unmarshal_def parse_zone_def zone_offset_def)
qed

theorem time_Unmarshal_Marshal:
  assumes "time_Marshal t = Some s" "tm_loc t = UTC"
  shows "time_Unmarshal s = Some t"
proof -
  define secs where "secs = tm_ns t div 1000000000"
  define tod where "tod = secs mod 86400"
  obtain y m d where c: "civil_of_days (secs div 86400) = (y, m, d)" by (cases "civil_of_days (secs div 86400)")
  note b = civil_of_days [OF c]
  have off: "zone_offset t = 0" "local_seconds t = secs" using assms(2) by (simp_all add: zone_offset_def local_seconds_def secs_def)
  have y: "0 \<le> y" "y < 10 ^ 4" and s: "s = format_RFC3339Nano t"
    using assms(1) c by (auto simp: time_Marshal_def off Let_def split: if_splits)
  have tod: "0 \<le> tod" "tod < 86400" by (simp_all add: tod_def)
  then have h: "0 \<le> tod div 3600" "tod div 3600 \<le> 23" "0 \<le> tod div 60 mod 60" "tod div 60 mod 60 \<le> 59" "0 \<le> tod mod 60" "tod mod 60 \<le> 59"
    by (simp_all add: pos_imp_zdiv_nonneg_iff)
  have eq: "tod div 3600 * 3600 + tod div 60 mod 60 * 60 + tod mod 60 = tod"
  proof -
    have "tod div 3600 = tod div 60 div 60" using zdiv_zmult2_eq [of 60 tod 60] by simp
    then show ?thesis using div_mult_mod_eq [of tod 60] div_mult_mod_eq [of "tod div 60" 60] by linarith
  qed
  have "secs div 86400 * 86400 + tod = secs" "secs * 1000000000 + tm_ns t mod 1000000000 = tm_ns t"
    by (simp_all add: tod_def secs_def)
  moreover have "s = appendInt 4 y @ ''-'' @ appendInt 2 m @ ''-'' @ appendInt 2 d @ ''T'' @
      appendInt 2 (tod div 3600) @ '':'' @ appendInt 2 (tod div 60 mod 60) @ '':'' @ appendInt 2 (tod mod 60) @
      fraction (tm_ns t mod 1000000000) @ ''Z''"
    unfolding s format_RFC3339Nano_def off Let_def c tod_def by (simp add: format_zone_def)
  ultimately show ?thesis
    using time_Unmarshal_text [OF y _ _ _ _ h, of m d "tm_ns t mod 1000000000"] b assms(2) unfolding eq by simp
qed

end
