(* ===== verification/Layout.thy ===== *)
theory Layout
  imports Go_Sha256 Go_Time Contracts
begin

text \<open>
  \<open>internal/persistence/layout.go\<close>: the names of destinations, topics, subscriptions and
  consumers, derived from URLs by SHA-256.
\<close>

abbreviation StateEventsDestination :: Destination where "StateEventsDestination \<equiv> ''websub-events''"
abbreviation StateSnapshotsDestination :: Destination where "StateSnapshotsDestination \<equiv> ''websub-events-snapshots''"
abbreviation DeliveryDLQDestination :: Destination where "DeliveryDLQDestination \<equiv> ''websub-delivery-dlq''"
abbreviation ConsolidatorConsumerID :: ConsumerID where "ConsolidatorConsumerID \<equiv> ''state-consolidator''"

definition digest :: "string \<Rightarrow> string" where
  "digest v = hex_EncodeToString (sha256_Sum256 v)"

text \<open>What \<open>writeField\<close> feeds the hash: the length as eight bytes, then the text.\<close>

definition writeField :: "string \<Rightarrow> string" where
  "writeField v = be_bytes 8 (length v) @ v"

definition digest_input :: "string \<Rightarrow> string \<Rightarrow> gtime \<Rightarrow> string" where
  "digest_input topic callback original =
     writeField topic @ writeField callback @ writeField (format_RFC3339Nano (time_UTC original))"

definition ContentDestination_of :: "string \<Rightarrow> Destination result" where
  "ContentDestination_of topic =
     (if topic = [] then Inl (Error ''topic URL is required'') else Inr (''websub-topic-'' @ digest topic))"

definition TopicID :: "string \<Rightarrow> string result" where
  "TopicID topic =
     (if topic = [] then Inl (Error ''topic URL is required'') else Inr (''topic-'' @ digest topic))"

definition HubStateConsumerID :: "string \<Rightarrow> ConsumerID result" where
  "HubStateConsumerID server =
     (if server = [] then Inl (Error ''server ID is required'') else Inr (''state-hub-'' @ digest server))"

definition subscriptionDigest :: "string \<Rightarrow> string \<Rightarrow> gtime \<Rightarrow> string result" where
  "subscriptionDigest topic callback original =
     (if topic = [] \<or> callback = [] \<or> time_IsZero original
      then Inl (Error ''topic, callback, and original subscription time are required'')
      else Inr (hex_EncodeToString (sha256_Sum256 (digest_input topic callback original))))"

definition SubscriptionID :: "string \<Rightarrow> string \<Rightarrow> gtime \<Rightarrow> string result" where
  "SubscriptionID topic callback original =
     (case subscriptionDigest topic callback original of
        Inl e \<Rightarrow> Inl e | Inr v \<Rightarrow> Inr (''subscription-'' @ v))"

definition SubscriptionConsumerID :: "string \<Rightarrow> string \<Rightarrow> gtime \<Rightarrow> ConsumerID result" where
  "SubscriptionConsumerID topic callback original =
     (case subscriptionDigest topic callback original of
        Inl e \<Rightarrow> Inl e | Inr v \<Rightarrow> Inr (''delivery-'' @ v))"

section \<open>Names are as unique as the hash\<close>

lemma writeField_inject:
  assumes "length u < 2 ^ 64" "length v < 2 ^ 64" "writeField u @ x = writeField v @ y"
  shows "u = v \<and> x = y"
proof -
  have "be_bytes 8 (length u) = be_bytes 8 (length v)" "u @ x = v @ y"
    using assms(3) by (simp_all add: writeField_def)
  then show ?thesis using be_bytes_inject [of "length u" 8 "length v"] assms(1,2) by simp
qed

lemma digest_input_inject:
  assumes "length t < 2 ^ 64" "length t' < 2 ^ 64" "length c < 2 ^ 64" "length c' < 2 ^ 64"
    "digest_input t c w = digest_input t' c' w'"
  shows "t = t' \<and> c = c' \<and>
    format_RFC3339Nano (time_UTC w) = format_RFC3339Nano (time_UTC w')"
proof -
  have *: "t = t' \<and> writeField c @ writeField (format_RFC3339Nano (time_UTC w)) =
             writeField c' @ writeField (format_RFC3339Nano (time_UTC w'))"
    using assms(5) unfolding digest_input_def by (rule writeField_inject [OF assms(1,2)])
  then have "c = c' \<and> writeField (format_RFC3339Nano (time_UTC w)) =
             writeField (format_RFC3339Nano (time_UTC w'))"
    by (intro writeField_inject [OF assms(3,4)]) simp
  with * show ?thesis by (simp add: writeField_def)
qed

text \<open>Two subscriptions get the same identifier, or the same consumer, only when topic, callback and
  subscription time agree, or when the hashed texts are a collision of SHA-256.\<close>

theorem SubscriptionID_unique:
  assumes "length t < 2 ^ 64" "length t' < 2 ^ 64" "length c < 2 ^ 64" "length c' < 2 ^ 64"
    and "SubscriptionID t c w = Inr i \<and> SubscriptionID t' c' w' = Inr i \<or>
         SubscriptionConsumerID t c w = Inr i \<and> SubscriptionConsumerID t' c' w' = Inr i"
  shows "(t = t' \<and> c = c' \<and> format_RFC3339Nano (time_UTC w) = format_RFC3339Nano (time_UTC w')) \<or>
         (digest_input t c w \<noteq> digest_input t' c' w' \<and>
          sha256_Sum256 (digest_input t c w) = sha256_Sum256 (digest_input t' c' w'))"
proof -
  have "sha256_Sum256 (digest_input t c w) = sha256_Sum256 (digest_input t' c' w')"
    using assms(5)
    by (auto simp: SubscriptionID_def SubscriptionConsumerID_def subscriptionDigest_def hex_inject
        split: if_splits sum.splits)
  then show ?thesis using digest_input_inject [OF assms(1-4)] by blast
qed

theorem SubscriptionID_unique_witness:
  "digest_input ''a'' ''b'' \<lparr>tm_ns = 1, tm_loc = UTC\<rparr> = digest_input ''a'' ''b'' \<lparr>tm_ns = 1, tm_loc = Zone ''x'' 3600\<rparr>"
proof -
  let ?w = "\<lparr>tm_ns = 1, tm_loc = UTC\<rparr>" and ?w' = "\<lparr>tm_ns = 1, tm_loc = Zone ''x'' 3600\<rparr>"
  have "SubscriptionID ''a'' ''b'' ?w = SubscriptionID ''a'' ''b'' ?w'"
    by (simp add: SubscriptionID_def subscriptionDigest_def time_IsZero_def digest_input_def time_UTC_def)
  moreover obtain i where "SubscriptionID ''a'' ''b'' ?w = Inr i"
    by (simp add: SubscriptionID_def subscriptionDigest_def time_IsZero_def)
  ultimately have "format_RFC3339Nano (time_UTC ?w) = format_RFC3339Nano (time_UTC ?w') \<or>
      digest_input ''a'' ''b'' ?w \<noteq> digest_input ''a'' ''b'' ?w'"
    using SubscriptionID_unique [of "''a''" "''a''" "''b''" "''b''" ?w i ?w'] by auto
  then show ?thesis by (auto simp: digest_input_def time_UTC_def)
qed

text \<open>Topic identifiers, content destinations and hub consumers are as unique as SHA-256: distinct URLs
  or server identifiers with the same name are a collision.\<close>

lemma layout_names_unique:
  assumes "TopicID a = Inr n \<and> TopicID b = Inr n \<or>
           ContentDestination_of a = Inr n \<and> ContentDestination_of b = Inr n \<or>
           HubStateConsumerID a = Inr n \<and> HubStateConsumerID b = Inr n"
  shows "a = b \<or> (a \<noteq> b \<and> sha256_Sum256 a = sha256_Sum256 b)"
  using assms
  by (auto simp: TopicID_def ContentDestination_of_def HubStateConsumerID_def digest_def hex_inject split: if_splits)

end
