(* ===== verification/Kafka_Consumer.thy ===== *)
theory Kafka_Consumer
  imports Kafka_Options Layout Consumer_Contract
begin

text \<open>
  The Kafka consumer (\<open>kafka/consumer.go\<close>). The franz-go client is a parameter: what it
  answers to one call of an operation is the record \<open>kafka_env\<close>, and the calls that change its
  state are returned as a list. Waiting for a redelivery delay ends with the delay or with the context.
\<close>

section \<open>Client\<close>

record EpochOffset =
  eo_Epoch :: int
  eo_Offset :: int

datatype kgo_Offset = AtStart | AtEnd | At int

text \<open>A poll result: topic, partition and high watermark of each fetched partition in the order of
  iteration, the fetch errors, and the records.\<close>

record kgo_Fetches =
  f_parts :: "(string \<times> int \<times> int) list"
  f_errors :: "goerr list"
  f_records :: "kgo_Record list"

type_synonym positions = "(int, EpochOffset) fmap gomap"

definition offset_at :: "positions \<Rightarrow> string \<Rightarrow> int \<Rightarrow> EpochOffset option" where
  "offset_at ps topic part = mget (mget ps topic) part"

datatype kgo_Opt =
    CommonOptions Config
  | ConsumePartitions string "(int \<times> kgo_Offset) list"
  | DisableAutoCommit
  | BlockRebalanceOnPoll
  | ConsumerGroup string
  | ConsumeTopics string
  | ConsumeResetOffset kgo_Offset

datatype kafka_call =
    NewClient "kgo_Opt list"
  | AllowRebalance
  | ClientClose
  | CommitRecords kgo_Record
  | CommitOffsets string string int int int
  | ProduceSync kgo_Record
  | SetOffsets string int EpochOffset
  | DeleteGroup string

record kafka_env =
  env_now :: int
  env_cancelled :: "goerr option"
  env_poll :: kgo_Fetches
  env_before :: positions
  env_after :: positions
  env_committed :: positions
  env_polled_assigned :: "int fset option"
  env_ends :: "(goerr option \<times> (int, int) fmap) list"
  env_lookup_done :: goerr
  env_commit :: "kgo_Record \<Rightarrow> goerr option"
  env_produce :: "kgo_Record \<Rightarrow> goerr option"
  env_dlq :: Producer
  env_fetch_err :: "goerr option"
  env_offsets :: "int \<Rightarrow> (goerr option \<times> int) option"
  env_open :: "goerr option"
  env_delete_group :: "goerr option"

section \<open>State\<close>

record pendingRecord =
  p_record :: kgo_Record
  p_receipt :: Receipt
  p_message :: Message

record Consumer =
  kc_config :: Config
  kc_spec :: ConsumerSpec
  kc_metadata :: ConsumerMetadata
  pending :: "pendingRecord list"
  nextReceipt :: "64 word"
  delivered :: nat
  notBefore :: int
  kc_closed :: bool
  kc_permanent :: bool
  kc_group :: string
  kc_shared :: bool
  directPartitions :: "int list"
  assigned :: "int fset option"
  established :: "(int, EpochOffset) fmap"

definition groupName :: "ConsumerID \<Rightarrow> string" where
  "groupName cid = ''websubhub-'' @ hex_EncodeToString (sha256_Sum256 cid)"

definition assigned_set :: "Consumer \<Rightarrow> int fset" where
  "assigned_set c = (case assigned c of None \<Rightarrow> {||} | Some ps \<Rightarrow> ps)"

section \<open>Opening\<close>

fun direct_loop :: "kafka_env \<Rightarrow> kgo_Offset \<Rightarrow> int list \<Rightarrow> (int \<times> kgo_Offset) list result" where
  "direct_loop env reset [] = Inr []"
| "direct_loop env reset (part # ps) =
     (case (case env_offsets env part of
              None \<Rightarrow> Inr reset
            | Some (Some err, _) \<Rightarrow> Inl err
            | Some (None, pos) \<Rightarrow> Inr (if 0 \<le> pos then At pos else reset)) of
        Inl err \<Rightarrow> Inl err
      | Inr offset \<Rightarrow>
          (case direct_loop env reset ps of Inl err \<Rightarrow> Inl err | Inr os \<Rightarrow> Inr ((part, offset) # os)))"

definition directOffsets :: "kafka_env \<Rightarrow> Consumer \<Rightarrow> kgo_Offset \<Rightarrow> (int \<times> kgo_Offset) list result" where
  "directOffsets env c reset =
     (case env_fetch_err env of
        Some err \<Rightarrow> if errors_is err GroupIDNotFound then direct_loop env reset (directPartitions c) else Inl err
      | None \<Rightarrow> direct_loop env reset (directPartitions c))"

definition consumerOptions ::
  "Config \<Rightarrow> ConsumerSpec \<Rightarrow> kgo_Offset \<Rightarrow> string \<Rightarrow> (int \<times> kgo_Offset) list option \<Rightarrow> kgo_Opt list" where
  "consumerOptions config spec reset grp direct =
     (case direct of
        Some offsets \<Rightarrow> [CommonOptions config, ConsumePartitions (spec_Destination spec) offsets]
      | None \<Rightarrow> [CommonOptions config, DisableAutoCommit, BlockRebalanceOnPoll, ConsumerGroup grp,
                  ConsumeTopics (spec_Destination spec), ConsumeResetOffset reset])"

definition openClient :: "kafka_env \<Rightarrow> Consumer \<Rightarrow> kafka_call list \<times> goerr option" where
  "openClient env c =
     (let reset = (if spec_StartPosition (kc_spec c) = StartEarliest then AtStart else AtEnd) in
      case (if directPartitions c = [] then Inr None
            else case directOffsets env c reset of Inl err \<Rightarrow> Inl err | Inr os \<Rightarrow> Inr (Some os)) of
        Inl err \<Rightarrow> ([], Some err)
      | Inr direct \<Rightarrow>
          ([NewClient (consumerOptions (kc_config c) (kc_spec c) reset (kc_group c) direct)], env_open env))"

text \<open>The callback \<open>OnPartitionsAssigned\<close>.\<close>

definition on_assigned :: "int fset \<Rightarrow> Consumer \<Rightarrow> Consumer" where
  "on_assigned ps c = c\<lparr>assigned := Some ps\<rparr>"

definition newConsumer :: "kafka_env \<Rightarrow> Config \<Rightarrow> ConsumerSpec \<Rightarrow> kafka_call list \<times> Consumer result" where
  "newConsumer env config spec =
     (case ValidateConsumerSpec spec of
        Some e \<Rightarrow> ([], Inl e)
      | None \<Rightarrow>
        let options = (case spec_Subscription spec of
                None \<Rightarrow> \<lparr>opt_Parameters = None\<rparr> | Some o1 \<Rightarrow> options_Clone o1) in
        (case parseSubscriptionOptions options of
           Inl e \<Rightarrow> ([], Inl e)
         | Inr sub \<Rightarrow>
           let c = \<lparr>kc_config = config, kc_spec = spec,
                 kc_metadata = \<lparr>meta_ID = spec_ID spec, meta_Destination = spec_Destination spec,
                   meta_StartPosition = spec_StartPosition spec\<rparr>,
                 pending = [], nextReceipt = 0, delivered = 0, notBefore = 0, kc_closed = False, kc_permanent = False,
                 kc_group = (if cfg_group sub \<noteq> [] then cfg_group sub else groupName (spec_ID spec)),
                 kc_shared = (cfg_group sub \<noteq> []), directPartitions = cfg_partitions sub,
                 assigned = (if cfg_partitions sub = [] then None else Some (fset_of_list (cfg_partitions sub))),
                 established = fmempty\<rparr>
           in case openClient env c of (calls, Some e) \<Rightarrow> (calls, Inl e) | (calls, None) \<Rightarrow> (calls, Inr c)))"

section \<open>Receiving\<close>

text \<open>The records decode to pending entries with consecutive receipts.\<close>

fun appendFetched :: "kgo_Record list \<Rightarrow> Consumer \<Rightarrow> Consumer \<times> kafka_call list \<times> goerr option" where
  "appendFetched [] c = (c, [], None)"
| "appendFetched (r # rs) c =
     (case decodeRecord r of
        Inl err \<Rightarrow> (c, [AllowRebalance], Some err)
      | Inr message \<Rightarrow>
          let next1 = nextReceipt c + 1;
              receipt = \<lparr>rcpt_Consumer = spec_ID (kc_spec c), rcpt_Value = Itoa (unat next1)\<rparr>
          in appendFetched rs (c\<lparr>nextReceipt := next1,
               pending := pending c @ [\<lparr>p_record = r, p_receipt = receipt, p_message = message\<rparr>]\<rparr>))"

fun caught_up_parts :: "positions \<Rightarrow> (string \<times> int \<times> int) list \<Rightarrow> bool" where
  "caught_up_parts ps [] = True"
| "caught_up_parts ps ((topic, part, high) # rest) =
     (case offset_at ps topic part of
        None \<Rightarrow> False
      | Some pos \<Rightarrow> if eo_Offset pos < high then False else caught_up_parts ps rest)"

definition kafkaCaughtUp :: "kgo_Fetches \<Rightarrow> positions \<Rightarrow> bool" where
  "kafkaCaughtUp fetches ps = (caught_up_parts ps (f_parts fetches) \<and> 0 < length (f_parts fetches))"

definition release_if_empty :: "Consumer \<Rightarrow> kafka_call list" where
  "release_if_empty c = (if pending c = [] then [AllowRebalance] else [])"

definition hand_out :: "pendingRecord \<Rightarrow> ReceivedMessage" where
  "hand_out p = \<lparr>rcv_Message = p_message p, rcv_Receipt = p_receipt p\<rparr>"

definition Consumer_Receive ::
  "kafka_env \<Rightarrow> int \<Rightarrow> Consumer \<Rightarrow> Consumer \<times> kafka_call list \<times> ReceiveBatch result" where
  "Consumer_Receive env max1 c =
     (if kc_closed c then (c, [], Inl ErrClosed)
      else if max1 < 1 then (c, [], Inl (Error ''receive maximum must be positive''))
      else if 0 < notBefore c - env_now env \<and> env_cancelled env \<noteq> None
      then (c, [], Inl (the (env_cancelled env)))
      else case
         (if delivered c = length (pending c)
          then if f_errors (env_poll env) \<noteq> [] then (c, [], Inl (Joined (f_errors (env_poll env))))
               else case appendFetched (f_records (env_poll env)) c of
                   (c', calls, Some err) \<Rightarrow> (c', calls, Inl err)
                 | (c', calls, None) \<Rightarrow>
                     (c', calls @ release_if_empty c', Inr (kafkaCaughtUp (env_poll env) (env_after env)))
          else (c, [], Inr False)) of
          (c', calls, Inl err) \<Rightarrow> (c', calls, Inl err)
        | (c', calls, Inr caughtUp) \<Rightarrow>
            let last1 = min (delivered c' + nat max1) (length (pending c'));
                batch = map hand_out (take (last1 - delivered c') (drop (delivered c') (pending c')))
            in (c'\<lparr>delivered := last1\<rparr>, calls,
                Inr \<lparr>Messages = batch, CaughtUp = caughtUp \<and> last1 = length (pending c')\<rparr>))"

section \<open>Catching up\<close>

text \<open>\<open>listEndOffsets\<close> asks again while the topic is not known yet, until its ten seconds are over:
  the list holds the answers given in that time, an empty list is the end of the time.\<close>

fun listEndOffsets :: "goerr \<Rightarrow> (goerr option \<times> (int, int) fmap) list \<Rightarrow> (int, int) fmap result" where
  "listEndOffsets done1 [] = Inl done1"
| "listEndOffsets done1 ((None, ends) # _) = Inr ends"
| "listEndOffsets done1 ((Some err, _) # rest) =
     (if \<not> errors_is err UnknownTopicOrPartition \<and> \<not> errors_is err LeaderNotAvailable then Inl err
      else listEndOffsets done1 rest)"

text \<open>The position of one partition: where the client stands, else what was established before, else the
  committed offset (asked only when the partition is not empty), else the start position.
  The flag says whether the offset has to be set in the client.\<close>

definition usable :: "EpochOffset option \<Rightarrow> bool" where
  "usable pos = (case pos of None \<Rightarrow> False | Some o1 \<Rightarrow> 0 \<le> eo_Offset o1)"

definition start_offset :: "ConsumerSpec \<Rightarrow> int \<Rightarrow> EpochOffset" where
  "start_offset spec last1 =
     \<lparr>eo_Epoch = 0, eo_Offset = (if spec_StartPosition spec = StartLatest then last1 else 0)\<rparr>"

definition partition_position :: "positions \<Rightarrow> positions \<Rightarrow> Consumer \<Rightarrow> int \<Rightarrow> int \<Rightarrow> bool \<Rightarrow> EpochOffset \<times> bool" where
  "partition_position current committed c part last1 asked =
     (let dest = spec_Destination (kc_spec c);
          pos = offset_at current dest part;
          pos1 = (if usable pos then pos
                  else case fmlookup (established c) part of Some e \<Rightarrow> Some e | None \<Rightarrow> pos)
      in if usable pos1 then (the pos1, False)
         else let com = (if 0 < last1 \<or> asked then offset_at committed dest part else None)
              in (if usable com then the com else start_offset (kc_spec c) last1, True))"

fun caught_up_loop ::
  "positions \<Rightarrow> positions \<Rightarrow> (int, int) fmap \<Rightarrow> int list \<Rightarrow> bool \<Rightarrow> Consumer \<Rightarrow>
   Consumer \<times> kafka_call list \<times> bool result" where
  "caught_up_loop current committed ends [] asked c = (c, [], Inr True)"
| "caught_up_loop current committed ends (part # ps) asked c =
     (case fmlookup ends part of
        None \<Rightarrow> (c, [], Inl (Error ''Kafka returned no end offset for assigned partition''))
      | Some last1 \<Rightarrow>
          (case partition_position current committed c part last1 asked of
             (pos, fresh) \<Rightarrow>
               let c' = (if fresh then c\<lparr>established := fmupd part pos (established c)\<rparr> else c);
                   calls = (if fresh then [SetOffsets (spec_Destination (kc_spec c)) part pos] else [])
               in if eo_Offset pos < last1 then (c', calls, Inr False)
                  else case caught_up_loop current committed ends ps (asked \<or> fresh \<and> 0 < last1) c' of
                      (c'', calls', res) \<Rightarrow> (c'', calls @ calls', res)))"

text \<open>The poll that waits for a first assignment; errors of its own deadline are no errors.\<close>

definition first_poll :: "kafka_env \<Rightarrow> Consumer \<Rightarrow> Consumer \<times> kafka_call list \<times> goerr option" where
  "first_poll env c =
     (let errs = filter (\<lambda>e. \<not> errors_is e Canceled \<and> \<not> errors_is e DeadlineExceeded) (f_errors (env_poll env));
          c0 = (case env_polled_assigned env of None \<Rightarrow> c | Some ps \<Rightarrow> on_assigned ps c)
      in if errs \<noteq> [] then (c0, [], Some (Joined errs))
         else case env_cancelled env of
             Some err \<Rightarrow> (c0, [], Some err)
           | None \<Rightarrow>
               (case appendFetched (f_records (env_poll env)) c0 of
                  (c1, calls, Some err) \<Rightarrow> (c1, calls, Some err)
                | (c1, calls, None) \<Rightarrow> (c1, calls @ release_if_empty c1, None)))"

definition caught_up_check :: "kafka_env \<Rightarrow> positions \<Rightarrow> int list \<Rightarrow> Consumer \<Rightarrow> Consumer \<times> kafka_call list \<times> bool result" where
  "caught_up_check env current ord c =
     (case listEndOffsets (env_lookup_done env) (env_ends env) of
        Inl err \<Rightarrow> (c, [], Inl err)
      | Inr ends \<Rightarrow>
          if ends = fmempty
          then (c, [], Inl (Error ''Kafka returned no end offsets for consumer destination''))
          else if assigned_set c = {||} then (c, [], Inr False)
          else caught_up_loop current (env_committed env) ends ord False c)"

text \<open>\<open>ord\<close> is the order in which the assigned partitions are visited.\<close>

definition Consumer_CaughtUp ::
  "kafka_env \<Rightarrow> (int fset \<Rightarrow> int list) \<Rightarrow> Consumer \<Rightarrow> Consumer \<times> kafka_call list \<times> bool result" where
  "Consumer_CaughtUp env ord c =
     (if kc_closed c then (c, [], Inl ErrClosed)
      else if delivered c < length (pending c) then (c, [], Inr False)
      else if mlen (mget (env_before env) (spec_Destination (kc_spec c))) = 0 \<and> assigned_set c = {||}
      then case first_poll env c of
          (c1, calls, Some err) \<Rightarrow> (c1, calls, Inl err)
        | (c1, calls, None) \<Rightarrow>
            if delivered c1 < length (pending c1) then (c1, calls, Inr False)
            else (case caught_up_check env (env_after env) (ord (assigned_set c1)) c1 of
                    (c2, calls', res) \<Rightarrow> (c2, calls @ calls', res))
      else caught_up_check env (env_before env) (ord (assigned_set c)) c)"

section \<open>Settling\<close>

definition commitRecord :: "kafka_env \<Rightarrow> Consumer \<Rightarrow> kgo_Record \<Rightarrow> kafka_call list \<times> goerr option" where
  "commitRecord env c r =
     ([if directPartitions c = [] then CommitRecords r
       else CommitOffsets (kc_group c) (krec_Topic r) (Partition r) (Offset r + 1) (LeaderEpoch r)],
      env_commit env r)"

definition advanceEstablished :: "kgo_Record \<Rightarrow> Consumer \<Rightarrow> Consumer" where
  "advanceEstablished r c =
     c\<lparr>established := fmupd (Partition r) \<lparr>eo_Epoch = LeaderEpoch r, eo_Offset = Offset r + 1\<rparr> (established c)\<rparr>"

text \<open>The common tail of \<open>Ack\<close> and \<open>DeadLetter\<close>: commit the first pending record, then drop it.\<close>

definition settle :: "kafka_env \<Rightarrow> Consumer \<Rightarrow> Consumer \<times> kafka_call list \<times> goerr option" where
  "settle env c =
     (case commitRecord env c (p_record (hd (pending c))) of
        (calls, Some err) \<Rightarrow> (c, calls, Some err)
      | (calls, None) \<Rightarrow>
          let c' = (advanceEstablished (p_record (hd (pending c))) c)
                \<lparr>pending := tl (pending c), delivered := (if 0 < delivered c then delivered c - 1 else delivered c)\<rparr>
          in (c', calls @ release_if_empty c', None))"

definition Consumer_Ack :: "kafka_env \<Rightarrow> Receipt \<Rightarrow> Consumer \<Rightarrow> Consumer \<times> kafka_call list \<times> goerr option" where
  "Consumer_Ack env receipt c =
     (if kc_closed c then (c, [], Some ErrClosed)
      else if pending c = [] \<or> receipt \<noteq> p_receipt (hd (pending c)) then (c, [], Some ErrOutOfOrder)
      else settle env c)"

definition Consumer_Nack :: "kafka_env \<Rightarrow> Receipt \<Rightarrow> duration \<Rightarrow> Consumer \<Rightarrow> Consumer \<times> goerr option" where
  "Consumer_Nack env receipt delay c =
     (if kc_closed c then (c, Some ErrClosed)
      else if delay < 0 then (c, Some (Error ''negative redelivery delay''))
      else if pending c = [] \<or> receipt \<noteq> p_receipt (hd (pending c)) then (c, Some ErrOutOfOrder)
      else (c\<lparr>notBefore := env_now env + delay, delivered := 0\<rparr>, None))"

text \<open>The message published to the dead letter destination.\<close>

definition dead_letter_message :: "DeadLetter \<Rightarrow> Message" where
  "dead_letter_message l =
     (let m0 = Some (entries (Metadata (dl_Message l)));
          m1 = mput m0 ''failure-class'' (FailureClass l);
          m2 = mput m1 ''topic-id'' (dl_TopicID l);
          m3 = mput m2 ''subscription-id'' (dl_SubscriptionID l);
          m4 = mput m3 ''attempt'' (Itoa (unat (Attempt l)));
          m5 = (if dl_StorageError l \<noteq> [] then mput m4 ''storage-error'' (dl_StorageError l) else m4)
      in (dl_Message l)\<lparr>Metadata := m5\<rparr>)"

definition Consumer_DeadLetter ::
  "kafka_env \<Rightarrow> Receipt \<Rightarrow> DeadLetter \<Rightarrow> Consumer \<Rightarrow> Consumer \<times> kafka_call list \<times> goerr option" where
  "Consumer_DeadLetter env receipt letter c =
     (if kc_closed c then (c, [], Some ErrClosed)
      else if pending c = [] \<or> receipt \<noteq> p_receipt (hd (pending c)) then (c, [], Some ErrOutOfOrder)
      else if msg_ID (p_message (hd (pending c))) \<noteq> [] \<and>
              msg_ID (dl_Message letter) \<noteq> msg_ID (p_message (hd (pending c)))
      then (c, [], Some (Error ''dead-letter message does not match pending record''))
      else case Producer_Send (env_dlq env) (env_produce env) (dl_Destination letter) (dead_letter_message letter) of
          (sent, Some err) \<Rightarrow> (c, map ProduceSync sent, Some err)
        | (sent, None) \<Rightarrow>
            (case settle env c of (c', calls, err) \<Rightarrow> (c', map ProduceSync sent @ calls, err)))"

section \<open>Reconnecting and closing\<close>

definition Consumer_Reconnect :: "kafka_env \<Rightarrow> Consumer \<Rightarrow> Consumer \<times> kafka_call list \<times> goerr option" where
  "Consumer_Reconnect env c =
     (if kc_permanent c then (c, [], Some ErrClosed)
      else let c1 = c\<lparr>assigned := (if directPartitions c = [] then None
                                   else Some (fset_of_list (directPartitions c))),
                     established := fmempty\<rparr>
           in case openClient env c1 of
                (calls, Some err) \<Rightarrow> (c1\<lparr>kc_closed := True\<rparr>, [AllowRebalance, ClientClose] @ calls, Some err)
              | (calls, None) \<Rightarrow>
                  (c1\<lparr>pending := [], delivered := 0, kc_closed := False\<rparr>, [AllowRebalance, ClientClose] @ calls, None))"

definition Consumer_Close :: "kafka_env \<Rightarrow> ClosureIntent \<Rightarrow> Consumer \<Rightarrow> Consumer \<times> kafka_call list \<times> goerr option" where
  "Consumer_Close env intent c =
     (if intent \<noteq> CloseTemporary \<and> intent \<noteq> ClosePermanent then (c, [], Some (Error ''unknown closure intent''))
      else if intent = ClosePermanent \<and> kc_permanent c then (c, [], None)
      else let calls = (if kc_closed c then [] else [AllowRebalance, ClientClose]);
               c1 = c\<lparr>kc_closed := True\<rparr>
           in if intent \<noteq> ClosePermanent then (c1, calls, None)
              else if kc_shared c then (c1\<lparr>kc_permanent := True\<rparr>, calls, None)
              else case env_delete_group env of
                  None \<Rightarrow> (c1\<lparr>kc_permanent := True\<rparr>, calls @ [DeleteGroup (kc_group c)], None)
                | Some err \<Rightarrow> (c1, calls @ [DeleteGroup (kc_group c)], Some err))"

section \<open>The consumer contract\<close>

text \<open>The receipts of the pending records are the last ones handed out, in order.\<close>

definition receipt_no :: "Consumer \<Rightarrow> 64 word \<Rightarrow> Receipt" where
  "receipt_no c w = \<lparr>rcpt_Consumer = spec_ID (kc_spec c), rcpt_Value = Itoa (unat w)\<rparr>"

definition consecutive :: "Consumer \<Rightarrow> bool" where
  "consecutive c \<longleftrightarrow>
     map p_receipt (pending c) =
     map (\<lambda>i. receipt_no c (nextReceipt c - of_nat i)) (rev [0 ..< length (pending c)])"

definition kafka_inv :: "Consumer \<Rightarrow> bool" where
  "kafka_inv c \<longleftrightarrow> delivered c \<le> length (pending c) \<and> consecutive c"

definition kafka_pend :: "Consumer \<Rightarrow> ReceivedMessage list" where
  "kafka_pend c = map hand_out (pending c)"

lemma consecutive_snoc:
  assumes "consecutive c"
  shows "consecutive (c\<lparr>nextReceipt := nextReceipt c + 1,
     pending := pending c @ [\<lparr>p_record = r, p_receipt = receipt_no c (nextReceipt c + 1), p_message = m\<rparr>]\<rparr>)"
proof -
  have "rev [0 ..< Suc n] = map Suc (rev [0 ..< n]) @ [0]" for n
    by (simp add: rev_map [symmetric] map_Suc_upt upt_conv_Cons del: upt_Suc)
  then show ?thesis using assms by (simp add: consecutive_def receipt_no_def comp_def del: upt_Suc)
qed

lemma consecutive_tl:
  assumes "consecutive c" "pending c = p # ps" "nextReceipt c' = nextReceipt c" "kc_spec c' = kc_spec c" "pending c' = ps"
  shows "consecutive c'"
  using assms by (simp add: consecutive_def receipt_no_def)

lemma appendFetched_keeps:
  assumes "appendFetched rs c = (c', calls, err)" "consecutive c"
  shows "consecutive c' \<and> prefix (pending c) (pending c') \<and> delivered c' = delivered c \<and> kc_closed c' = kc_closed c"
  using assms
proof (induction rs arbitrary: c)
  case (Cons r rs)
  show ?case
  proof (cases "decodeRecord r")
    case (Inr m)
    with Cons.prems(1) have "appendFetched rs (c\<lparr>nextReceipt := nextReceipt c + 1,
       pending := pending c @ [\<lparr>p_record = r, p_receipt = receipt_no c (nextReceipt c + 1), p_message = m\<rparr>]\<rparr>) = (c', calls, err)"
      by (simp add: Let_def receipt_no_def)
    from Cons.IH [OF this consecutive_snoc [OF Cons.prems(2)]] show ?thesis
      by (auto dest: append_prefixD)
  qed (use Cons.prems in auto)
qed auto

lemma settle_cases:
  assumes "settle env c = (c', calls, err)" "pending c = p # ps"
  shows "(\<exists>e. err = Some e \<and> c' = c) \<or>
         (err = None \<and> pending c' = ps \<and> delivered c' = delivered c - 1 \<and> nextReceipt c' = nextReceipt c \<and>
          kc_spec c' = kc_spec c \<and> kc_closed c' = kc_closed c)"
  using assms
proof (cases "env_commit env (p_record p)")
  case None
  with assms show ?thesis by (auto simp: settle_def commitRecord_def advanceEstablished_def Let_def)
next
  case (Some e)
  with assms have "c' = c" "err = Some e" by (simp_all add: settle_def commitRecord_def)
  then show ?thesis by simp
qed

text \<open>The operations without the list of client calls.\<close>

definition receive_result :: "(kafka_env, Consumer) receive_op" where
  "receive_result env n c = (case Consumer_Receive env n c of (c', _, res) \<Rightarrow> (c', res))"

definition ack_result :: "(kafka_env, Consumer) ack_op" where
  "ack_result env r c = (case Consumer_Ack env r c of (c', _, res) \<Rightarrow> (c', res))"

definition hand_over :: "int \<Rightarrow> Consumer \<Rightarrow> Consumer" where
  "hand_over n c = c\<lparr>delivered := min (delivered c + nat n) (length (pending c))\<rparr>"

lemma Consumer_Receive_outcome:
  assumes "Consumer_Receive env n c = (c', calls, res)"
    "appendFetched (f_records (env_poll env)) c = (c1, calls1, err)"
  obtains (failed) err' where "res = Inl err'" "c' = c" | (decode) err' where "res = Inl err'" "c' = c1"
    | (handed) b c0 where "res = Inr b" "c0 = c \<or> c0 = c1" "c' = hand_over n c0" "1 \<le> n" "\<not> kc_closed c"
        "Messages b = map hand_out (take (delivered c' - delivered c0) (drop (delivered c0) (pending c0)))"
proof (cases "kc_closed c \<or> n < 1 \<or> 0 < notBefore c - env_now env \<and> env_cancelled env \<noteq> None")
  case True
  with assms(1) have "\<exists>err'. res = Inl err' \<and> c' = c"
    by (elim disjE; fastforce simp: Consumer_Receive_def split: if_splits)
  with failed show ?thesis by blast
next
  case False
  note open1 = False
  consider (waiting) "delivered c \<noteq> length (pending c)"
    | (refused) "delivered c = length (pending c)" "f_errors (env_poll env) \<noteq> []"
    | (undecoded) e where "delivered c = length (pending c)" "f_errors (env_poll env) = []" "err = Some e"
    | (polled) "delivered c = length (pending c)" "f_errors (env_poll env) = []" "err = None"
    by (cases err) auto
  then show ?thesis
  proof cases
    case waiting
    show ?thesis
      by (rule handed [of _ c]) (use open1 waiting assms(1) in \<open>auto simp: Consumer_Receive_def hand_over_def Let_def\<close>)
  next
    case refused
    with open1 assms(1) show ?thesis by (auto simp: Consumer_Receive_def intro: failed)
  next
    case undecoded
    with open1 assms show ?thesis by (auto simp: Consumer_Receive_def intro: decode)
  next
    case polled
    show ?thesis
      by (rule handed [of _ c1]) (use open1 polled assms in \<open>auto simp: Consumer_Receive_def hand_over_def Let_def\<close>)
  qed
qed

lemma Consumer_Receive_cases:
  assumes "Consumer_Receive env n c = (c', calls, res)" "kafka_inv c"
  shows "kafka_inv c' \<and> prefix (pending c) (pending c') \<and> kc_closed c' = kc_closed c \<and>
    (case res of Inl _ \<Rightarrow> delivered c' = delivered c
     | Inr b \<Rightarrow> 1 \<le> n \<and> \<not> kc_closed c \<and>
         delivered c' = min (delivered c + nat n) (length (pending c')) \<and>
         Messages b = take (nat n) (drop (delivered c) (map hand_out (pending c'))))"
proof -
  have over: "kafka_inv (hand_over n c1)" "pending (hand_over n c1) = pending c1" "kc_closed (hand_over n c1) = kc_closed c1"
    if "consecutive c1" for c1
    using that by (simp_all add: hand_over_def kafka_inv_def consecutive_def receipt_no_def)
  have batch: "map hand_out (take (min (d + k) (length ps) - d) (drop d ps)) = take k (drop d (map hand_out ps))"
    for d k ps by (cases "d + k \<le> length ps") (simp_all add: take_map drop_map min_def)
  obtain c1 calls1 err where app: "appendFetched (f_records (env_poll env)) c = (c1, calls1, err)"
    by (metis prod_cases3)
  have cons: "consecutive c" and deliv: "delivered c \<le> length (pending c)"
    using assms(2) by (simp_all add: kafka_inv_def)
  note app_keeps = appendFetched_keeps [OF app cons]
  then have le: "delivered c1 \<le> length (pending c1)" using deliv prefix_length_le by fastforce
  from assms(1) app show ?thesis
  proof (cases rule: Consumer_Receive_outcome)
    case failed
    with assms(2) show ?thesis by simp
  next
    case decode
    with app_keeps le show ?thesis by (simp add: kafka_inv_def)
  next
    case (handed b c0)
    then have "consecutive c0" "prefix (pending c) (pending c0)" "kc_closed c0 = kc_closed c" "delivered c0 = delivered c"
      using app_keeps cons by auto
    with handed over [of c0] batch [of "delivered c0" "nat n" "pending c0"] show ?thesis
      by (simp add: hand_over_def)
  qed
qed

lemma Consumer_Ack_cases:
  assumes "Consumer_Ack env r c = (c', calls, err)" "kafka_inv c"
  shows "kafka_inv c' \<and>
    (if err = None then \<exists>p ps. pending c = p # ps \<and> p_receipt p = r \<and> pending c' = ps else c' = c)"
proof (cases "pending c = [] \<or> kc_closed c \<or> r \<noteq> p_receipt (hd (pending c))")
  case False
  then obtain p ps where p: "pending c = p # ps" "p_receipt p = r" by (cases "pending c") auto
  with False assms(1) have "settle env c = (c', calls, err)" by (simp add: Consumer_Ack_def)
  from settle_cases [OF this p(1)] show ?thesis
  proof
    assume "\<exists>e. err = Some e \<and> c' = c"
    then show ?thesis using assms(2) by auto
  next
    assume *: "err = None \<and> pending c' = ps \<and> delivered c' = delivered c - 1 \<and> nextReceipt c' = nextReceipt c \<and>
      kc_spec c' = kc_spec c \<and> kc_closed c' = kc_closed c"
    with assms(2) p consecutive_tl [of c p ps c'] show ?thesis by (auto simp: kafka_inv_def)
  qed
qed (use assms in \<open>auto simp: Consumer_Ack_def split: if_splits\<close>)

lemma Consumer_Nack_cases:
  assumes "Consumer_Nack env r d c = (c', err)"
  shows "(kafka_inv c \<longrightarrow> kafka_inv c') \<and> pending c' = pending c \<and>
    (err = None \<longrightarrow> delivered c' = 0 \<and> (\<exists>p ps. pending c = p # ps \<and> p_receipt p = r))"
proof (cases "kc_closed c \<or> d < 0 \<or> pending c = [] \<or> r \<noteq> p_receipt (hd (pending c))")
  case True
  then have "c' = c" "err \<noteq> None" using assms by (auto simp: Consumer_Nack_def split: if_splits)
  then show ?thesis by (simp del: not_None_eq)
next
  case False
  then have "c' = c\<lparr>notBefore := env_now env + d, delivered := 0\<rparr>" using assms by (simp add: Consumer_Nack_def)
  moreover obtain p ps where "pending c = p # ps" using False by (cases "pending c") auto
  ultimately show ?thesis using False by (simp add: kafka_inv_def consecutive_def receipt_no_def)
qed

interpretation kafka: message_consumer kafka_inv kafka_pend delivered "\<lambda>_ _. True"
  receive_result ack_result Consumer_Nack
proof
  fix c c' and e :: kafka_env and n r d b err
  show "kafka_inv c' \<and> prefix (kafka_pend c) (kafka_pend c') \<and> (\<forall>r. True \<longrightarrow> True)"
    if "kafka_inv c" "receive_result e n c = (c', res)" for res
    using that Consumer_Receive_cases [of e n c c'] map_mono_prefix
    by (force simp: receive_result_def kafka_pend_def split: prod.splits)
  show "1 \<le> n \<and> Messages b = take (nat n) (drop (delivered c) (kafka_pend c')) \<and> (\<forall>m\<in>set (Messages b). True)"
    if "kafka_inv c" "receive_result e n c = (c', Inr b)"
    using that Consumer_Receive_cases [of e n c c' _ "Inr b"]
    by (simp add: receive_result_def kafka_pend_def split: prod.splits)
  show "kafka_inv c' \<and> (\<forall>r'. True \<longrightarrow> True)"
    if "kafka_inv c" "ack_result e r c = (c', out)" for out
    using that Consumer_Ack_cases [of e r c c' _ out] by (simp add: ack_result_def split: prod.splits)
  show "\<exists>m. kafka_pend c = m # kafka_pend c' \<and> rcv_Receipt m = r"
    if "kafka_inv c" "ack_result e r c = (c', None)"
    using that Consumer_Ack_cases [of e r c c' _ None]
    by (auto simp: ack_result_def kafka_pend_def hand_out_def split: prod.splits)
  show "kafka_pend c' = kafka_pend c" if "kafka_inv c" "ack_result e r c = (c', Some err)"
    using that Consumer_Ack_cases [of e r c c' _ "Some err"] by (simp add: ack_result_def split: prod.splits)
  show "kafka_inv c' \<and> kafka_pend c' = kafka_pend c \<and> (\<forall>r'. True \<longrightarrow> True)"
    if "kafka_inv c" "Consumer_Nack e r d c = (c', out)" for out
    using that Consumer_Nack_cases [of e r d c c' out] by (simp add: kafka_pend_def)
  show "delivered c' = 0 \<and> (\<exists>m ms. kafka_pend c = m # ms \<and> rcv_Receipt m = r)"
    if "Consumer_Nack e r d c = (c', None)"
    using Consumer_Nack_cases [OF that] by (auto simp: kafka_pend_def hand_out_def)
qed

section \<open>Properties\<close>

text \<open>An open consumer with one fetched record, and a client that accepts everything, for the witnesses.\<close>

definition sample_record :: kgo_Record where
  "sample_record = \<lparr>krec_Topic = ''d'', krec_Key = ''m'', krec_Value = ''b'', Headers = [(headerMessageID, ''m'')],
     Partition = 0, Offset = 7, LeaderEpoch = 1\<rparr>"

definition sample_body :: Message where
  "sample_body = \<lparr>msg_ID = ''m'', Body = ''b'', ContentType = [], Metadata = Some fmempty, StorageError = []\<rparr>"

definition sample_rcpt :: Receipt where
  "sample_rcpt = \<lparr>rcpt_Consumer = ''c'', rcpt_Value = Itoa 1\<rparr>"

definition sample_consumer :: Consumer where
  "sample_consumer = \<lparr>kc_config = \<lparr>Brokers = [''k''], ClientID = [], TLS = False, SASL = 0, DialTimeout = 0,
       RequestTimeoutOverhead = 0, DefaultReplicationFactor = 1\<rparr>,
     kc_spec = \<lparr>spec_ID = ''c'', spec_Destination = ''d'', spec_StartPosition = StartEarliest, spec_Subscription = None\<rparr>,
     kc_metadata = \<lparr>meta_ID = ''c'', meta_Destination = ''d'', meta_StartPosition = StartEarliest\<rparr>,
     pending = [\<lparr>p_record = sample_record, p_receipt = sample_rcpt, p_message = sample_body\<rparr>],
     nextReceipt = 1, delivered = 0, notBefore = 0, kc_closed = False, kc_permanent = False, kc_group = ''g'',
     kc_shared = False, directPartitions = [], assigned = Some {|0|}, established = fmempty\<rparr>"

definition sample_env :: kafka_env where
  "sample_env = \<lparr>env_now = 5, env_cancelled = None,
     env_poll = \<lparr>f_parts = [], f_errors = [], f_records = []\<rparr>,
     env_before = Some (fmupd ''d'' (fmupd 0 \<lparr>eo_Epoch = 1, eo_Offset = 8\<rparr> fmempty) fmempty),
     env_after = None, env_committed = None, env_polled_assigned = None, env_ends = [(None, fmupd 0 8 fmempty)],
     env_lookup_done = DeadlineExceeded, env_commit = \<lambda>_. None, env_produce = \<lambda>_. None,
     env_dlq = \<lparr>prod_closed = False\<rparr>, env_fetch_err = None, env_offsets = \<lambda>_. None, env_open = None,
     env_delete_group = None\<rparr>"

lemma sample_consumer_inv: "kafka_inv sample_consumer"
  by (simp add: kafka_inv_def consecutive_def receipt_no_def sample_consumer_def sample_rcpt_def)



lemma settle_outcome:
  assumes "settle env c = (c1, calls1, err1)" "pending c = p # ps"
  shows "case env_commit env (p_record p) of
      None \<Rightarrow> err1 = None \<and> pending c1 = ps \<and>
        (\<exists>commit rest. commitRecord env c (p_record p) = ([commit], None) \<and> calls1 = commit # rest \<and> set rest \<subseteq> {AllowRebalance})
    | Some x \<Rightarrow> c1 = c \<and> err1 = Some x"
proof (cases "env_commit env (p_record p)")
  case None
  then have "calls1 = fst (commitRecord env c (p_record p)) @ release_if_empty c1" "err1 = None" "pending c1 = ps"
    using assms by (auto simp: settle_def commitRecord_def Let_def)
  with None assms show ?thesis by (auto simp: commitRecord_def release_if_empty_def)
next
  case (Some x)
  with assms have "c1 = c" "err1 = Some x" by (auto simp: settle_def commitRecord_def)
  with Some show ?thesis by simp
qed

text \<open>After a successful negative acknowledgement the next batch the Kafka consumer hands out starts with
  the same message and the same receipt.\<close>

theorem kafka_nack_redelivers:
  assumes "kafka_inv c" "Consumer_Nack env r d c = (c', None)"
    "Consumer_Receive env' n c' = (c'', calls, Inr b)"
  shows "\<exists>m ms. Messages b = m # ms \<and> rcv_Receipt m = r \<and> m = hd (kafka_pend c)"
  using kafka.nack_redelivers [OF assms(1) _ assms(2), of env' n c'' b] assms(3)
  by (simp add: receive_result_def)

theorem kafka_nack_redelivers_witness:
  "\<exists>c c' calls b ms. Consumer_Nack sample_env sample_rcpt 0 sample_consumer = (c, None) \<and>
     Consumer_Receive sample_env 1 c = (c', calls, Inr b) \<and> Messages b = hd (kafka_pend sample_consumer) # ms"
proof -
  obtain c where c: "Consumer_Nack sample_env sample_rcpt 0 sample_consumer = (c, None)"
    "c = sample_consumer\<lparr>notBefore := 5\<rparr>"
    by (simp add: Consumer_Nack_def sample_consumer_def sample_env_def)
  obtain c' calls b where b: "Consumer_Receive sample_env 1 c = (c', calls, Inr b)"
    by (simp add: c(2) Consumer_Receive_def sample_consumer_def sample_env_def Let_def)
  from kafka_nack_redelivers [OF sample_consumer_inv c(1) b] c(1) b show ?thesis by blast
qed


definition sample_letter :: DeadLetter where
  "sample_letter = \<lparr>dl_Destination = ''q'', dl_Message = sample_body, dl_TopicID = ''t'', dl_SubscriptionID = ''s'',
     FailureClass = ''f'', Attempt = 1, dl_StorageError = []\<rparr>"

lemma sample_letter_safe:
  "mget (Metadata (dead_letter_message sample_letter)) k \<noteq> None \<Longrightarrow> \<not> unsafe_key k"
proof -
  assume "mget (Metadata (dead_letter_message sample_letter)) k \<noteq> None"
  then have "k \<in> {''attempt'', ''failure-class'', ''subscription-id'', ''topic-id''}"
    by (auto simp: dead_letter_message_def sample_letter_def sample_body_def mget_Some Let_def split: if_splits)
  moreover have "\<not> unsafe_key ''attempt''" "\<not> unsafe_key ''failure-class''" "\<not> unsafe_key ''subscription-id''"
    "\<not> unsafe_key ''topic-id''" by code_simp+
  ultimately show ?thesis by auto
qed

lemma sample_letter_encodes: "\<exists>rec. encodeRecord ''q'' (dead_letter_message sample_letter) = Inr rec"
proof -
  have "\<not> list_ex unsafe_key (sorted_keys (Metadata (dead_letter_message sample_letter)))"
    using sample_letter_safe by (auto simp: list_ex_iff)
  moreover have "msg_ID (dead_letter_message sample_letter) \<noteq> []" "StorageError (dead_letter_message sample_letter) = []"
    by (simp_all add: dead_letter_message_def sample_letter_def sample_body_def Let_def)
  ultimately show ?thesis by (simp add: encodeRecord_def)
qed


text \<open>The position a partition is read from: where the client stands, or the offset the consumer has
  established for it.\<close>

definition reads_from :: "positions \<Rightarrow> Consumer \<Rightarrow> int \<Rightarrow> EpochOffset \<Rightarrow> bool" where
  "reads_from current c part pos \<longleftrightarrow>
     offset_at current (spec_Destination (kc_spec c)) part = Some pos \<or> fmlookup (established c) part = Some pos"

lemma caught_up_loop_frame:
  assumes "caught_up_loop current committed ends ps asked c = (c', calls, res)"
  shows "(\<exists>est. c' = c\<lparr>established := est\<rparr>) \<and>
         (\<forall>p. p \<notin> set ps \<longrightarrow> fmlookup (established c') p = fmlookup (established c) p)"
  using assms
proof (induction ps arbitrary: asked c calls)
  case Nil
  then show ?case by (auto intro: exI [of _ "established c"])
next
  case (Cons part ps)
  show ?case
  proof (cases "fmlookup ends part")
    case None
    with Cons.prems show ?thesis by (auto intro: exI [of _ "established c"])
  next
    case (Some last1)
    obtain pos fresh where pp: "partition_position current committed c part last1 asked = (pos, fresh)" by fastforce
    define c1 where "c1 = (if fresh then c\<lparr>established := fmupd part pos (established c)\<rparr> else c)"
    have c1: "\<exists>est. c1 = c\<lparr>established := est\<rparr>" "\<forall>p. p \<noteq> part \<longrightarrow> fmlookup (established c1) p = fmlookup (established c) p"
      by (auto simp: c1_def intro: exI [of _ "established c"])
    show ?thesis
    proof (cases "eo_Offset pos < last1")
      case True
      with Cons.prems c1 show ?thesis by (auto simp: Some pp c1_def Let_def)
    next
      case False
      then obtain calls' where "caught_up_loop current committed ends ps (asked \<or> fresh \<and> 0 < last1) c1 = (c', calls', res)"
        using Cons.prems by (auto simp: Some pp c1_def Let_def split: prod.splits)
      from Cons.IH [OF this] c1 show ?thesis by auto
    qed
  qed
qed

lemma caught_up_loop_true:
  assumes "caught_up_loop current committed ends ps asked c = (c', calls, Inr True)" "distinct ps" "part \<in> set ps"
  shows "\<exists>last1 pos. fmlookup ends part = Some last1 \<and> last1 \<le> eo_Offset pos \<and> reads_from current c' part pos"
  using assms
proof (induction ps arbitrary: asked c calls)
  case (Cons q ps)
  obtain last1 where last1: "fmlookup ends q = Some last1" using Cons.prems(1) by (auto split: option.splits)
  obtain pos fresh where pp: "partition_position current committed c q last1 asked = (pos, fresh)" by fastforce
  define c1 where "c1 = (if fresh then c\<lparr>established := fmupd q pos (established c)\<rparr> else c)"
  obtain calls' where rest: "caught_up_loop current committed ends ps (asked \<or> fresh \<and> 0 < last1) c1 = (c', calls', Inr True)"
    and le: "last1 \<le> eo_Offset pos"
    using Cons.prems(1) by (auto simp: last1 pp c1_def Let_def split: prod.splits if_splits)
  show ?case
  proof (cases "part = q")
    case True
    have "reads_from current c1 q pos"
      using pp by (auto simp: reads_from_def c1_def partition_position_def usable_def Let_def
          split: if_splits option.splits)
    then have "reads_from current c' q pos"
      using caught_up_loop_frame [OF rest] Cons.prems(2) by (auto simp: reads_from_def)
    with True last1 le show ?thesis by blast
  next
    case False
    with Cons.IH [OF rest] Cons.prems show ?thesis by auto
  qed
qed simp

lemma caught_up_check_true:
  assumes "caught_up_check env current (ord (assigned_set c)) c = (c', calls, Inr True)"
    "\<And>s. distinct (ord s) \<and> set (ord s) = fset s"
  shows "assigned_set c' = assigned_set c \<and> kc_closed c' = kc_closed c \<and> delivered c' = delivered c \<and>
    pending c' = pending c \<and> assigned_set c' \<noteq> {||} \<and>
    (\<exists>ends. listEndOffsets (env_lookup_done env) (env_ends env) = Inr ends \<and>
       (\<forall>part. part |\<in>| assigned_set c' \<longrightarrow>
          (\<exists>last1 pos. fmlookup ends part = Some last1 \<and> last1 \<le> eo_Offset pos \<and> reads_from current c' part pos)))"
proof -
  obtain ends where ends: "listEndOffsets (env_lookup_done env) (env_ends env) = Inr ends"
    "assigned_set c \<noteq> {||}"
    "caught_up_loop current (env_committed env) ends (ord (assigned_set c)) False c = (c', calls, Inr True)"
    using assms(1) by (auto simp: caught_up_check_def split: sum.splits if_splits)
  obtain est where "c' = c\<lparr>established := est\<rparr>" using caught_up_loop_frame [OF ends(3)] by blast
  then have frame: "assigned_set c' = assigned_set c" "kc_closed c' = kc_closed c" "delivered c' = delivered c"
    "pending c' = pending c" by (simp_all add: assigned_set_def)
  have "\<exists>last1 pos. fmlookup ends part = Some last1 \<and> last1 \<le> eo_Offset pos \<and> reads_from current c' part pos"
    if "part |\<in>| assigned_set c" for part
    using caught_up_loop_true [OF ends(3)] assms(2) that by auto
  with ends(1,2) frame show ?thesis by simp
qed

text \<open>(C24) The Kafka consumer reports that it has caught up only when it is open, has handed out every fetched
  record, has partitions assigned and reads each of them from its end offset or beyond, a position
  that is the client's own or one the consumer has made concrete.\<close>

theorem kafka_caught_up_sound:
  assumes "Consumer_CaughtUp env ord c = (c', calls, Inr True)" "\<And>s. distinct (ord s) \<and> set (ord s) = fset s"
  shows "\<not> kc_closed c \<and> length (pending c') \<le> delivered c' \<and> assigned_set c' \<noteq> {||} \<and>
    (\<exists>ends. listEndOffsets (env_lookup_done env) (env_ends env) = Inr ends \<and>
       (\<forall>part. part |\<in>| assigned_set c' \<longrightarrow>
          (\<exists>last1 pos. fmlookup ends part = Some last1 \<and> last1 \<le> eo_Offset pos \<and>
             (reads_from (env_before env) c' part pos \<or> reads_from (env_after env) c' part pos))))"
proof -
  have open1: "\<not> kc_closed c" and all: "\<not> delivered c < length (pending c)"
    using assms(1) by (auto simp: Consumer_CaughtUp_def split: if_splits)
  show ?thesis
  proof (cases "mlen (mget (env_before env) (spec_Destination (kc_spec c))) = 0 \<and> assigned_set c = {||}")
    case False
    then have "caught_up_check env (env_before env) (ord (assigned_set c)) c = (c', calls, Inr True)"
      using assms(1) open1 all by (auto simp: Consumer_CaughtUp_def split: if_splits)
    from caught_up_check_true [OF this assms(2)] open1 all show ?thesis by fastforce
  next
    case True
    obtain c1 calls1 err where fp: "first_poll env c = (c1, calls1, err)" by (metis prod_cases3)
    with True assms(1) open1 all have "err = None" "\<not> delivered c1 < length (pending c1)"
      by (auto simp: Consumer_CaughtUp_def split: option.splits if_splits)
    moreover then obtain calls2 where
      "caught_up_check env (env_after env) (ord (assigned_set c1)) c1 = (c', calls2, Inr True)"
      using True assms(1) open1 all fp by (auto simp: Consumer_CaughtUp_def split: prod.splits)
    ultimately show ?thesis using caught_up_check_true [OF _ assms(2)] open1 by fastforce
  qed
qed

theorem kafka_caught_up_sound_witness:
  "\<exists>c calls. Consumer_CaughtUp sample_env sorted_list_of_fset (sample_consumer\<lparr>pending := []\<rparr>) = (c, calls, Inr True) \<and>
     assigned_set c \<noteq> {||}"
proof -
  obtain c calls where c: "Consumer_CaughtUp sample_env sorted_list_of_fset (sample_consumer\<lparr>pending := []\<rparr>) =
      (c, calls, Inr True)"
    by (simp add: Consumer_CaughtUp_def caught_up_check_def partition_position_def usable_def offset_at_def
        assigned_set_def sample_consumer_def sample_env_def mget_Some Let_def sorted_list_of_fset.rep_eq)
  have "distinct (sorted_list_of_fset s) \<and> set (sorted_list_of_fset s) = fset s" for s :: "int fset"
    by (simp add: sorted_list_of_fset.rep_eq)
  from kafka_caught_up_sound [OF c this] c show ?thesis by blast
qed

end
