(* ===== verification/Kafka_Admin.thy ===== *)
theory Kafka_Admin
  imports Kafka_Consumer
begin

text \<open>
  The Kafka administrator (\<open>kafka/administrator.go\<close>): provisioning and validating destinations,
  validating subscriptions, opening consumers, and the provider's capabilities. What the franz-go
  administration client answers is the record \<open>admin_env\<close>.
\<close>

record TopicDetail =
  td_Err :: "goerr option"
  td_Partitions :: "int fset"

type_synonym listing = "TopicDetail gomap result"

text \<open>\<open>ae_visible\<close> holds the answers to the lookups after a creation, in the five seconds they may take.\<close>

record admin_env =
  ae_list :: listing
  ae_create :: "goerr option gomap result"
  ae_visible :: "listing list"
  ae_visible_done :: goerr
  ae_configs :: "(string \<times> string) list result"
  ae_consumer :: kafka_env

datatype admin_call =
    CreateTopics int int "(string \<times> string) list" string
  | OpenCall kafka_call

record Administrator =
  adm_config :: Config
  adm_closed :: bool

abbreviation Milliseconds :: "duration \<Rightarrow> int" where
  "Milliseconds d \<equiv> d div 1000000"

text \<open>The value of a configuration key, the last one when it is repeated, and empty when absent.\<close>

definition config_value :: "(string \<times> string) list \<Rightarrow> string \<Rightarrow> string" where
  "config_value cs k = (case map_of (rev cs) k of None \<Rightarrow> [] | Some v \<Rightarrow> v)"

definition validateDestinationConfig :: "admin_env \<Rightarrow> DestinationSpec \<Rightarrow> goerr option" where
  "validateDestinationConfig env spec =
     (case ae_configs env of
        Inl err \<Rightarrow> Some err
      | Inr cs \<Rightarrow>
          let compacted = list_ex (\<lambda>policy. TrimSpace policy = ''compact'')
                (Split (config_value cs ''cleanup.policy'') (CHR '',''))
          in if compacted \<noteq> Compacted spec
             then Some (Error ''Kafka destination cleanup.policy does not match'')
             else if 0 < Retention spec \<and> config_value cs ''retention.ms'' \<noteq> Itoa (nat (Milliseconds (Retention spec)))
             then Some (Error ''Kafka destination retention.ms does not match'')
             else None)"

definition partitions_and_config :: "admin_env \<Rightarrow> DestinationSpec \<Rightarrow> TopicDetail \<Rightarrow> goerr option" where
  "partitions_and_config env spec detail =
     (if int (fcard (td_Partitions detail)) \<noteq> Partitions spec
      then Some (Error ''Kafka destination has a different number of partitions'')
      else validateDestinationConfig env spec)"

text \<open>An existing topic with metadata.\<close>

definition observed_topic :: "TopicDetail gomap \<Rightarrow> string \<Rightarrow> TopicDetail option" where
  "observed_topic details name =
     (case mget details name of Some d \<Rightarrow> if td_Err d = None then Some d else None | None \<Rightarrow> None)"

fun await_visible :: "admin_env \<Rightarrow> DestinationSpec \<Rightarrow> listing list \<Rightarrow> goerr option" where
  "await_visible env spec [] = Some (Wrap ''Kafka destination did not become visible after creation'' (ae_visible_done env))"
| "await_visible env spec (Inl err # _) = Some err"
| "await_visible env spec (Inr details # rest) =
     (case observed_topic details (dst_Name spec) of
        Some d \<Rightarrow> partitions_and_config env spec d
      | None \<Rightarrow> await_visible env spec rest)"

definition creation_configs :: "DestinationSpec \<Rightarrow> (string \<times> string) list" where
  "creation_configs spec =
     (if Compacted spec then [(''cleanup.policy'', ''compact'')] else []) @
     (if 0 < Retention spec then [(''retention.ms'', Itoa (nat (Milliseconds (Retention spec))))] else [])"

text \<open>The conversion \<open>int32(spec.Partitions)\<close>.\<close>

definition to_int32 :: "int \<Rightarrow> int" where
  "to_int32 n = (n + 2 ^ 31) mod 2 ^ 32 - 2 ^ 31"

definition EnsureDestination :: "admin_env \<Rightarrow> Administrator \<Rightarrow> DestinationSpec \<Rightarrow> admin_call list \<times> goerr option" where
  "EnsureDestination env a spec =
     (if dst_Name spec = [] then ([], Some (Error ''destination name is required''))
      else if Partitions spec < 1 then ([], Some (Error ''destination partitions must be positive''))
      else if adm_closed a then ([], Some ErrClosed)
      else case ae_list env of
          Inl err \<Rightarrow> ([], Some err)
        | Inr details \<Rightarrow>
            (case observed_topic details (dst_Name spec) of
               Some d \<Rightarrow> ([], partitions_and_config env spec d)
             | None \<Rightarrow>
                 ([CreateTopics (to_int32 (Partitions spec)) (DefaultReplicationFactor (adm_config a))
                     (creation_configs spec) (dst_Name spec)],
                  case ae_create env of
                    Inl err \<Rightarrow> Some err
                  | Inr responses \<Rightarrow>
                      (case mget responses (dst_Name spec) of
                         None \<Rightarrow> Some (Error ''Kafka did not return destination creation status'')
                       | Some (Some err) \<Rightarrow>
                           if errors_is err TopicAlreadyExists then await_visible env spec (ae_visible env) else Some err
                       | Some None \<Rightarrow> await_visible env spec (ae_visible env)))))"

definition ValidateSubscription :: "admin_env \<Rightarrow> Administrator \<Rightarrow> Destination \<Rightarrow> SubscriptionOptions \<Rightarrow> goerr option" where
  "ValidateSubscription env a destination options =
     (if destination = [] then Some (Error ''destination is required'')
      else case NewSubscriptionOptions (opt_Parameters options) of
          Inl err \<Rightarrow> Some err
        | Inr bounded \<Rightarrow>
            (case parseSubscriptionOptions bounded of
               Inl err \<Rightarrow> Some err
             | Inr config \<Rightarrow>
                 if cfg_partitions config = [] then None
                 else if adm_closed a then Some ErrClosed
                 else case ae_list env of
                     Inl err \<Rightarrow> Some err
                   | Inr details \<Rightarrow>
                       (case mget details destination of
                          None \<Rightarrow> Some (Wrap ''Kafka destination metadata is unavailable'' UnknownTopicOrPartition)
                        | Some d \<Rightarrow>
                            (case td_Err d of
                               Some err \<Rightarrow>
                                 if errors_is err UnknownTopicOrPartition
                                 then Some (Wrap ''Kafka destination metadata is unavailable'' UnknownTopicOrPartition)
                                 else Some err
                             | None \<Rightarrow> validatePartitionMembership config destination (fset (td_Partitions d))))))"

definition OpenConsumer :: "admin_env \<Rightarrow> Administrator \<Rightarrow> ConsumerSpec \<Rightarrow> admin_call list \<times> Consumer result" where
  "OpenConsumer env a spec =
     (case ValidateConsumerSpec spec of
        Some err \<Rightarrow> ([], Inl err)
      | None \<Rightarrow>
          let options = (case spec_Subscription spec of None \<Rightarrow> \<lparr>opt_Parameters = None\<rparr> | Some o1 \<Rightarrow> options_Clone o1)
          in case (case spec_Subscription spec of
                     None \<Rightarrow> None
                   | Some _ \<Rightarrow> ValidateSubscription env a (spec_Destination spec) options) of
               Some err \<Rightarrow> ([], Inl err)
             | None \<Rightarrow>
                 if adm_closed a then ([], Inl ErrClosed)
                 else case newConsumer (ae_consumer env) (adm_config a) (spec\<lparr>spec_Subscription := Some options\<rparr>) of
                     (calls, res) \<Rightarrow> (map OpenCall calls, res))"

definition Administrator_Close :: "Administrator \<Rightarrow> Administrator" where
  "Administrator_Close a = a\<lparr>adm_closed := True\<rparr>"

definition kafka_statuses :: "(Capability \<times> CapabilityStatus) list" where
  "kafka_statuses = [
     (''durable_publish'', \<lparr>cs_Support = Native, cs_Detail = ''acks=all with idempotent production''\<rparr>),
     (''ordering'', \<lparr>cs_Support = Native, cs_Detail = ''ordered within a Kafka partition''\<rparr>),
     (''durable_subscription'', \<lparr>cs_Support = Native, cs_Detail = ''Kafka consumer-group offsets''\<rparr>),
     (''acknowledgement'', \<lparr>cs_Support = Native, cs_Detail = ''synchronous contiguous offset commits''\<rparr>),
     (''replay'', \<lparr>cs_Support = Native, cs_Detail = ''retained Kafka records''\<rparr>),
     (''retention'', \<lparr>cs_Support = Native, cs_Detail = ''Kafka topic retention and compaction''\<rparr>),
     (''dead_lettering'', \<lparr>cs_Support = Emulated, cs_Detail = ''publish then commit; crash may duplicate the DLQ record''\<rparr>),
     (''delayed_delivery'', \<lparr>cs_Support = Emulated, cs_Detail = ''consumer remains uncommitted while WebSubHub schedules retry''\<rparr>),
     (''transactions'', \<lparr>cs_Support = Restricted, cs_Detail = ''not exposed by the v0.5 MessageStore boundary''\<rparr>),
     (''provisioning'', \<lparr>cs_Support = Native, cs_Detail = ''Kafka administration APIs''\<rparr>),
     (''consumer_scaling'', \<lparr>cs_Support = Native, cs_Detail = ''Kafka consumer groups and partition ownership''\<rparr>)]"

definition kafka_capabilities :: Capabilities where
  "kafka_capabilities = \<lparr>Provider = ''kafka'', Statuses = Some (fmap_of_list kafka_statuses)\<rparr>"

section \<open>Properties\<close>

lemma await_visible_shape:
  assumes "await_visible env spec ls = None"
  shows "\<exists>d. int (fcard (td_Partitions d)) = Partitions spec \<and> td_Err d = None \<and> validateDestinationConfig env spec = None \<and>
     (\<exists>details\<in>set ls. \<exists>m. details = Inr m \<and> mget m (dst_Name spec) = Some d)"
  using assms
  by (induction env spec ls rule: await_visible.induct)
    (auto simp: partitions_and_config_def observed_topic_def split: option.splits if_splits)

text \<open>A destination is reported as ensured only after its observable shape was checked: Kafka has shown a
  topic of that name without error and with exactly the required number of partitions, and its cleanup
  policy and retention agree with the specification.\<close>

theorem EnsureDestination_shape:
  assumes "EnsureDestination env a spec = (calls, None)"
  shows "dst_Name spec \<noteq> [] \<and> 1 \<le> Partitions spec \<and> \<not> adm_closed a \<and>
    (\<exists>details\<in>set (ae_list env # ae_visible env). \<exists>m d. details = Inr m \<and> mget m (dst_Name spec) = Some d \<and>
       td_Err d = None \<and> int (fcard (td_Partitions d)) = Partitions spec) \<and>
    (\<exists>cs. ae_configs env = Inr cs \<and>
       (Compacted spec \<longleftrightarrow> (\<exists>policy\<in>set (Split (config_value cs ''cleanup.policy'') (CHR '','')). TrimSpace policy = ''compact'')) \<and>
       (0 < Retention spec \<longrightarrow> config_value cs ''retention.ms'' = Itoa (nat (Milliseconds (Retention spec)))))"
proof -
  have guards: "dst_Name spec \<noteq> []" "1 \<le> Partitions spec" "\<not> adm_closed a"
    using assms by (auto simp: EnsureDestination_def split: if_splits)
  then obtain details where list: "ae_list env = Inr details"
    using assms by (auto simp: EnsureDestination_def split: sum.splits)
  have "\<exists>d. td_Err d = None \<and> int (fcard (td_Partitions d)) = Partitions spec \<and> validateDestinationConfig env spec = None \<and>
     (\<exists>l\<in>set (ae_list env # ae_visible env). \<exists>m. l = Inr m \<and> mget m (dst_Name spec) = Some d)"
  proof (cases "observed_topic details (dst_Name spec)")
    case (Some d)
    with assms guards list show ?thesis
      by (auto simp: EnsureDestination_def partitions_and_config_def observed_topic_def split: option.splits if_splits)
  next
    case None
    then have "await_visible env spec (ae_visible env) = None"
      using assms guards list by (auto simp: EnsureDestination_def split: sum.splits option.splits if_splits)
    from await_visible_shape [OF this] show ?thesis by auto
  qed
  moreover have "\<exists>cs. ae_configs env = Inr cs \<and>
       (Compacted spec \<longleftrightarrow> (\<exists>policy\<in>set (Split (config_value cs ''cleanup.policy'') (CHR '','')). TrimSpace policy = ''compact'')) \<and>
       (0 < Retention spec \<longrightarrow> config_value cs ''retention.ms'' = Itoa (nat (Milliseconds (Retention spec))))"
    if "validateDestinationConfig env spec = None"
    using that by (auto simp: validateDestinationConfig_def Let_def list_ex_iff split: sum.splits if_splits)
  ultimately show ?thesis using guards by blast
qed

definition sample_admin_env :: admin_env where
  "sample_admin_env = \<lparr>ae_list = Inr (Some (fmupd ''d'' \<lparr>td_Err = None, td_Partitions = {|0|}\<rparr> fmempty)),
     ae_create = Inr None, ae_visible = [], ae_visible_done = DeadlineExceeded,
     ae_configs = Inr [(''cleanup.policy'', ''compact'')], ae_consumer = sample_env\<rparr>"

theorem EnsureDestination_shape_witness:
  "EnsureDestination sample_admin_env \<lparr>adm_config = kc_config sample_consumer, adm_closed = False\<rparr>
     \<lparr>dst_Name = ''d'', Compacted = True, Retention = 0, Partitions = 1\<rparr> = ([], None) \<and>
   (\<exists>details\<in>set (ae_list sample_admin_env # ae_visible sample_admin_env). \<exists>m d. details = Inr m \<and> mget m ''d'' = Some d)"
proof -
  have "list_ex (\<lambda>policy. TrimSpace policy = ''compact'') (Split ''compact'' (CHR '',''))" by code_simp
  then have *: "EnsureDestination sample_admin_env \<lparr>adm_config = kc_config sample_consumer, adm_closed = False\<rparr>
     \<lparr>dst_Name = ''d'', Compacted = True, Retention = 0, Partitions = 1\<rparr> = ([], None)"
    by (simp add: EnsureDestination_def sample_admin_env_def observed_topic_def partitions_and_config_def
        validateDestinationConfig_def config_value_def mget_Some fcard_finsert_if
        del: Split.simps)
  have "\<exists>details\<in>set (ae_list sample_admin_env # ae_visible sample_admin_env). \<exists>m d. details = Inr m \<and>
      mget m (dst_Name \<lparr>dst_Name = ''d'', Compacted = True, Retention = 0, Partitions = 1\<rparr>) = Some d"
    using EnsureDestination_shape [OF *] by blast
  then have "\<exists>details\<in>set (ae_list sample_admin_env # ae_visible sample_admin_env). \<exists>m d. details = Inr m \<and> mget m ''d'' = Some d"
    unfolding DestinationSpec.select_convs .
  with * show ?thesis by (rule conjI)
qed

text \<open>The Kafka provider satisfies every capability requirement of the product but transactions.\<close>

theorem kafka_capabilities_Require:
  "capabilities_Require kafka_capabilities required = None \<longleftrightarrow> set required \<subseteq> set allCapabilities - {''transactions''}"
proof -
  define m where "m = Statuses kafka_capabilities"
  have m: "mget m k = map_of kafka_statuses k" for k
    by (simp add: m_def kafka_capabilities_def mget_Some fmlookup_of_list)
  have dom: "{k. mget m k \<noteq> None} = set allCapabilities"
    by (auto simp: m kafka_statuses_def allCapabilities_def split: if_splits)
  have sup: "supported st \<or> explained st" if "mget m k = Some st" for k st
    using that by (auto simp: m kafka_statuses_def supported_def explained_def split: if_splits)
  have req: "(\<exists>st. mget m k = Some st \<and> supported st) \<longleftrightarrow> k \<in> set allCapabilities - {''transactions''}" for k
    by (auto simp: m kafka_statuses_def supported_def allCapabilities_def split: if_splits)
  have "Provider kafka_capabilities \<noteq> []" by (simp add: kafka_capabilities_def)
  with dom sup req show ?thesis
    unfolding capabilities_Require_None m_def [symmetric] by blast
qed

theorem Require_satisfied_witness:
  "{k. mget (Statuses kafka_capabilities) k \<noteq> None} = set allCapabilities"
proof -
  have "capabilities_Require kafka_capabilities [] = None" by code_simp
  then show ?thesis unfolding Require_satisfied by blast
qed

end
