(* ===== verification/Go_Netip.thy ===== *)
theory Go_Netip
  imports Go_Strings "HOL-Library.Word"
begin

unbundle bit_operations_syntax

text \<open>
  The package \<open>net/netip\<close> as far as the program uses it: parsing addresses and prefixes,
  containment and the address classes. An IPv4-mapped IPv6 address is an IPv6 address until
  \<open>Unmap\<close>.
\<close>

datatype Addr = NoAddr | IP4 "32 word" | IP6 "128 word" string

section \<open>Parsing\<close>

text \<open>Four decimal fields without leading zeros.\<close>

definition v4_field :: "string \<Rightarrow> nat option" where
  "v4_field s =
     (if s \<noteq> [] \<and> list_all is_digit s \<and> length s \<le> 3 \<and> (length s = 1 \<or> hd s \<noteq> CHR ''0'') \<and> digits s 0 \<le> 255
      then Some (digits s 0) else None)"

definition v4_fields :: "string \<Rightarrow> nat list option" where
  "v4_fields s =
     (case map v4_field (Split s (CHR ''.'')) of
        [Some a, Some b, Some c, Some d] \<Rightarrow> Some [a, b, c, d] | _ \<Rightarrow> None)"

definition of_fields :: "nat \<Rightarrow> nat list \<Rightarrow> nat" where
  "of_fields base fs = foldl (\<lambda>acc f. base * acc + f) 0 fs"

definition hex_number :: "string \<Rightarrow> nat" where
  "hex_number s = of_fields 16 (map hexval s)"

text \<open>The 16-bit groups of an IPv6 address and the place of its ellipsis; at most \<open>n\<close> more groups.\<close>

fun v6_loop :: "nat \<Rightarrow> string \<Rightarrow> nat list \<Rightarrow> nat option \<Rightarrow> (nat list \<times> nat option) option" where
  "v6_loop 0 s gs ell = (if s = [] then Some (gs, ell) else None)"
| "v6_loop (Suc n) s gs ell =
     (let h = takeWhile ishex s; rest = drop (length h) s in
      if h = [] \<or> 4 < length h then None
      else if rest \<noteq> [] \<and> hd rest = CHR ''.'' then
        (if ell = None \<and> length gs \<noteq> 6 \<or> 8 < length gs + 2 then None
         else case v4_fields s of
             Some [a, b, c, d] \<Rightarrow> Some (gs @ [256 * a + b, 256 * c + d], ell) | _ \<Rightarrow> None)
      else let gs' = gs @ [hex_number h] in
        if rest = [] then Some (gs', ell)
        else if hd rest \<noteq> CHR '':'' \<or> tl rest = [] then None
        else if hd (tl rest) = CHR '':'' then
          (if ell \<noteq> None then None
           else if tl (tl rest) = [] then Some (gs', Some (length gs'))
           else v6_loop n (tl (tl rest)) gs' (Some (length gs')))
        else v6_loop n (tl rest) gs' ell)"

definition v6_expand :: "nat list \<times> nat option \<Rightarrow> nat list option" where
  "v6_expand p =
     (case p of (gs, ell) \<Rightarrow>
        if length gs < 8 then
          (case ell of None \<Rightarrow> None | Some k \<Rightarrow> Some (take k gs @ replicate (8 - length gs) 0 @ drop k gs))
        else if ell = None then Some gs else None)"

definition parseIPv6 :: "string \<Rightarrow> Addr option" where
  "parseIPv6 s0 =
     (case Cut s0 (CHR ''%'') of (s, zone, found) \<Rightarrow>
        if found \<and> zone = [] then None
        else case (if HasPrefix s ''::''
                   then if drop 2 s = [] then Some ([], Some 0) else v6_loop 8 (drop 2 s) [] (Some 0)
                   else v6_loop 8 s [] None) of
            None \<Rightarrow> None
          | Some p \<Rightarrow> map_option (\<lambda>gs. IP6 (of_nat (of_fields 65536 gs)) zone) (v6_expand p))"

text \<open>The first of the bytes \<open>.\<close>, \<open>:\<close> and \<open>%\<close> decides the family.\<close>

definition ParseAddr :: "string \<Rightarrow> Addr option" where
  "ParseAddr s =
     (case dropWhile (\<lambda>c. c \<notin> set ''.:%'') s of
        [] \<Rightarrow> None
      | c # _ \<Rightarrow>
          if c = CHR ''.'' then map_option (\<lambda>fs. IP4 (of_nat (of_fields 256 fs))) (v4_fields s)
          else if c = CHR '':'' then parseIPv6 s
          else None)"

section \<open>Prefixes\<close>

record Prefix =
  pfx_Addr :: Addr
  pfx_Bits :: nat

definition addr_BitLen :: "Addr \<Rightarrow> nat" where
  "addr_BitLen a = (case a of NoAddr \<Rightarrow> 0 | IP4 _ \<Rightarrow> 32 | IP6 _ _ \<Rightarrow> 128)"

definition addr_Zone :: "Addr \<Rightarrow> string" where
  "addr_Zone a = (case a of IP6 _ z \<Rightarrow> z | _ \<Rightarrow> [])"

definition ParsePrefix :: "string \<Rightarrow> Prefix option" where
  "ParsePrefix s =
     (case cut_last s (CHR ''/'') of
        None \<Rightarrow> None
      | Some (addr, bits) \<Rightarrow>
          (case ParseAddr addr of
             None \<Rightarrow> None
           | Some a \<Rightarrow>
               if addr_Zone a \<noteq> [] then None
               else if bits = [] \<or> \<not> list_all is_digit bits \<or> 1 < length bits \<and> hd bits = CHR ''0'' then None
               else if digits bits 0 \<le> addr_BitLen a then Some \<lparr>pfx_Addr = a, pfx_Bits = digits bits 0\<rparr>
               else None))"

text \<open>\<open>Contains\<close>: an address with a zone is in no prefix.\<close>

definition prefix_Contains :: "Prefix \<Rightarrow> Addr \<Rightarrow> bool" where
  "prefix_Contains p a =
     (case (pfx_Addr p, a) of
        (IP4 x, IP4 y) \<Rightarrow> drop_bit (32 - pfx_Bits p) (x XOR y) = 0
      | (IP6 x _, IP6 y zone) \<Rightarrow> zone = [] \<and> drop_bit (128 - pfx_Bits p) (x XOR y) = 0
      | _ \<Rightarrow> False)"

definition prefix_Masked :: "Prefix \<Rightarrow> Prefix" where
  "prefix_Masked p =
     p\<lparr>pfx_Addr := (case pfx_Addr p of
         NoAddr \<Rightarrow> NoAddr
       | IP4 x \<Rightarrow> IP4 (push_bit (32 - pfx_Bits p) (drop_bit (32 - pfx_Bits p) x))
       | IP6 x zone \<Rightarrow> IP6 (push_bit (128 - pfx_Bits p) (drop_bit (128 - pfx_Bits p) x)) [])\<rparr>"

section \<open>Address classes\<close>

definition Unmap :: "Addr \<Rightarrow> Addr" where
  "Unmap a = (case a of IP6 x _ \<Rightarrow> if drop_bit 32 x = 0xFFFF then IP4 (ucast x) else a | _ \<Rightarrow> a)"

definition IsValid :: "Addr \<Rightarrow> bool" where
  "IsValid a = (a \<noteq> NoAddr)"

definition IsUnspecified :: "Addr \<Rightarrow> bool" where
  "IsUnspecified a = (a = IP4 0 \<or> a = IP6 0 [])"

definition IsLoopback :: "Addr \<Rightarrow> bool" where
  "IsLoopback a = (case a of NoAddr \<Rightarrow> False | IP4 x \<Rightarrow> drop_bit 24 x = 127 | IP6 x _ \<Rightarrow> x = 1)"

definition IsPrivate :: "Addr \<Rightarrow> bool" where
  "IsPrivate a =
     (case a of
        NoAddr \<Rightarrow> False
      | IP4 x \<Rightarrow> drop_bit 24 x = 10 \<or> drop_bit 20 x = 0xAC1 \<or> drop_bit 16 x = 0xC0A8
      | IP6 x _ \<Rightarrow> drop_bit 121 x = 0x7E)"

definition IsLinkLocalUnicast :: "Addr \<Rightarrow> bool" where
  "IsLinkLocalUnicast a =
     (case a of NoAddr \<Rightarrow> False | IP4 x \<Rightarrow> drop_bit 16 x = 0xA9FE | IP6 x _ \<Rightarrow> drop_bit 118 x = 0x3FA)"

definition IsLinkLocalMulticast :: "Addr \<Rightarrow> bool" where
  "IsLinkLocalMulticast a =
     (case a of NoAddr \<Rightarrow> False | IP4 x \<Rightarrow> drop_bit 8 x = 0xE00000
      | IP6 x _ \<Rightarrow> drop_bit 112 x AND 0xFF0F = 0xFF02)"

definition IsMulticast :: "Addr \<Rightarrow> bool" where
  "IsMulticast a =
     (case a of NoAddr \<Rightarrow> False | IP4 x \<Rightarrow> drop_bit 28 x = 0xE | IP6 x _ \<Rightarrow> drop_bit 120 x = 0xFF)"

end
