(* ===== verification/Go_Url.thy ===== *)
theory Go_Url
  imports Go_Netip
begin

text \<open>
  The package \<open>net/url\<close> as far as the program uses it: \<open>url.Parse\<close> with the scheme, user
  information, host, path, query and fragment it reads off, \<open>Hostname\<close> and \<open>Port\<close>, and the text
  form of a URL with a host. \<open>User\<close> keeps the text of the user information. \<open>Opaque\<close>, \<open>OmitHost\<close>,
  \<open>ForceQuery\<close> and \<open>RawFragment\<close> are left out: no URL the program prints has them set.
\<close>

record URL =
  Scheme :: string
  User :: "string option"
  Host :: string
  Path :: string
  RawPath :: string
  RawQuery :: string
  Fragment :: string

text \<open>\<open>shouldEscape(c, encodeHost)\<close> for a byte below 128.\<close>

definition host_char :: "char \<Rightarrow> bool" where
  "host_char c = (alnum c \<or> c \<in> set ''-_.~!$&()*+,;=:[]<>'' \<or> byte c = 39 \<or> byte c = 34)"

text \<open>\<open>unescape\<close> for paths, fragments and user information: every percent sign is followed by two
  hexadecimal digits.\<close>

fun unescape :: "string \<Rightarrow> string option" where
  "unescape [] = Some []"
| "unescape (c # s) =
     (if c = CHR ''%'' then
        (case s of
           a # b # t \<Rightarrow> if ishex a \<and> ishex b then map_option (Cons (char_of (16 * hexval a + hexval b))) (unescape t) else None
         | _ \<Rightarrow> None)
      else map_option (Cons c) (unescape s))"

text \<open>\<open>shouldEscape(c, encodePath)\<close> and \<open>shouldEscape(c, encodeHost)\<close>, \<open>escape\<close> in these modes, and
  \<open>validEncoded\<close> for paths.\<close>

definition escape_in_path :: "char \<Rightarrow> bool" where
  "escape_in_path c = (\<not> alnum c \<and> c \<notin> set ''-_.~$&+,/:;=@'')"

definition escape_in_host :: "char \<Rightarrow> bool" where
  "escape_in_host c = (\<not> host_char c)"

definition upper_hex :: "nat \<Rightarrow> char" where
  "upper_hex n = char_of (if n < 10 then 48 + n else 55 + n)"

definition escape :: "(char \<Rightarrow> bool) \<Rightarrow> string \<Rightarrow> string" where
  "escape should s =
     concat (map (\<lambda>c. if should c then [CHR ''%'', upper_hex (byte c div 16), upper_hex (byte c mod 16)] else [c]) s)"

definition validEncoded :: "string \<Rightarrow> bool" where
  "validEncoded s = list_all (\<lambda>c. c \<in> set ''!$&()*+,;=:@[]%'' \<or> byte c = 39 \<or> \<not> escape_in_path c) s"

text \<open>\<open>setPath\<close>: the decoded path, and the text it came from where that is not the default encoding.\<close>

definition setPath :: "string \<Rightarrow> (string \<times> string) option" where
  "setPath p =
     (case unescape p of
        None \<Rightarrow> None
      | Some path \<Rightarrow> Some (path, if p = escape escape_in_path path then [] else p))"

definition EscapedPath :: "URL \<Rightarrow> string" where
  "EscapedPath u =
     (if RawPath u \<noteq> [] \<and> validEncoded (RawPath u) \<and> unescape (RawPath u) = Some (Path u) then RawPath u
      else if Path u = ''*'' then ''*''
      else escape escape_in_path (Path u))"

text \<open>\<open>URL.String\<close> of a URL with a host and without user information, query and fragment.\<close>

definition url_String :: "URL \<Rightarrow> string" where
  "url_String u =
     (let path = EscapedPath u in
      (if Scheme u \<noteq> [] then Scheme u @ '':'' else []) @ ''//'' @ escape escape_in_host (Host u) @
      (if path \<noteq> [] \<and> hd path \<noteq> CHR ''/'' then ''/'' else []) @ path)"

text \<open>\<open>unescape\<close> for hosts: an escape below 128 must be \<open>%25\<close>, other bytes below 128 must be
  legal. In a zone (\<open>zone\<close>) escapes may also stand for legal host bytes and spaces.\<close>

fun unescape_host :: "bool \<Rightarrow> string \<Rightarrow> string option" where
  "unescape_host zone [] = Some []"
| "unescape_host zone (c # s) =
     (if c = CHR ''%'' then
        (case s of
           a # b # t \<Rightarrow>
             let v = 16 * hexval a + hexval b in
             if ishex a \<and> ishex b \<and>
                (if zone then v = 37 \<and> a = CHR ''2'' \<and> b = CHR ''5'' \<or> v = 32 \<or> v < 128 \<and> host_char (char_of v)
                 else hexval a \<ge> 8 \<or> a = CHR ''2'' \<and> b = CHR ''5'')
             then map_option (Cons (char_of v)) (unescape_host zone t) else None
         | _ \<Rightarrow> None)
      else if byte c < 128 \<and> \<not> host_char c then None
      else map_option (Cons c) (unescape_host zone s))"

definition validOptionalPort :: "string \<Rightarrow> bool" where
  "validOptionalPort port = (port = [] \<or> hd port = CHR '':'' \<and> list_all is_digit (tl port))"

text \<open>The first occurrence of \<open>%25\<close>.\<close>

fun cut_zone :: "string \<Rightarrow> (string \<times> string) option" where
  "cut_zone [] = None"
| "cut_zone (c # s) =
     (if c = CHR ''%'' \<and> HasPrefix s ''25'' then Some ([], c # s)
      else case cut_zone s of None \<Rightarrow> None | Some (a, b) \<Rightarrow> Some (c # a, b))"

text \<open>Only a valid IPv6 address may stand in brackets, and only at the start of the host; elsewhere a colon
  starts the port.\<close>

definition parseHost :: "string \<Rightarrow> string option" where
  "parseHost host =
     (if CHR ''['' \<in> set host then
        (if \<not> HasPrefix host ''['' then None
         else case cut_last host (CHR '']'') of
           None \<Rightarrow> None
         | Some (inner, port) \<Rightarrow>
             if \<not> validOptionalPort port then None
             else let hostname = tl inner in
               case (case cut_zone hostname of
                       Some (h, z) \<Rightarrow>
                         (case (unescape_host False h, unescape_host True z) of
                            (Some a, Some b) \<Rightarrow> Some (a @ b) | _ \<Rightarrow> None)
                     | None \<Rightarrow> unescape_host False hostname) of
                 None \<Rightarrow> None
               | Some name \<Rightarrow>
                   (case ParseAddr name of
                      Some (IP6 _ _) \<Rightarrow> Some (''['' @ name @ '']'' @ port)
                    | _ \<Rightarrow> None))
      else if list_all is_digit (drop 1 (dropWhile (\<lambda>c. c \<noteq> CHR '':'') host)) then unescape_host False host
      else None)"

definition validUserinfo :: "string \<Rightarrow> bool" where
  "validUserinfo s = list_all (\<lambda>c. alnum c \<or> c \<in> set ''-._:~!$&()*+,;=%@'' \<or> byte c = 39) s"

definition parseAuthority :: "string \<Rightarrow> (string option \<times> string) option" where
  "parseAuthority authority =
     (case cut_last authority (CHR ''@'') of
        None \<Rightarrow> (case parseHost authority of None \<Rightarrow> None | Some h \<Rightarrow> Some (None, h))
      | Some (userinfo, host) \<Rightarrow>
          (case parseHost host of
             None \<Rightarrow> None
           | Some h \<Rightarrow> if validUserinfo userinfo \<and> unescape userinfo \<noteq> None then Some (Some userinfo, h) else None))"

text \<open>\<open>getScheme\<close>: \<^const>\<open>None\<close> is the error for a leading colon.\<close>

definition getScheme :: "string \<Rightarrow> (string \<times> string) option" where
  "getScheme s =
     (let p = takeWhile (\<lambda>c. alnum c \<or> c \<in> set ''+-.'') s; rest = drop (length p) s in
      if rest \<noteq> [] \<and> hd rest = CHR '':'' then
        if p = [] then None
        else if is_letter (hd p) then Some (p, tl rest) else Some ([], s)
      else Some ([], s))"

definition is_ctl :: "char \<Rightarrow> bool" where
  "is_ctl c = (byte c < 32 \<or> byte c = 127)"

definition cut_query :: "string \<Rightarrow> string \<times> string" where
  "cut_query rest = (case Cut rest (CHR ''?'') of (a, b, _) \<Rightarrow> (a, b))"

definition parse_hier :: "string \<Rightarrow> string \<Rightarrow> string \<Rightarrow> URL option" where
  "parse_hier scheme rest query =
     (let with_path = (\<lambda>user host p. case setPath p of
            None \<Rightarrow> None
          | Some (path, raw) \<Rightarrow> Some \<lparr>Scheme = scheme, User = user, Host = host, Path = path, RawPath = raw,
              RawQuery = query, Fragment = []\<rparr>) in
      if \<not> HasPrefix rest ''/'' \<and> scheme \<noteq> [] then
        Some \<lparr>Scheme = scheme, User = None, Host = [], Path = [], RawPath = [], RawQuery = query, Fragment = []\<rparr>
      else if \<not> HasPrefix rest ''/'' \<and> CHR '':'' \<in> set (takeWhile (\<lambda>c. c \<noteq> CHR ''/'') rest) then None
      else if HasPrefix rest ''//'' \<and> (scheme \<noteq> [] \<or> \<not> HasPrefix rest ''///'') then
        (let authority = takeWhile (\<lambda>c. c \<noteq> CHR ''/'') (drop 2 rest); path = drop (2 + length authority) rest in
         case parseAuthority authority of
           None \<Rightarrow> None
         | Some (user, host) \<Rightarrow> with_path user host path)
      else with_path None [] rest)"

definition url_Parse :: "string \<Rightarrow> URL option" where
  "url_Parse raw =
     (case Cut raw (CHR ''#'') of (u, frag, _) \<Rightarrow>
        if list_ex is_ctl u then None
        else case getScheme u of
            None \<Rightarrow> None
          | Some (scheme, rest) \<Rightarrow>
              (case cut_query rest of (path, query) \<Rightarrow>
                 (case parse_hier (ToLower scheme) path query of
                    None \<Rightarrow> None
                  | Some url \<Rightarrow>
                      (case unescape frag of None \<Rightarrow> None | Some f \<Rightarrow> Some (url\<lparr>Fragment := f\<rparr>)))))"

text \<open>\<open>splitHostPort\<close>, and the methods \<open>Hostname\<close> and \<open>Port\<close>.\<close>

definition split_host_port :: "string \<Rightarrow> string \<times> string" where
  "split_host_port hostPort =
     (let hp = (case cut_last hostPort (CHR '':'') of
            Some (h, p) \<Rightarrow> if list_all is_digit p then (h, p) else (hostPort, [])
          | None \<Rightarrow> (hostPort, []));
          host = fst hp
      in (if HasPrefix host ''['' \<and> last host = CHR '']'' then tl (butlast host) else host, snd hp))"

definition Hostname :: "URL \<Rightarrow> string" where
  "Hostname u = fst (split_host_port (Host u))"

definition Port :: "URL \<Rightarrow> string" where
  "Port u = snd (split_host_port (Host u))"

text \<open>\<open>net.SplitHostPort\<close>.\<close>

definition SplitHostPort :: "string \<Rightarrow> (string \<times> string) option" where
  "SplitHostPort hostport =
     (case cut_last hostport (CHR '':'') of
        None \<Rightarrow> None
      | Some (pre, port) \<Rightarrow>
          if HasPrefix hostport ''['' then
            (let host = takeWhile (\<lambda>c. c \<noteq> CHR '']'') (tl hostport) in
             if pre \<noteq> ''['' @ host @ '']'' \<or> CHR ''['' \<in> set (host @ port) \<or> CHR '']'' \<in> set port then None
             else Some (host, port))
          else if CHR '':'' \<in> set pre \<or> CHR ''['' \<in> set hostport \<or> CHR '']'' \<in> set hostport then None
          else Some (pre, port))"

end
