(* ===== verification/Configuration.thy ===== *)
theory Configuration
  imports Hub_Prelude Go_Url
begin

text \<open>
  \<open>internal/config/config.go\<close>: the configuration of the hub and of the consolidator, their
  defaults and their validation. Reading the file and the environment is left out.
\<close>

section \<open>Values\<close>

text \<open>A floating point number; rounding is not modelled, but infinities and NaN are, and NaN compares
  with nothing.\<close>

datatype float64 = Fin rat | PosInf | NegInf | NaN

fun float_less :: "float64 \<Rightarrow> float64 \<Rightarrow> bool" where
  "float_less NaN _ = False"
| "float_less _ NaN = False"
| "float_less (Fin a) (Fin b) = (a < b)"
| "float_less NegInf NegInf = False"
| "float_less NegInf _ = True"
| "float_less PosInf _ = False"
| "float_less (Fin _) PosInf = True"
| "float_less (Fin _) NegInf = False"

abbreviation AuthModeNone :: string where "AuthModeNone \<equiv> ''none''"
abbreviation AuthModeJWT :: string where "AuthModeJWT \<equiv> ''jwt''"

record Logging = Level :: string

record APIAuth = api_Mode :: string

record OperationsServer =
  op_Auth :: APIAuth
  op_Listen :: string
  op_ReadHeaderTimeout :: duration
  op_ReadTimeout :: duration
  op_WriteTimeout :: duration
  op_IdleTimeout :: duration
  op_ShutdownTimeout :: duration

record JWT =
  Issuer :: string
  Audience :: string
  JWKSURL :: string
  Algorithms :: "string list"
  ScopeClaim :: string
  ClockSkew :: duration
  CacheTTL :: duration
  jwt_RequestTimeout :: duration
  MaxTokenBytes :: int

record Callback =
  AllowedPorts :: "int list"
  AllowedHosts :: "string list"
  AllowedCIDRs :: "string list"
  ConnectTimeout :: duration
  TLSHandshakeTimeout :: duration
  ResponseHeaderTimeout :: duration

record SecretStorage =
  KeyFile :: string
  KeyID :: string

record Security =
  sec_JWT :: JWT
  Callbacks :: Callback
  Secrets :: SecretStorage

record HubServer =
  srv_Auth :: APIAuth
  srv_ID :: string
  srv_Listen :: string
  PublicURL :: string
  srv_ReadHeaderTimeout :: duration
  srv_ReadTimeout :: duration
  srv_WriteTimeout :: duration
  srv_IdleTimeout :: duration
  srv_ShutdownTimeout :: duration

record ResourceProtocol =
  PublisherExtensionEnabled :: bool
  DefaultLease :: duration
  MaxLease :: duration
  MaxRequestBody :: int
  MaxCallbackBody :: int
  VerificationTimeout :: duration
  VerificationWorkers :: int
  VerificationQueue :: int
  HubErrorCallbackEnabled :: bool

record MTLSServerFiles =
  sf_CertificateFile :: string
  sf_PrivateKeyFile :: string
  ClientCAFile :: string

record MTLSClientFiles =
  cf_CertificateFile :: string
  cf_PrivateKeyFile :: string
  ServerCAFile :: string
  cf_ServerName :: string

record ClientAuth =
  ca_Mode :: string
  ca_MTLS :: MTLSClientFiles

record ServerAuth =
  sa_Mode :: string
  sa_MTLS :: MTLSServerFiles

record ConsolidatorClient =
  Endpoint :: string
  cc_Timeout :: duration
  cc_Auth :: ClientAuth

record HubStateEvents =
  hse_Destination :: string
  hse_ConsumerBatchSize :: int

record HubStateStartup = BufferMax :: int

record HubState =
  hs_Events :: HubStateEvents
  Startup :: HubStateStartup

record HTTPRetry =
  MaxAttempts :: int
  InitialInterval :: duration
  BackoffFactor :: float64
  MaxInterval :: duration
  JitterFactor :: float64
  RetryStatusCodes :: "int list"
  ResetOnExhaust :: bool

record MessageStoreRetry =
  Delay :: duration
  RedeliverStatusCodes :: "int list"
  DeadLetterStatusCodes :: "int list"
  FailStatusCodes :: "int list"
  DefaultAction :: string
  NetworkFailureAction :: string

record DeliveryRetry =
  Strategy :: string
  retry_HTTP :: HTTPRetry
  retry_MessageStore :: MessageStoreRetry

record Delivery =
  del_ConsumerBatchSize :: int
  ReconnectInterval :: duration
  del_RequestTimeout :: duration
  MaxResponseBody :: int
  DLQDestination :: string
  Retry :: DeliveryRetry

record StateDestination =
  sd_Destination :: string
  sd_Retention :: duration

record StateConsumer = sc_BatchSize :: int

record ConsolidatorState =
  cst_Events :: StateDestination
  Snapshots :: StateDestination
  cst_Consumer :: StateConsumer

record ConsolidatorServer =
  cs_Listen :: string
  cs_ReadHeaderTimeout :: duration
  cs_ReadTimeout :: duration
  cs_WriteTimeout :: duration
  cs_IdleTimeout :: duration
  cs_ShutdownTimeout :: duration
  cs_Auth :: ServerAuth

record KafkaTLS =
  tls_Enabled :: bool
  CAFile :: string
  tls_CertificateFile :: string
  tls_PrivateKeyFile :: string
  tls_ServerName :: string
  InsecureSkipVerify :: bool

record KafkaSASL =
  Mechanism :: string
  Username :: string
  PasswordFile :: string

record KafkaConfig =
  kfk_Brokers :: "string list"
  kfk_ClientID :: string
  kfk_DialTimeout :: duration
  kfk_RequestTimeoutOverhead :: duration
  kfk_DefaultReplicationFactor :: int
  kfk_TLS :: KafkaTLS
  kfk_SASL :: KafkaSASL

record MessageStore =
  ms_Provider :: string
  ms_Kafka :: KafkaConfig

record ConsolidatorConfig =
  con_Logging :: Logging
  con_Server :: ConsolidatorServer
  con_State :: ConsolidatorState
  con_MessageStore :: MessageStore

record HubConfig =
  hub_Logging :: Logging
  hub_Server :: HubServer
  Operations :: OperationsServer
  hub_Security :: Security
  Protocol :: ResourceProtocol
  Consolidator :: ConsolidatorClient
  hub_State :: HubState
  hub_Delivery :: Delivery
  hub_MessageStore :: MessageStore

section \<open>Defaults\<close>

definition Minute :: duration where "Minute = 60 * Second"
definition Hour :: duration where "Hour = 60 * Minute"

definition no_client_files :: MTLSClientFiles where
  "no_client_files = \<lparr>cf_CertificateFile = [], cf_PrivateKeyFile = [], ServerCAFile = [], cf_ServerName = []\<rparr>"

definition no_server_files :: MTLSServerFiles where
  "no_server_files = \<lparr>sf_CertificateFile = [], sf_PrivateKeyFile = [], ClientCAFile = []\<rparr>"

definition messageStoreDefaults :: "string \<Rightarrow> MessageStore" where
  "messageStoreDefaults client =
     \<lparr>ms_Provider = ''kafka'', ms_Kafka = \<lparr>kfk_Brokers = [], kfk_ClientID = client, kfk_DialTimeout = 10 * Second,
        kfk_RequestTimeoutOverhead = 30 * Second, kfk_DefaultReplicationFactor = -1,
        kfk_TLS = \<lparr>tls_Enabled = False, CAFile = [], tls_CertificateFile = [], tls_PrivateKeyFile = [],
          tls_ServerName = [], InsecureSkipVerify = False\<rparr>,
        kfk_SASL = \<lparr>Mechanism = [], Username = [], PasswordFile = []\<rparr>\<rparr>\<rparr>"

definition HubDefaults :: HubConfig where
  "HubDefaults =
     \<lparr>hub_Logging = \<lparr>Level = ''info''\<rparr>,
      hub_Server = \<lparr>srv_Auth = \<lparr>api_Mode = []\<rparr>, srv_ID = [], srv_Listen = '':8080'',
        PublicURL = ''http://127.0.0.1:8080/websub'', srv_ReadHeaderTimeout = 5 * Second,
        srv_ReadTimeout = 30 * Second, srv_WriteTimeout = 30 * Second, srv_IdleTimeout = 60 * Second,
        srv_ShutdownTimeout = 30 * Second\<rparr>,
      Operations = \<lparr>op_Auth = \<lparr>api_Mode = []\<rparr>, op_Listen = ''127.0.0.1:9090'', op_ReadHeaderTimeout = 5 * Second,
        op_ReadTimeout = 15 * Second, op_WriteTimeout = 15 * Second, op_IdleTimeout = 60 * Second,
        op_ShutdownTimeout = 30 * Second\<rparr>,
      hub_Security = \<lparr>sec_JWT = \<lparr>Issuer = [], Audience = [], JWKSURL = [], Algorithms = [''RS256''], ScopeClaim = ''scope'',
          ClockSkew = 30 * Second, CacheTTL = 15 * Minute, jwt_RequestTimeout = 5 * Second, MaxTokenBytes = 16384\<rparr>,
        Callbacks = \<lparr>AllowedPorts = [443], AllowedHosts = [], AllowedCIDRs = [], ConnectTimeout = 5 * Second,
          TLSHandshakeTimeout = 10 * Second, ResponseHeaderTimeout = 10 * Second\<rparr>,
        Secrets = \<lparr>KeyFile = ''websubhub-secrets.key'', KeyID = ''local-v1''\<rparr>\<rparr>,
      Protocol = \<lparr>PublisherExtensionEnabled = False, DefaultLease = 10 * 24 * Hour, MaxLease = 10 * 24 * Hour,
        MaxRequestBody = 65536, MaxCallbackBody = 4096, VerificationTimeout = 10 * Second, VerificationWorkers = 4,
        VerificationQueue = 1024, HubErrorCallbackEnabled = False\<rparr>,
      Consolidator = \<lparr>Endpoint = ''http://127.0.0.1:8081'', cc_Timeout = 10 * Second,
        cc_Auth = \<lparr>ca_Mode = ''none'', ca_MTLS = no_client_files\<rparr>\<rparr>,
      hub_State = \<lparr>hs_Events = \<lparr>hse_Destination = ''websub-events'', hse_ConsumerBatchSize = 100\<rparr>,
        Startup = \<lparr>BufferMax = 1000\<rparr>\<rparr>,
      hub_Delivery = \<lparr>del_ConsumerBatchSize = 100, ReconnectInterval = 5 * Second, del_RequestTimeout = 30 * Second,
        MaxResponseBody = 65536, DLQDestination = ''websub-delivery-dlq'',
        Retry = \<lparr>Strategy = ''http'',
          retry_HTTP = \<lparr>MaxAttempts = 5, InitialInterval = Second, BackoffFactor = Fin 2, MaxInterval = 30 * Second,
            JitterFactor = Fin (1 / 5), RetryStatusCodes = [408, 429, 500, 502, 503, 504], ResetOnExhaust = False\<rparr>,
          retry_MessageStore = \<lparr>Delay = 5 * Second, RedeliverStatusCodes = [408, 429, 500, 502, 503, 504],
            DeadLetterStatusCodes = [400, 404], FailStatusCodes = [], DefaultAction = ''fail'',
            NetworkFailureAction = ''redeliver''\<rparr>\<rparr>\<rparr>,
      hub_MessageStore = messageStoreDefaults ''websubhub''\<rparr>"

definition ConsolidatorDefaults :: ConsolidatorConfig where
  "ConsolidatorDefaults =
     \<lparr>con_Logging = \<lparr>Level = ''info''\<rparr>,
      con_Server = \<lparr>cs_Listen = '':8081'', cs_ReadHeaderTimeout = 5 * Second, cs_ReadTimeout = 30 * Second,
        cs_WriteTimeout = 30 * Second, cs_IdleTimeout = 60 * Second, cs_ShutdownTimeout = 30 * Second,
        cs_Auth = \<lparr>sa_Mode = ''none'', sa_MTLS = no_server_files\<rparr>\<rparr>,
      con_State = \<lparr>cst_Events = \<lparr>sd_Destination = ''websub-events'', sd_Retention = 7 * 24 * Hour\<rparr>,
        Snapshots = \<lparr>sd_Destination = ''websub-events-snapshots'', sd_Retention = 30 * 24 * Hour\<rparr>,
        cst_Consumer = \<lparr>sc_BatchSize = 100\<rparr>\<rparr>,
      con_MessageStore = messageStoreDefaults ''websubhub-consolidator''\<rparr>"

section \<open>Validation\<close>

text \<open>The first error of a sequence of checks.\<close>

fun first_error :: "goerr option list \<Rightarrow> goerr option" where
  "first_error [] = None"
| "first_error (Some e # _) = Some e"
| "first_error (None # cs) = first_error cs"

abbreviation check :: "bool \<Rightarrow> string \<Rightarrow> goerr option" where
  "check bad msg \<equiv> (if bad then Some (Error msg) else None)"

definition anySet :: "string list \<Rightarrow> bool" where
  "anySet vs = list_ex (\<lambda>v. v \<noteq> []) vs"

definition requireAll :: "string list \<Rightarrow> goerr option" where
  "requireAll vs = check (list_ex (\<lambda>v. v = []) vs) ''certificate, private key, and CA files are all required''"

definition ContainsAny :: "string \<Rightarrow> string \<Rightarrow> bool" where
  "ContainsAny s chars = list_ex (\<lambda>c. c \<in> set chars) s"

definition validate_logging :: "Logging \<Rightarrow> goerr option" where
  "validate_logging c = check (Level c \<notin> {''debug'', ''info'', ''warn'', ''error''})
     ''logging.level must be debug, info, warn, or error''"

definition validateAPIAuth :: "APIAuth \<Rightarrow> goerr option" where
  "validateAPIAuth auth = check (api_Mode auth \<notin> {AuthModeNone, AuthModeJWT}) ''auth.mode must be none or jwt''"

fun validate_algorithms :: "string list \<Rightarrow> string list \<Rightarrow> goerr option" where
  "validate_algorithms [] seen = None"
| "validate_algorithms (algorithm # rest) seen =
     (if algorithm \<notin> {''RS256'', ''RS384'', ''RS512'', ''ES256'', ''ES384'', ''ES512'', ''EdDSA''}
      then Some (Error ''security.jwt algorithm is not an allowed asymmetric algorithm'')
      else if algorithm \<in> set seen then Some (Error ''security.jwt algorithm is duplicated'')
      else validate_algorithms rest (algorithm # seen))"

definition bad_issuer :: "string \<Rightarrow> bool" where
  "bad_issuer s = (case url_Parse s of None \<Rightarrow> True | Some u \<Rightarrow>
     Scheme u \<noteq> ''https'' \<or> Host u = [] \<or> User u \<noteq> None \<or> RawQuery u \<noteq> [] \<or> Fragment u \<noteq> [])"

definition bad_jwks :: "string \<Rightarrow> bool" where
  "bad_jwks s = (case url_Parse s of None \<Rightarrow> True | Some u \<Rightarrow>
     Scheme u \<noteq> ''https'' \<or> Host u = [] \<or> User u \<noteq> None \<or> Fragment u \<noteq> [])"

definition validate_jwt :: "JWT \<Rightarrow> goerr option" where
  "validate_jwt c = first_error
     [check (bad_issuer (Issuer c)) ''security.jwt.issuer must be an absolute HTTPS URL'',
      check (bad_jwks (JWKSURL c)) ''security.jwt.jwks_url must be an absolute HTTPS URL'',
      check (TrimSpace (Audience c) = [] \<or> TrimSpace (ScopeClaim c) = []) ''security.jwt.audience and scope_claim are required'',
      check (ClockSkew c < 0 \<or> CacheTTL c \<le> 0 \<or> jwt_RequestTimeout c \<le> 0 \<or> MaxTokenBytes c < 256)
        ''security.jwt timing values must be valid and max_token_bytes must be at least 256'',
      check (Algorithms c = []) ''security.jwt.algorithms requires at least one asymmetric algorithm'',
      validate_algorithms (Algorithms c) []]"

fun validate_ports :: "int list \<Rightarrow> int list \<Rightarrow> goerr option" where
  "validate_ports [] seen = None"
| "validate_ports (port # rest) seen =
     (if port < 1 \<or> 65535 < port \<or> port \<in> set seen
      then Some (Error ''security.callbacks contains invalid or duplicate port'')
      else validate_ports rest (port # seen))"

definition validate_callback :: "Callback \<Rightarrow> goerr option" where
  "validate_callback c = first_error
     [check (AllowedPorts c = [] \<or> ConnectTimeout c \<le> 0 \<or> TLSHandshakeTimeout c \<le> 0 \<or> ResponseHeaderTimeout c \<le> 0)
        ''security.callbacks requires allowed_ports and positive timeout values'',
      validate_ports (AllowedPorts c) [],
      check (list_ex (\<lambda>v. ParsePrefix v = None) (AllowedCIDRs c)) ''security.callbacks.allowed_cidrs contains invalid CIDR'',
      check (list_ex (\<lambda>h. TrimSpace h = [] \<or> ContainsAny h ''/:@[]'') (AllowedHosts c))
        ''security.callbacks.allowed_hosts contains invalid host'']"

definition validate_security :: "bool \<Rightarrow> Security \<Rightarrow> goerr option" where
  "validate_security jwtRequired c = first_error
     [if jwtRequired then validate_jwt (sec_JWT c) else None,
      validate_callback (Callbacks c),
      check (TrimSpace (KeyFile (Secrets c)) = [] \<or> TrimSpace (KeyID (Secrets c)) = [])
        ''security.secrets.key_file and key_id are required'']"

definition validateStatusCodes :: "int list \<Rightarrow> goerr option" where
  "validateStatusCodes codes = check (list_ex (\<lambda>code. code < 300 \<or> 599 < code \<or> code = 410) codes) ''contains invalid status''"

definition validateDeliveryAction :: "string \<Rightarrow> goerr option" where
  "validateDeliveryAction action =
     check (action \<notin> {''redeliver'', ''dead_letter'', ''fail''}) ''must be redeliver, dead_letter, or fail''"

definition validate_http_retry :: "HTTPRetry \<Rightarrow> goerr option" where
  "validate_http_retry c = first_error
     [check (MaxAttempts c < 1 \<or> InitialInterval c \<le> 0 \<or> MaxInterval c \<le> 0)
        ''delivery.retry.http attempts and intervals must be positive'',
      check (MaxInterval c < InitialInterval c) ''delivery.retry.http.initial_interval must not exceed max_interval'',
      check (float_less (BackoffFactor c) (Fin 1)) ''delivery.retry.http.backoff_factor must be at least 1'',
      check (float_less (JitterFactor c) (Fin 0) \<or> float_less (Fin 1) (JitterFactor c))
        ''delivery.retry.http.jitter_factor must be between 0 and 1'',
      validateStatusCodes (RetryStatusCodes c)]"

text \<open>The loop over the three groups of codes: no code may occur twice.\<close>

fun validate_group :: "int list \<Rightarrow> int list \<Rightarrow> goerr + int list" where
  "validate_group [] seen = Inr seen"
| "validate_group (code # rest) seen =
     (if code \<in> set seen then Inl (Error ''delivery retry status is configured for both'')
      else validate_group rest (code # seen))"

fun validate_groups :: "int list list \<Rightarrow> int list \<Rightarrow> goerr option" where
  "validate_groups [] seen = None"
| "validate_groups (codes # rest) seen =
     (case validateStatusCodes codes of
        Some e \<Rightarrow> Some e
      | None \<Rightarrow> (case validate_group codes seen of Inl e \<Rightarrow> Some e | Inr seen' \<Rightarrow> validate_groups rest seen'))"

definition validate_store_retry :: "MessageStoreRetry \<Rightarrow> goerr option" where
  "validate_store_retry c = first_error
     [check (Delay c < 0) ''delivery.retry.message_store.delay must not be negative'',
      validate_groups [RedeliverStatusCodes c, DeadLetterStatusCodes c, FailStatusCodes c] [],
      validateDeliveryAction (DefaultAction c),
      validateDeliveryAction (NetworkFailureAction c)]"

definition validate_delivery :: "Delivery \<Rightarrow> goerr option" where
  "validate_delivery c = first_error
     [check (del_ConsumerBatchSize c < 1) ''delivery.consumer_batch_size must be positive'',
      check (ReconnectInterval c \<le> 0 \<or> del_RequestTimeout c \<le> 0) ''delivery intervals and timeouts must be positive'',
      check (MaxResponseBody c < 1) ''delivery.max_response_body must be positive'',
      check (TrimSpace (DLQDestination c) = []) ''delivery.dlq_destination is required'',
      if Strategy (Retry c) = ''http'' then validate_http_retry (retry_HTTP (Retry c))
      else if Strategy (Retry c) = ''message_store'' then validate_store_retry (retry_MessageStore (Retry c))
      else Some (Error ''delivery.retry.strategy must be http or message_store'')]"

definition validate_protocol :: "ResourceProtocol \<Rightarrow> goerr option" where
  "validate_protocol c = first_error
     [check (DefaultLease c < Second \<or> MaxLease c < Second \<or> DefaultLease c mod Second \<noteq> 0 \<or> MaxLease c mod Second \<noteq> 0)
        ''protocol lease values must be positive whole seconds'',
      check (MaxLease c < DefaultLease c) ''protocol.default_lease must not exceed protocol.max_lease'',
      check (MaxRequestBody c < 1 \<or> MaxCallbackBody c < 1) ''protocol body limits must be positive'',
      check (VerificationTimeout c \<le> 0) ''protocol.verification_timeout must be positive'',
      check (VerificationWorkers c < 1 \<or> VerificationQueue c < 1) ''protocol verification workers and queue must be positive'']"

definition validate_hub_state :: "HubState \<Rightarrow> goerr option" where
  "validate_hub_state c = first_error
     [check (TrimSpace (hse_Destination (hs_Events c)) = []) ''state.events.destination is required'',
      check (hse_ConsumerBatchSize (hs_Events c) < 1) ''state.events.consumer_batch_size must be positive'',
      check (BufferMax (Startup c) < 1) ''state.startup.buffer_max must be positive'']"

definition validate_consolidator_state :: "ConsolidatorState \<Rightarrow> goerr option" where
  "validate_consolidator_state c = first_error
     [check (TrimSpace (sd_Destination (cst_Events c)) = []) ''state.events.destination is required'',
      check (TrimSpace (sd_Destination (Snapshots c)) = []) ''state.snapshots.destination is required'',
      check (sd_Destination (cst_Events c) = sd_Destination (Snapshots c))
        ''state event and snapshot destinations must be different'',
      check (sd_Retention (cst_Events c) \<le> 0) ''state.events.retention must be positive'',
      check (sd_Retention (Snapshots c) \<le> 0) ''state.snapshots.retention must be positive'',
      check (sc_BatchSize (cst_Consumer c) < 1) ''state.consumer.batch_size must be positive'']"

definition validateClientAuth :: "ClientAuth \<Rightarrow> goerr option" where
  "validateClientAuth auth =
     (let f = ca_MTLS auth in
      if ca_Mode auth = ''none'' then
        check (anySet [cf_CertificateFile f, cf_PrivateKeyFile f, ServerCAFile f, cf_ServerName f])
          ''consolidator.auth.mtls settings require mode = mtls''
      else if ca_Mode auth = ''mtls'' then requireAll [cf_CertificateFile f, cf_PrivateKeyFile f, ServerCAFile f]
      else Some (Error ''consolidator.auth.mode must be none or mtls''))"

definition validateServerAuth :: "ServerAuth \<Rightarrow> goerr option" where
  "validateServerAuth auth =
     (let f = sa_MTLS auth in
      if sa_Mode auth = ''none'' then
        check (anySet [sf_CertificateFile f, sf_PrivateKeyFile f, ClientCAFile f])
          ''server.auth.mtls settings require mode = mtls''
      else if sa_Mode auth = ''mtls'' then requireAll [sf_CertificateFile f, sf_PrivateKeyFile f, ClientCAFile f]
      else Some (Error ''server.auth.mode must be none or mtls''))"

definition validate_kafka_sasl :: "KafkaSASL \<Rightarrow> goerr option" where
  "validate_kafka_sasl s =
     (if Mechanism s = [] then
        check (anySet [Username s, PasswordFile s]) ''message_store.kafka.sasl credentials require a mechanism''
      else if Mechanism s \<in> {''plain'', ''scram-sha-256'', ''scram-sha-512''} then
        check (Username s = [] \<or> PasswordFile s = []) ''message_store.kafka.sasl username and password_file are required''
      else Some (Error ''unsupported message_store.kafka.sasl.mechanism''))"

definition validate_kafka :: "KafkaConfig \<Rightarrow> goerr option" where
  "validate_kafka c =
     (let t = kfk_TLS c in first_error
     [check (kfk_DialTimeout c \<le> 0 \<or> kfk_RequestTimeoutOverhead c \<le> 0) ''message_store.kafka timeouts must be positive'',
      check (kfk_DefaultReplicationFactor c < -1 \<or> kfk_DefaultReplicationFactor c = 0)
        ''message_store.kafka.default_replication_factor must be positive or -1'',
      check (list_ex (\<lambda>broker. broker = []) (kfk_Brokers c)) ''message_store.kafka.brokers cannot contain an empty address'',
      check (\<not> tls_Enabled t \<and>
             (InsecureSkipVerify t \<or> anySet [CAFile t, tls_CertificateFile t, tls_PrivateKeyFile t, tls_ServerName t]))
        ''message_store.kafka.tls settings require enabled = true'',
      check (tls_Enabled t \<and> CAFile t = []) ''message_store.kafka.tls.ca_file is required when TLS is enabled'',
      check (tls_Enabled t \<and> (tls_CertificateFile t = []) \<noteq> (tls_PrivateKeyFile t = []))
        ''message_store.kafka.tls certificate and private key must be configured together'',
      validate_kafka_sasl (kfk_SASL c)])"

definition validate_message_store :: "MessageStore \<Rightarrow> goerr option" where
  "validate_message_store c = first_error
     [check (ms_Provider c \<noteq> ''kafka'') ''unsupported message_store.provider'',
      check (kfk_Brokers (ms_Kafka c) = []) ''message_store.kafka.brokers requires at least one broker'',
      validate_kafka (ms_Kafka c)]"

definition bad_public_url :: "string \<Rightarrow> bool" where
  "bad_public_url s = (case url_Parse s of None \<Rightarrow> True | Some u \<Rightarrow>
     Host u = [] \<or> Scheme u \<noteq> ''http'' \<and> Scheme u \<noteq> ''https'' \<or> User u \<noteq> None \<or> RawQuery u \<noteq> [] \<or> Fragment u \<noteq> [])"

definition endpoint_checks :: "ConsolidatorClient \<Rightarrow> goerr option" where
  "endpoint_checks c =
     (case url_Parse (Endpoint c) of
        None \<Rightarrow> Some (Error ''consolidator.endpoint must be an absolute HTTP URL'')
      | Some u \<Rightarrow> first_error
          [check (Host u = []) ''consolidator.endpoint must be an absolute HTTP URL'',
           validateClientAuth (cc_Auth c),
           check (Scheme u \<noteq> (if ca_Mode (cc_Auth c) = ''mtls'' then ''https'' else ''http''))
             ''consolidator.endpoint must use the scheme of its auth mode''])"

definition HubConfig_Validate :: "HubConfig \<Rightarrow> goerr option" where
  "HubConfig_Validate c =
     (let s = hub_Server c; o1 = Operations c in first_error
     [validate_logging (hub_Logging c),
      check (srv_ID s = []) ''server.id is required'',
      check (srv_Listen s = []) ''server.listen is required'',
      check (srv_ReadHeaderTimeout s \<le> 0 \<or> srv_ReadTimeout s \<le> 0 \<or> srv_WriteTimeout s \<le> 0 \<or> srv_IdleTimeout s \<le> 0 \<or>
             srv_ShutdownTimeout s \<le> 0) ''server HTTP timeouts must be positive'',
      check (TrimSpace (op_Listen o1) = []) ''operations.listen is required'',
      check (op_ReadHeaderTimeout o1 \<le> 0 \<or> op_ReadTimeout o1 \<le> 0 \<or> op_WriteTimeout o1 \<le> 0 \<or> op_IdleTimeout o1 \<le> 0 \<or>
             op_ShutdownTimeout o1 \<le> 0) ''operations HTTP timeouts must be positive'',
      validateAPIAuth (srv_Auth s),
      validateAPIAuth (op_Auth o1),
      validate_security (api_Mode (srv_Auth s) = AuthModeJWT \<or> api_Mode (op_Auth o1) = AuthModeJWT) (hub_Security c),
      check (bad_public_url (PublicURL s)) ''server.public_url must be an absolute HTTP URL without userinfo, query, or fragment'',
      validate_protocol (Protocol c),
      check (cc_Timeout (Consolidator c) \<le> 0) ''consolidator.timeout must be positive'',
      endpoint_checks (Consolidator c),
      validate_hub_state (hub_State c),
      validate_delivery (hub_Delivery c),
      validate_message_store (hub_MessageStore c)])"

definition ConsolidatorConfig_Validate :: "ConsolidatorConfig \<Rightarrow> goerr option" where
  "ConsolidatorConfig_Validate c =
     (let s = con_Server c in first_error
     [validate_logging (con_Logging c),
      check (cs_Listen s = []) ''server.listen is required'',
      check (cs_ReadHeaderTimeout s \<le> 0 \<or> cs_ReadTimeout s \<le> 0 \<or> cs_WriteTimeout s \<le> 0 \<or> cs_IdleTimeout s \<le> 0 \<or>
             cs_ShutdownTimeout s \<le> 0) ''server HTTP timeouts must be positive'',
      validateServerAuth (cs_Auth s),
      validate_consolidator_state (con_State c),
      validate_message_store (con_MessageStore c)])"

section \<open>What a valid configuration guarantees\<close>

lemma first_error_None [simp]: "first_error cs = None \<longleftrightarrow> (\<forall>c\<in>set cs. c = None)"
  by (induction cs rule: first_error.induct) auto

lemma check_None: "check bad msg = None \<longleftrightarrow> \<not> bad"
  by simp

lemma validate_group_Inr:
  "validate_group codes seen = Inr seen' \<longleftrightarrow> distinct codes \<and> set codes \<inter> set seen = {} \<and> seen' = rev codes @ seen"
  by (induction codes seen arbitrary: seen' rule: validate_group.induct) auto

lemma validate_groups_None:
  "validate_groups gs seen = None \<longleftrightarrow>
     (\<forall>g\<in>set gs. validateStatusCodes g = None) \<and> distinct (concat gs) \<and> set (concat gs) \<inter> set seen = {}"
proof (induction gs arbitrary: seen)
  case (Cons g gs)
  show ?case
  proof (cases "validate_group g seen")
    case (Inl e)
    then have "\<not> (distinct g \<and> set g \<inter> set seen = {})" using validate_group_Inr [of g seen] by fastforce
    with Inl show ?thesis by (cases "validateStatusCodes g") auto
  next
    case (Inr seen')
    then have "distinct g" "set g \<inter> set seen = {}" "set seen' = set g \<union> set seen"
      using validate_group_Inr [of g seen seen'] by auto
    with Inr Cons.IH [of seen'] show ?thesis by (cases "validateStatusCodes g") auto
  qed
qed simp

lemma validateStatusCodes_None:
  "validateStatusCodes codes = None \<longleftrightarrow> (\<forall>code\<in>set codes. 300 \<le> code \<and> code \<le> 599 \<and> code \<noteq> 410)"
  by (induction codes) (auto simp: validateStatusCodes_def split: if_splits)

text \<open>A message store retry configuration is accepted exactly when its delay is not negative, its actions
  are known, and every listed status code is a 3xx, 4xx or 5xx code other than 410 that is listed
  only once, so that it has one action.\<close>

theorem validate_store_retry_unambiguous:
  "validate_store_retry c = None \<longleftrightarrow>
     0 \<le> Delay c \<and>
     distinct (RedeliverStatusCodes c @ DeadLetterStatusCodes c @ FailStatusCodes c) \<and>
     (\<forall>code\<in>set (RedeliverStatusCodes c @ DeadLetterStatusCodes c @ FailStatusCodes c).
        300 \<le> code \<and> code \<le> 599 \<and> code \<noteq> 410) \<and>
     {DefaultAction c, NetworkFailureAction c} \<subseteq> {''redeliver'', ''dead_letter'', ''fail''}"
proof -
  have groups: "validate_groups [RedeliverStatusCodes c, DeadLetterStatusCodes c, FailStatusCodes c] [] = None \<longleftrightarrow>
      distinct (RedeliverStatusCodes c @ DeadLetterStatusCodes c @ FailStatusCodes c) \<and>
      (\<forall>code\<in>set (RedeliverStatusCodes c @ DeadLetterStatusCodes c @ FailStatusCodes c).
         300 \<le> code \<and> code \<le> 599 \<and> code \<noteq> 410)"
    unfolding validate_groups_None validateStatusCodes_None by (simp add: ball_Un conj_ac)
  have actions: "validateDeliveryAction a = None \<longleftrightarrow> a \<in> {''redeliver'', ''dead_letter'', ''fail''}" for a
    by (simp add: validateDeliveryAction_def)
  show ?thesis
    by (simp add: validate_store_retry_def groups actions not_less del: validate_groups.simps)
qed

text \<open>Numbers a float accepts as a lower or upper bound: NaN satisfies both.\<close>

lemma not_float_less:
  "\<not> float_less x (Fin q) \<longleftrightarrow> x = NaN \<or> x = PosInf \<or> (\<exists>r. x = Fin r \<and> q \<le> r)"
  "\<not> float_less (Fin q) x \<longleftrightarrow> x = NaN \<or> x = NegInf \<or> (\<exists>r. x = Fin r \<and> r \<le> q)"
  by (cases x; auto)+

lemma validate_http_retry_None:
  "validate_http_retry c = None \<longleftrightarrow>
     1 \<le> MaxAttempts c \<and> 0 < InitialInterval c \<and> InitialInterval c \<le> MaxInterval c \<and>
     (BackoffFactor c \<in> {NaN, PosInf} \<or> (\<exists>q\<ge>1. BackoffFactor c = Fin q)) \<and>
     (JitterFactor c = NaN \<or> (\<exists>q. 0 \<le> q \<and> q \<le> 1 \<and> JitterFactor c = Fin q)) \<and>
     (\<forall>code\<in>set (RetryStatusCodes c). 300 \<le> code \<and> code \<le> 599 \<and> code \<noteq> 410)"
proof -
  have "\<not> (float_less (JitterFactor c) (Fin 0) \<or> float_less (Fin 1) (JitterFactor c)) \<longleftrightarrow>
      JitterFactor c = NaN \<or> (\<exists>q. 0 \<le> q \<and> q \<le> 1 \<and> JitterFactor c = Fin q)"
    by (cases "JitterFactor c") auto
  moreover have "\<not> float_less (BackoffFactor c) (Fin 1) \<longleftrightarrow>
      BackoffFactor c \<in> {NaN, PosInf} \<or> (\<exists>q\<ge>1. BackoffFactor c = Fin q)"
    by (cases "BackoffFactor c") auto
  ultimately show ?thesis
    by (auto simp: validate_http_retry_def validateStatusCodes_None)
qed

text \<open>The validation of the HTTP retry settings, exactly: attempts and intervals are positive and ordered,
  the status codes are retryable, the backoff factor is at least one and the jitter between zero and
  one, except that the value NaN passes both tests.\<close>

theorem validate_http_retry_exact:
  "validate_http_retry c = None \<longleftrightarrow>
     1 \<le> MaxAttempts c \<and> 0 < InitialInterval c \<and> InitialInterval c \<le> MaxInterval c \<and>
     (BackoffFactor c \<in> {NaN, PosInf} \<or> (\<exists>q\<ge>1. BackoffFactor c = Fin q)) \<and>
     (JitterFactor c = NaN \<or> (\<exists>q. 0 \<le> q \<and> q \<le> 1 \<and> JitterFactor c = Fin q)) \<and>
     (\<forall>code\<in>set (RetryStatusCodes c). 300 \<le> code \<and> code \<le> 599 \<and> code \<noteq> 410)"
  by (rule validate_http_retry_None)

lemma validate_algorithms_None:
  "validate_algorithms as seen = None \<longleftrightarrow>
     set as \<subseteq> {''RS256'', ''RS384'', ''RS512'', ''ES256'', ''ES384'', ''ES512'', ''EdDSA''} \<and> distinct as \<and>
     set as \<inter> set seen = {}"
  by (induction as seen rule: validate_algorithms.induct) (auto simp del: insert_iff)

lemma validate_ports_None:
  "validate_ports ps seen = None \<longleftrightarrow> (\<forall>p\<in>set ps. 1 \<le> p \<and> p \<le> 65535) \<and> distinct ps \<and> set ps \<inter> set seen = {}"
  by (induction ps seen rule: validate_ports.induct) auto

text \<open>A configuration the hub accepts has a server identity; if one of its listeners uses JWT, a sound
  issuer and distinct asymmetric algorithms; distinct callback ports between 1 and 65535; reaches
  the consolidator over TLS exactly in mutual TLS mode, and then with all certificate files; and has
  positive whole-second leases with the default within the maximum.\<close>

theorem HubConfig_Validate_guarantees:
  assumes "HubConfig_Validate c = None"
  shows "srv_ID (hub_Server c) \<noteq> [] \<and>
    (api_Mode (srv_Auth (hub_Server c)) = AuthModeJWT \<or> api_Mode (op_Auth (Operations c)) = AuthModeJWT \<longrightarrow>
       \<not> bad_issuer (Issuer (sec_JWT (hub_Security c))) \<and> Algorithms (sec_JWT (hub_Security c)) \<noteq> [] \<and>
       distinct (Algorithms (sec_JWT (hub_Security c))) \<and>
       set (Algorithms (sec_JWT (hub_Security c))) \<subseteq> {''RS256'', ''RS384'', ''RS512'', ''ES256'', ''ES384'', ''ES512'', ''EdDSA''}) \<and>
    AllowedPorts (Callbacks (hub_Security c)) \<noteq> [] \<and> distinct (AllowedPorts (Callbacks (hub_Security c))) \<and>
    (\<forall>p\<in>set (AllowedPorts (Callbacks (hub_Security c))). 1 \<le> p \<and> p \<le> 65535) \<and>
    (\<exists>u. url_Parse (Endpoint (Consolidator c)) = Some u \<and> Host u \<noteq> [] \<and>
       (case ca_Mode (cc_Auth (Consolidator c)) = ''mtls'' of
          True \<Rightarrow> Scheme u = ''https'' \<and> cf_CertificateFile (ca_MTLS (cc_Auth (Consolidator c))) \<noteq> [] \<and>
            cf_PrivateKeyFile (ca_MTLS (cc_Auth (Consolidator c))) \<noteq> [] \<and> ServerCAFile (ca_MTLS (cc_Auth (Consolidator c))) \<noteq> []
        | False \<Rightarrow> Scheme u = ''http'')) \<and>
    Second \<le> DefaultLease (Protocol c) \<and> DefaultLease (Protocol c) \<le> MaxLease (Protocol c) \<and>
    DefaultLease (Protocol c) mod Second = 0 \<and> MaxLease (Protocol c) mod Second = 0"
proof -
  have v: "srv_ID (hub_Server c) \<noteq> []"
    "validate_security (api_Mode (srv_Auth (hub_Server c)) = AuthModeJWT \<or> api_Mode (op_Auth (Operations c)) = AuthModeJWT)
       (hub_Security c) = None"
    "validate_protocol (Protocol c) = None" "endpoint_checks (Consolidator c) = None"
    using assms unfolding HubConfig_Validate_def Let_def first_error_None by (simp_all split: if_splits)
  have cb: "validate_callback (Callbacks (hub_Security c)) = None"
    and jwt: "api_Mode (srv_Auth (hub_Server c)) = AuthModeJWT \<or> api_Mode (op_Auth (Operations c)) = AuthModeJWT \<Longrightarrow>
      validate_jwt (sec_JWT (hub_Security c)) = None"
    using v(2) unfolding validate_security_def first_error_None by (simp_all split: if_splits)
  have "AllowedPorts (Callbacks (hub_Security c)) \<noteq> []" "validate_ports (AllowedPorts (Callbacks (hub_Security c))) [] = None"
    using cb unfolding validate_callback_def first_error_None by (simp_all split: if_splits)
  moreover have "\<not> bad_issuer (Issuer j) \<and> Algorithms j \<noteq> [] \<and> validate_algorithms (Algorithms j) [] = None"
    if "validate_jwt j = None" for j
    using that unfolding validate_jwt_def first_error_None by (simp split: if_splits)
  moreover have "\<exists>u. url_Parse (Endpoint (Consolidator c)) = Some u \<and> Host u \<noteq> [] \<and>
      validateClientAuth (cc_Auth (Consolidator c)) = None \<and>
      Scheme u = (if ca_Mode (cc_Auth (Consolidator c)) = ''mtls'' then ''https'' else ''http'')"
    using v(4) unfolding endpoint_checks_def by (auto split: option.splits if_splits)
  moreover have "cf_CertificateFile (ca_MTLS a) \<noteq> [] \<and> cf_PrivateKeyFile (ca_MTLS a) \<noteq> [] \<and> ServerCAFile (ca_MTLS a) \<noteq> []"
    if "validateClientAuth a = None" "ca_Mode a = ''mtls''" for a
    using that by (simp add: validateClientAuth_def requireAll_def Let_def split: if_splits)
  moreover have "Second \<le> DefaultLease (Protocol c) \<and> DefaultLease (Protocol c) \<le> MaxLease (Protocol c) \<and>
      DefaultLease (Protocol c) mod Second = 0 \<and> MaxLease (Protocol c) mod Second = 0"
    using v(3) unfolding validate_protocol_def first_error_None by (simp split: if_splits)
  ultimately show ?thesis
    using v(1) jwt by (auto simp: validate_ports_None validate_algorithms_None simp del: insert_iff split: bool.split)
qed

text \<open>The defaults, completed with what has no default.\<close>

definition sample_hub_config :: HubConfig where
  "sample_hub_config = HubDefaults\<lparr>hub_Server := (hub_Server HubDefaults)\<lparr>srv_ID := ''hub-1'', srv_Auth := \<lparr>api_Mode = ''none''\<rparr>\<rparr>,
     Operations := (Operations HubDefaults)\<lparr>op_Auth := \<lparr>api_Mode = ''none''\<rparr>\<rparr>,
     hub_MessageStore := (hub_MessageStore HubDefaults)\<lparr>ms_Kafka := (ms_Kafka (hub_MessageStore HubDefaults))\<lparr>kfk_Brokers := [''k:9092'']\<rparr>\<rparr>\<rparr>"

lemma sample_hub_config_valid: "HubConfig_Validate sample_hub_config = None"
  by code_simp

theorem HubConfig_Validate_guarantees_witness:
  "srv_ID (hub_Server sample_hub_config) \<noteq> [] \<and> DefaultLease (Protocol sample_hub_config) \<le> MaxLease (Protocol sample_hub_config)"
  using HubConfig_Validate_guarantees [OF sample_hub_config_valid] by blast

theorem validate_store_retry_unambiguous_witness:
  "let c = retry_MessageStore (Retry (hub_Delivery sample_hub_config)) in
     distinct (RedeliverStatusCodes c @ DeadLetterStatusCodes c @ FailStatusCodes c) \<and> 410 \<notin> set (RedeliverStatusCodes c)"
proof -
  have "validate_store_retry (retry_MessageStore (Retry (hub_Delivery sample_hub_config))) = None" by code_simp
  then show ?thesis unfolding validate_store_retry_unambiguous Let_def by auto
qed

theorem validate_http_retry_exact_witness:
  "let c = retry_HTTP (Retry (hub_Delivery sample_hub_config)) in
     0 < InitialInterval c \<and> validate_http_retry (c\<lparr>BackoffFactor := NaN, JitterFactor := NaN\<rparr>) = None"
proof -
  have "validate_http_retry (retry_HTTP (Retry (hub_Delivery sample_hub_config))) = None" by code_simp
  then show ?thesis unfolding validate_http_retry_exact Let_def by simp
qed

end
