(* ===== verification/Callback_Policy.thy ===== *)
theory Callback_Policy
  imports Configuration
begin

text \<open>
  \<open>internal/security/callback/policy.go\<close>: which subscriber destinations the hub may call. The
  DNS resolver is a parameter, as is the outcome of each connection attempt; the connections the
  policy tries are recorded as pairs of address and port text.
\<close>

section \<open>Policy\<close>

record Policy =
  pol_Ports :: "16 word list"
  pol_Hosts :: "string list"
  pol_CIDRs :: "Prefix list"

definition TrimSuffixDot :: "string \<Rightarrow> string" where
  "TrimSuffixDot s = (if s \<noteq> [] \<and> last s = CHR ''.'' then butlast s else s)"

definition normalizedHost :: "string \<Rightarrow> string" where
  "normalizedHost host = ToLower (TrimSuffixDot host)"

fun parse_cidrs :: "string list \<Rightarrow> Prefix list result" where
  "parse_cidrs [] = Inr []"
| "parse_cidrs (v # vs) =
     (case ParsePrefix v of
        None \<Rightarrow> Inl (Error ''invalid callback allowed CIDR'')
      | Some p \<Rightarrow> (case parse_cidrs vs of Inl e \<Rightarrow> Inl e | Inr ps \<Rightarrow> Inr (prefix_Masked p # ps)))"

definition policy_New :: "16 word list \<Rightarrow> string list \<Rightarrow> string list \<Rightarrow> Policy result" where
  "policy_New ports hosts cidrs =
     (if ports = [] then Inl (Error ''at least one callback port is required'')
      else let names = map (\<lambda>h. ToLower (TrimSuffixDot (TrimSpace h))) hosts in
        if list_ex (\<lambda>h. h = [] \<or> ContainsAny h ''/:@[]'') names then Inl (Error ''invalid callback allowed host'')
        else case parse_cidrs cidrs of
            Inl e \<Rightarrow> Inl e
          | Inr ps \<Rightarrow> Inr \<lparr>pol_Ports = ports, pol_Hosts = names, pol_CIDRs = ps\<rparr>)"

definition policy_FromConfig :: "Callback \<Rightarrow> Policy result" where
  "policy_FromConfig cfg =
     (if list_ex (\<lambda>port. port < 1 \<or> 65535 < port) (AllowedPorts cfg) then Inl (Error ''invalid callback port'')
      else policy_New (map of_int (AllowedPorts cfg)) (AllowedHosts cfg) (AllowedCIDRs cfg))"

section \<open>Addresses\<close>

definition prefix4 :: "nat \<Rightarrow> nat \<Rightarrow> nat \<Rightarrow> nat \<Rightarrow> nat \<Rightarrow> Prefix" where
  "prefix4 a b c d bits = \<lparr>pfx_Addr = IP4 (of_nat (of_fields 256 [a, b, c, d])), pfx_Bits = bits\<rparr>"

definition prefix6 :: "nat \<Rightarrow> nat \<Rightarrow> nat \<Rightarrow> nat \<Rightarrow> Prefix" where
  "prefix6 a b l bits = \<lparr>pfx_Addr = IP6 (of_nat (of_fields 65536 [a, b, 0, 0, 0, 0, 0, l])) [], pfx_Bits = bits\<rparr>"

definition deniedPrefixes :: "Prefix list" where
  "deniedPrefixes =
     [prefix4 0 0 0 0 8, prefix4 10 0 0 0 8, prefix4 100 64 0 0 10, prefix4 127 0 0 0 8, prefix4 169 254 0 0 16,
      prefix4 172 16 0 0 12, prefix4 192 0 0 0 24, prefix4 192 0 2 0 24, prefix4 192 168 0 0 16, prefix4 198 18 0 0 15,
      prefix4 198 51 100 0 24, prefix4 203 0 113 0 24, prefix4 224 0 0 0 4, prefix4 240 0 0 0 4,
      prefix6 0 0 0 128, prefix6 0 0 1 128, prefix6 0xfc00 0 0 7, prefix6 0xfe80 0 0 10, prefix6 0xff00 0 0 8,
      prefix6 0x2001 0xdb8 0 32]"

definition restricted :: "Addr \<Rightarrow> bool" where
  "restricted address =
     (\<not> IsValid address \<or> IsUnspecified address \<or> IsLoopback address \<or> IsPrivate address \<or> IsLinkLocalUnicast address \<or>
      IsLinkLocalMulticast address \<or> IsMulticast address \<or>
      list_ex (\<lambda>p. prefix_Contains p address) deniedPrefixes)"

definition addressAllowed :: "Policy \<Rightarrow> Addr \<Rightarrow> bool" where
  "addressAllowed p address =
     (list_ex (\<lambda>pfx. prefix_Contains pfx address) (pol_CIDRs p) \<or> \<not> restricted address)"

definition hostAllowed :: "Policy \<Rightarrow> string \<Rightarrow> bool" where
  "hostAllowed p host = (normalizedHost host \<in> set (pol_Hosts p))"

definition resolveAllowed :: "(string \<Rightarrow> Addr list result) \<Rightarrow> Policy \<Rightarrow> string \<Rightarrow> bool \<Rightarrow> Addr list result" where
  "resolveAllowed lookup p host trustedHost =
     (case ParseAddr host of
        Some a \<Rightarrow>
          let address = Unmap a in
          if \<not> trustedHost \<and> \<not> addressAllowed p address then Inl (Error ''callback address is denied'')
          else Inr [address]
      | None \<Rightarrow>
          (case lookup host of
             Inl _ \<Rightarrow> Inl (Error ''resolve callback destination'')
           | Inr addresses \<Rightarrow>
               if addresses = [] then Inl (Error ''resolve callback destination'')
               else let res = filter (\<lambda>a. trustedHost \<or> addressAllowed p a) (map Unmap addresses)
                    in if res = [] then Inl (Error ''callback resolved only to denied addresses'') else Inr res))"

section \<open>Validation and dialing\<close>

definition callbackPort :: "URL \<Rightarrow> 16 word option" where
  "callbackPort u =
     (if Port u = [] then Some (if Scheme u = ''https'' then 443 else 80)
      else map_option of_nat (ParseUint 16 (Port u)))"

definition ValidateURL :: "(string \<Rightarrow> Addr list result) \<Rightarrow> Policy \<Rightarrow> string \<Rightarrow> goerr option" where
  "ValidateURL lookup p raw =
     (case url_Parse raw of
        None \<Rightarrow> Some (Error ''callback must be an absolute HTTP or HTTPS URL'')
      | Some u \<Rightarrow>
          if Host u = [] \<or> Scheme u \<noteq> ''https'' \<and> Scheme u \<noteq> ''http''
          then Some (Error ''callback must be an absolute HTTP or HTTPS URL'')
          else if User u \<noteq> None \<or> Fragment u \<noteq> [] then Some (Error ''callback userinfo and fragments are forbidden'')
          else let host = normalizedHost (Hostname u); trustedHost = hostAllowed p host in
            if Scheme u \<noteq> ''https'' \<and> \<not> trustedHost then Some (Error ''HTTP callback requires an explicitly allowed host'')
            else if (case callbackPort u of None \<Rightarrow> True | Some port \<Rightarrow> port \<notin> set (pol_Ports p))
            then Some (Error ''callback port is not allowed'')
            else case resolveAllowed lookup p host trustedHost of Inl e \<Rightarrow> Some e | Inr _ \<Rightarrow> None)"

text \<open>The addresses are tried in order until one connects: the attempts made, and the address connected.\<close>

fun dial_each :: "(Addr \<times> string \<Rightarrow> goerr option) \<Rightarrow> string \<Rightarrow> Addr list \<Rightarrow> (Addr \<times> string) list \<times> Addr option" where
  "dial_each dial port [] = ([], None)"
| "dial_each dial port (a # as) =
     (case dial (a, port) of
        None \<Rightarrow> ([(a, port)], Some a)
      | Some _ \<Rightarrow> (case dial_each dial port as of (tried, res) \<Rightarrow> ((a, port) # tried, res)))"

definition dialContext ::
  "(string \<Rightarrow> Addr list result) \<Rightarrow> (Addr \<times> string \<Rightarrow> goerr option) \<Rightarrow> Policy \<Rightarrow> string \<Rightarrow> string \<Rightarrow>
   (Addr \<times> string) list \<times> Addr result" where
  "dialContext lookup dial p network address =
     (if network \<notin> {''tcp'', ''tcp4'', ''tcp6''} then ([], Inl (Error ''callback network is not allowed''))
      else case SplitHostPort address of
          None \<Rightarrow> ([], Inl (Error ''invalid callback dial address''))
        | Some (host, portText) \<Rightarrow>
            (case ParseUint 16 portText of
               None \<Rightarrow> ([], Inl (Error ''callback port is not allowed''))
             | Some n \<Rightarrow>
                 if of_nat n \<notin> set (pol_Ports p) then ([], Inl (Error ''callback port is not allowed''))
                 else case resolveAllowed lookup p (normalizedHost host) (hostAllowed p (normalizedHost host)) of
                     Inl e \<Rightarrow> ([], Inl e)
                   | Inr addresses \<Rightarrow>
                       (case dial_each dial portText addresses of
                          (tried, Some a) \<Rightarrow> (tried, Inr a)
                        | (tried, None) \<Rightarrow> (tried, Inl (Error ''connect to allowed callback destination'')))))"

section \<open>Properties\<close>

text \<open>An address the policy may contact for a host that was not explicitly allowed.\<close>

definition public_or_listed :: "Policy \<Rightarrow> Addr \<Rightarrow> bool" where
  "public_or_listed p a \<longleftrightarrow>
     (\<exists>pfx\<in>set (pol_CIDRs p). prefix_Contains pfx a) \<or>
     (IsValid a \<and> \<not> IsUnspecified a \<and> \<not> IsLoopback a \<and> \<not> IsPrivate a \<and> \<not> IsLinkLocalUnicast a \<and> \<not> IsMulticast a \<and>
      (\<forall>pfx\<in>set deniedPrefixes. \<not> prefix_Contains pfx a))"

lemma addressAllowed_public: "addressAllowed p a \<Longrightarrow> public_or_listed p a"
  by (auto simp: addressAllowed_def restricted_def public_or_listed_def list_ex_iff)

lemma resolveAllowed_Inr:
  assumes "resolveAllowed lookup p host trusted = Inr as"
  shows "as \<noteq> [] \<and> (trusted \<or> (\<forall>a\<in>set as. public_or_listed p a))"
  using assms addressAllowed_public
  by (auto simp: resolveAllowed_def Let_def split: option.splits sum.splits if_splits)

lemma dial_each_tried:
  assumes "dial_each dial port as = (tried, res)"
  shows "set tried \<subseteq> (\<lambda>a. (a, port)) ` set as"
  using assms
proof (induction as arbitrary: tried res)
  case (Cons a as)
  show ?case
  proof (cases "dial (a, port)")
    case None
    with Cons.prems show ?thesis by auto
  next
    case (Some e)
    then obtain tried' where "dial_each dial port as = (tried', res)" "tried = (a, port) # tried'"
      using Cons.prems by (auto split: prod.splits)
    with Cons.IH show ?thesis by auto
  qed
qed simp

text \<open>(C14) Whatever the resolver answers, the hub attempts a connection only on an allowed port and, unless the
  host is explicitly allowed, only to an address that is listed or public: not loopback, private,
  link-local, multicast, unspecified or in a denied range. The address checked is the address dialed.\<close>

theorem dial_is_confined:
  assumes "dialContext lookup dial p network address = (tried, res)" "(a, portText) \<in> set tried"
  shows "\<exists>host n. SplitHostPort address = Some (host, portText) \<and> ParseUint 16 portText = Some n \<and>
    of_nat n \<in> set (pol_Ports p) \<and> (hostAllowed p (normalizedHost host) \<or> public_or_listed p a)"
proof -
  obtain host pt where sp: "SplitHostPort address = Some (host, pt)"
    using assms by (auto simp: dialContext_def split: if_splits option.splits prod.splits)
  obtain n where n: "ParseUint 16 pt = Some n" "of_nat n \<in> set (pol_Ports p)"
    using assms sp by (auto simp: dialContext_def split: if_splits option.splits)
  obtain as where as: "resolveAllowed lookup p (normalizedHost host) (hostAllowed p (normalizedHost host)) = Inr as"
    using assms sp n by (auto simp: dialContext_def split: if_splits sum.splits)
  obtain r where "dial_each dial pt as = (tried, r)"
    using assms sp n as by (auto simp: dialContext_def split: if_splits prod.splits option.splits)
  from dial_each_tried [OF this] assms(2) have "pt = portText" "a \<in> set as" by auto
  with sp n resolveAllowed_Inr [OF as] show ?thesis by blast
qed

text \<open>A callback URL passes only if it is an HTTP or HTTPS URL with a host, without user information and
  fragment, on an allowed port, over HTTPS unless its host is explicitly allowed, and with at least
  one permitted address.\<close>

theorem ValidateURL_sound:
  assumes "ValidateURL lookup p raw = None"
  shows "\<exists>u port as. url_Parse raw = Some u \<and> Host u \<noteq> [] \<and> Scheme u \<in> {''http'', ''https''} \<and> User u = None \<and>
    Fragment u = [] \<and> callbackPort u = Some port \<and> port \<in> set (pol_Ports p) \<and>
    (Scheme u = ''https'' \<or> hostAllowed p (normalizedHost (Hostname u))) \<and>
    resolveAllowed lookup p (normalizedHost (Hostname u)) (hostAllowed p (normalizedHost (Hostname u))) = Inr as \<and> as \<noteq> []"
proof -
  obtain u where u: "url_Parse raw = Some u" using assms by (auto simp: ValidateURL_def split: option.splits)
  let ?h = "normalizedHost (Hostname u)"
  have g: "Host u \<noteq> []" "Scheme u \<in> {''http'', ''https''}" "User u = None" "Fragment u = []"
    "Scheme u = ''https'' \<or> hostAllowed p ?h"
    using assms u by (auto simp: ValidateURL_def Let_def split: if_splits)
  obtain port where port: "callbackPort u = Some port" "port \<in> set (pol_Ports p)"
    using assms u g by (auto simp: ValidateURL_def Let_def split: if_splits option.splits)
  obtain as where "resolveAllowed lookup p ?h (hostAllowed p ?h) = Inr as"
    using assms u g port by (auto simp: ValidateURL_def Let_def split: if_splits sum.splits)
  with u g port resolveAllowed_Inr show ?thesis by blast
qed

definition sample_policy :: Policy where
  "sample_policy = \<lparr>pol_Ports = [443], pol_Hosts = [''cb''], pol_CIDRs = []\<rparr>"

lemma sample_dial:
  "dialContext (\<lambda>_. Inr [IP4 0x01010101]) (\<lambda>_. None) sample_policy ''tcp'' ''cb:443'' = ([(IP4 0x01010101, ''443'')], Inr (IP4 0x01010101))"
proof -
  have "SplitHostPort ''cb:443'' = Some (''cb'', ''443'')" "ParseAddr ''cb'' = None" "normalizedHost ''cb'' = ''cb''"
    by code_simp+
  moreover have "ParseUint 16 ''443'' = Some 443"
    by (simp add: ParseUint_def is_digit_def digit_val_def byte_def)
  ultimately show ?thesis
    by (simp add: dialContext_def sample_policy_def resolveAllowed_def Let_def Unmap_def hostAllowed_def)
qed

theorem dial_is_confined_witness: "\<exists>host n. SplitHostPort ''cb:443'' = Some (host, ''443'') \<and> ParseUint 16 ''443'' = Some n"
  using dial_is_confined [OF sample_dial, of "IP4 0x01010101" "''443''"] by auto

lemma sample_url: "ValidateURL (\<lambda>_. Inr [IP4 0x01010101]) sample_policy ''http://cb:443/x'' = None"
proof -
  have "url_Parse ''http://cb:443/x'' = Some \<lparr>Scheme = ''http'', User = None, Host = ''cb:443'', Path = ''/x'', RawPath = [], RawQuery = [], Fragment = []\<rparr>"
    "split_host_port ''cb:443'' = (''cb'', ''443'')" "ParseAddr ''cb'' = None" "normalizedHost ''cb'' = ''cb''"
    by code_simp+
  moreover have "ParseUint 16 ''443'' = Some 443"
    by (simp add: ParseUint_def is_digit_def digit_val_def byte_def)
  ultimately show ?thesis
    by (simp add: ValidateURL_def sample_policy_def resolveAllowed_def callbackPort_def Hostname_def Port_def Let_def
        Unmap_def hostAllowed_def)
qed

theorem ValidateURL_sound_witness: "\<exists>u. url_Parse ''http://cb:443/x'' = Some u \<and> User u = None \<and> Fragment u = []"
  using ValidateURL_sound [OF sample_url] by blast

end
