(* ===== verification/Worker.thy ===== *)
theory Worker
  imports Configuration State
begin

text \<open>
  The delivery worker (\<open>internal/delivery/worker.go\<close>): one worker per active subscription reads
  the topic's content and delivers it to the subscriber. Everything outside the worker (message store,
  event log, secret store, HTTP client, clock) answers through the record \<open>worker_env\<close>; an answer may
  depend on everything that happened before. What happened is the trace: every call with its answer, in
  order. Loops take fuel; a run that uses it up is still running and has the result \<^const>\<open>None\<close>, so
  statements about traces hold at every moment of every run.
\<close>

section \<open>Environment\<close>

datatype effect =
    Opened ConsumerSpec "goerr option"
  | Waited duration "goerr option"
  | SecretOpened string string "string result"
  | AttemptBuilt Topic Subscription string "goerr option"
  | Received int "ReceiveBatch result"
  | Attempted Message "int \<times> goerr option"
  | Acked Receipt "goerr option"
  | Nacked Receipt duration "goerr option"
  | DeadLettered Receipt DeadLetter "goerr option"
  | Reconnected "goerr option"
  | Appended event "goerr option"
  | EventIDMade "string result"
  | ClosedConsumer ClosureIntent

type_synonym trace = "effect list"

record worker_env =
  w_open :: "trace \<Rightarrow> goerr option"
  w_wait :: "trace \<Rightarrow> goerr option"
  w_secret :: "trace \<Rightarrow> string result"
  w_attempt :: "trace \<Rightarrow> goerr option"
  w_receive :: "trace \<Rightarrow> ReceiveBatch result"
  w_deliver :: "trace \<Rightarrow> int \<times> goerr option"
  w_ack :: "trace \<Rightarrow> goerr option"
  w_nack :: "trace \<Rightarrow> goerr option"
  w_dead :: "trace \<Rightarrow> goerr option"
  w_reconnect :: "trace \<Rightarrow> goerr option"
  w_append :: "trace \<Rightarrow> goerr option"
  w_event_id :: "trace \<Rightarrow> string result"
  w_now :: "trace \<Rightarrow> gtime"
  w_jitter :: "trace \<Rightarrow> float64"
  w_platform :: "trace \<Rightarrow> duration"
  w_ctx :: "trace \<Rightarrow> goerr option"
  w_stop :: "trace \<Rightarrow> ClosureIntent"

record Worker =
  wk_cfg :: Delivery
  wk_topic :: Topic
  wk_subscription :: Subscription

datatype deliveryResult = resultContinue | resultRedeliver | resultPermanent | resultStale

text \<open>The dependencies are always present; the checks on them are left out.\<close>

definition NewWorker :: "Delivery \<Rightarrow> Topic \<Rightarrow> Subscription \<Rightarrow> Worker result" where
  "NewWorker cfg topic sub =
     (if topic_ID topic = [] \<or> ContentDestination topic = [] \<or> topic_ContentType topic = [] \<or> sub_ID sub = [] \<or>
         sub_ConsumerID sub = []
      then Inl (Error ''complete topic and subscription identities are required'')
      else if \<not> canonical_content_type (topic_ContentType topic) then Inl (Error ''delivery topic content type is invalid'')
      else if sub_TopicID sub \<noteq> topic_ID topic then Inl (Error ''subscription topic does not match delivery topic'')
      else Inr \<lparr>wk_cfg = cfg, wk_topic = topic, wk_subscription = sub\<rparr>)"

section \<open>Helpers\<close>

definition malformed :: "Message \<Rightarrow> string" where
  "malformed m =
     (if StorageError m \<noteq> [] then ''storage_decode'' else if msg_ID m = [] then ''missing_message_id'' else [])"

definition failureClass :: "int \<Rightarrow> goerr option \<Rightarrow> string" where
  "failureClass status err =
     (if 0 < status then ''http_'' @ Itoa (nat status)
      else if err \<noteq> None then ''network_failure'' else ''delivery_failure'')"

definition httpRetryable :: "Worker \<Rightarrow> int \<Rightarrow> bool" where
  "httpRetryable w status = (status = 0 \<or> status \<in> set (RetryStatusCodes (retry_HTTP (Retry (wk_cfg w)))))"

definition messageStoreAction :: "Worker \<Rightarrow> int \<Rightarrow> string" where
  "messageStoreAction w status =
     (let c = retry_MessageStore (Retry (wk_cfg w)) in
      if status \<in> set (RedeliverStatusCodes c) then ''redeliver''
      else if status \<in> set (DeadLetterStatusCodes c) then ''dead_letter''
      else if status \<in> set (FailStatusCodes c) then ''fail''
      else DefaultAction c)"

text \<open>\<open>math.Pow\<close> with a natural exponent: anything to the power zero is one.\<close>

fun float_pow :: "float64 \<Rightarrow> nat \<Rightarrow> float64" where
  "float_pow x 0 = Fin 1"
| "float_pow (Fin b) k = Fin (b ^ k)"
| "float_pow PosInf k = PosInf"
| "float_pow NegInf k = (if even k then PosInf else NegInf)"
| "float_pow NaN k = NaN"

text \<open>Truncation toward zero.\<close>

definition truncate_rat :: "rat \<Rightarrow> int" where
  "truncate_rat q = (if q < 0 then - \<lfloor>- q\<rfloor> else \<lfloor>q\<rfloor>)"

text \<open>The delay in exact arithmetic, for positive intervals. The conversion of a number that is not finite to an
  integer is left to the platform (\<open>other\<close>).\<close>

definition retryDelay :: "HTTPRetry \<Rightarrow> float64 \<Rightarrow> duration \<Rightarrow> nat \<Rightarrow> duration" where
  "retryDelay c jitter other attempt =
     (let n = (if attempt = 0 then 1 else attempt);
          maximum = of_int (MaxInterval c);
          base = (case float_pow (BackoffFactor c) (n - 1) of
              Fin q \<Rightarrow> let x = of_int (InitialInterval c) * q in Fin (if maximum < x then maximum else x)
            | PosInf \<Rightarrow> Fin maximum
            | y \<Rightarrow> y)
      in case (base, JitterFactor c, jitter) of
           (Fin x, Fin j, Fin r) \<Rightarrow> truncate_rat (x * (1 + (r * 2 - 1) * j))
         | _ \<Rightarrow> other)"

definition gone :: "int \<Rightarrow> goerr \<Rightarrow> bool" where
  "gone status err = (status = 410 \<or> errors_is err ErrSubscriptionGone)"

section \<open>State events\<close>

definition worker_metadata :: "worker_env \<Rightarrow> Worker \<Rightarrow> trace \<Rightarrow> trace \<times> EventMetadata result" where
  "worker_metadata env w tr =
     (let answer = w_event_id env tr; tr' = tr @ [EventIDMade answer] in
      case answer of
        Inl e \<Rightarrow> (tr', Inl (Wrap ''generate delivery state event ID'' e))
      | Inr k \<Rightarrow> (tr', Inr \<lparr>meta_SchemaVersion = SchemaVersion, EventID = k, OccurredAt = time_UTC (w_now env tr'),
          meta_Actor = \<lparr>actor_Type = ''delivery'', actor_ID = sub_ServerID (wk_subscription w)\<rparr>\<rparr>))"

definition append_event :: "worker_env \<Rightarrow> event \<Rightarrow> trace \<Rightarrow> trace \<times> goerr option" where
  "append_event env e tr = (let answer = w_append env tr in (tr @ [Appended e answer], answer))"

definition staleResult :: "worker_env \<Rightarrow> Worker \<Rightarrow> string \<Rightarrow> trace \<Rightarrow> trace \<times> deliveryResult result" where
  "staleResult env w reason tr =
     (case worker_metadata env w tr of
        (tr1, Inl e) \<Rightarrow> (tr1, Inl e)
      | (tr1, Inr meta) \<Rightarrow>
          (case append_event env (SubscriptionStaleEvent meta (sub_ID (wk_subscription w)) reason) tr1 of
             (tr2, Some e) \<Rightarrow> (tr2, Inl (Wrap ''persist stale subscription'' e))
           | (tr2, None) \<Rightarrow> (tr2, Inr resultStale)))"

definition worker_remove :: "worker_env \<Rightarrow> Worker \<Rightarrow> string \<Rightarrow> trace \<Rightarrow> trace \<times> deliveryResult result" where
  "worker_remove env w cause tr =
     (case worker_metadata env w tr of
        (tr1, Inl e) \<Rightarrow> (tr1, Inl e)
      | (tr1, Inr meta) \<Rightarrow>
          (case append_event env (SubscriptionRemovedEvent meta (sub_ID (wk_subscription w)) cause) tr1 of
             (tr2, Some e) \<Rightarrow> (tr2, Inl (Wrap ''persist removed subscription'' e))
           | (tr2, None) \<Rightarrow> (tr2, Inr resultPermanent)))"

definition markStale :: "worker_env \<Rightarrow> Worker \<Rightarrow> string \<Rightarrow> trace \<Rightarrow> trace \<times> goerr" where
  "markStale env w reason tr =
     (case staleResult env w reason tr of (tr1, Inl e) \<Rightarrow> (tr1, e) | (tr1, Inr _) \<Rightarrow> (tr1, ErrSubscriptionStale))"

section \<open>One message\<close>

definition settle_ack :: "worker_env \<Rightarrow> Receipt \<Rightarrow> trace \<Rightarrow> trace \<times> deliveryResult result" where
  "settle_ack env receipt tr =
     (let answer = w_ack env tr in
      (tr @ [Acked receipt answer], case answer of None \<Rightarrow> Inr resultContinue | Some e \<Rightarrow> Inl e))"

definition worker_deadLetter :: "worker_env \<Rightarrow> Worker \<Rightarrow> Message \<Rightarrow> string \<Rightarrow> 32 word \<Rightarrow> trace \<Rightarrow> trace \<times> DeadLetter result" where
  "worker_deadLetter env w message failure attempt tr =
     (let letter = (\<lambda>m. \<lparr>dl_Destination = DLQDestination (wk_cfg w), dl_Message = m, dl_TopicID = topic_ID (wk_topic w),
            dl_SubscriptionID = sub_ID (wk_subscription w), FailureClass = failure, Attempt = attempt,
            dl_StorageError = StorageError message\<rparr>);
          cleared = message\<lparr>StorageError := []\<rparr>
      in if msg_ID message = [] then
           (let answer = w_event_id env tr; tr' = tr @ [EventIDMade answer] in
            case answer of
              Inl e \<Rightarrow> (tr', Inl (Wrap ''generate malformed DLQ message ID'' e))
            | Inr k \<Rightarrow> (tr', Inr (letter (cleared\<lparr>msg_ID := ''dlq-'' @ k\<rparr>))))
         else (tr, Inr (letter cleared)))"

definition settle_dead_letter ::
  "worker_env \<Rightarrow> Receipt \<Rightarrow> DeadLetter \<Rightarrow> trace \<Rightarrow> trace \<times> goerr option" where
  "settle_dead_letter env receipt letter tr =
     (let answer = w_dead env tr in (tr @ [DeadLettered receipt letter answer], answer))"

text \<open>The retry loop of the HTTP strategy. \<open>attempt\<close> is the 32-bit counter before the next attempt.\<close>

fun deliverHTTP_loop ::
  "nat \<Rightarrow> worker_env \<Rightarrow> Worker \<Rightarrow> ReceivedMessage \<Rightarrow> 32 word \<Rightarrow> trace \<Rightarrow> trace \<times> deliveryResult result option" where
  "deliverHTTP_loop 0 env w received attempt tr = (tr, None)"
| "deliverHTTP_loop (Suc fuel) env w received attempt tr =
     (let n = attempt + 1; answer = w_deliver env tr; tr1 = tr @ [Attempted (rcv_Message received) answer]; status = fst answer in
      case snd answer of
        None \<Rightarrow> (case settle_ack env (rcv_Receipt received) tr1 of (tr2, res) \<Rightarrow> (tr2, Some res))
      | Some err \<Rightarrow>
          if gone status err
          then (case worker_remove env w ''http_410'' tr1 of (tr2, res) \<Rightarrow> (tr2, Some res))
          else if \<not> httpRetryable w status
          then (case staleResult env w (failureClass status (Some err)) tr1 of (tr2, res) \<Rightarrow> (tr2, Some res))
          else let http = retry_HTTP (Retry (wk_cfg w)); exhausted = (of_int (MaxAttempts http) \<le> n) in
            if exhausted \<and> \<not> ResetOnExhaust http
            then (case staleResult env w ''retry_exhausted'' tr1 of (tr2, res) \<Rightarrow> (tr2, Some res))
            else let n' = (if exhausted then 0 else n);
                     delay = retryDelay http (w_jitter env tr1) (w_platform env tr1) (unat n');
                     waited = w_wait env tr1; tr2 = tr1 @ [Waited delay waited]
              in case waited of
                   Some e \<Rightarrow> (tr2, Some (Inl e))
                 | None \<Rightarrow> deliverHTTP_loop fuel env w received n' tr2)"

definition deliverHTTP ::
  "nat \<Rightarrow> worker_env \<Rightarrow> Worker \<Rightarrow> ReceivedMessage \<Rightarrow> trace \<Rightarrow> trace \<times> deliveryResult result option" where
  "deliverHTTP fuel env w received tr = deliverHTTP_loop fuel env w received 0 tr"

definition deliverMessageStore ::
  "worker_env \<Rightarrow> Worker \<Rightarrow> ReceivedMessage \<Rightarrow> trace \<Rightarrow> trace \<times> deliveryResult result" where
  "deliverMessageStore env w received tr =
     (let answer = w_deliver env tr; tr1 = tr @ [Attempted (rcv_Message received) answer]; status = fst answer;
          c = retry_MessageStore (Retry (wk_cfg w)) in
      case snd answer of
        None \<Rightarrow> settle_ack env (rcv_Receipt received) tr1
      | Some err \<Rightarrow>
          if gone status err then worker_remove env w ''http_410'' tr1
          else let action = (if status = 0 then NetworkFailureAction c else messageStoreAction w status) in
            if action = ''redeliver'' then
              (let answer2 = w_nack env tr1 in
               (tr1 @ [Nacked (rcv_Receipt received) (Delay c) answer2],
                case answer2 of None \<Rightarrow> Inr resultRedeliver | Some e \<Rightarrow> Inl e))
            else if action = ''dead_letter'' then
              (case worker_deadLetter env w (rcv_Message received) (failureClass status (Some err)) 1 tr1 of
                 (tr2, Inl e) \<Rightarrow> (tr2, Inl e)
               | (tr2, Inr letter) \<Rightarrow>
                   (case settle_dead_letter env (rcv_Receipt received) letter tr2 of
                      (tr3, Some e) \<Rightarrow> (tr3, Inl e) | (tr3, None) \<Rightarrow> (tr3, Inr resultContinue)))
            else staleResult env w (failureClass status (Some err)) tr1)"

definition worker_deliver ::
  "nat \<Rightarrow> worker_env \<Rightarrow> Worker \<Rightarrow> ReceivedMessage \<Rightarrow> trace \<Rightarrow> trace \<times> deliveryResult result option" where
  "worker_deliver fuel env w received tr =
     (let failure = malformed (rcv_Message received) in
      if failure \<noteq> [] then
        (case worker_deadLetter env w (rcv_Message received) failure 0 tr of
           (tr1, Inl e) \<Rightarrow> (tr1, Some (Inl e))
         | (tr1, Inr letter) \<Rightarrow>
             (case settle_dead_letter env (rcv_Receipt received) letter tr1 of
                (tr2, Some e) \<Rightarrow> (tr2, Some (Inl (Wrap ''dead-letter malformed content'' e)))
              | (tr2, None) \<Rightarrow> (tr2, Some (Inr resultContinue))))
      else if Strategy (Retry (wk_cfg w)) = ''message_store'' then
        (case deliverMessageStore env w received tr of (tr1, res) \<Rightarrow> (tr1, Some res))
      else deliverHTTP fuel env w received tr)"

section \<open>The worker loop\<close>

definition worker_openSecret :: "worker_env \<Rightarrow> Worker \<Rightarrow> trace \<Rightarrow> trace \<times> string result" where
  "worker_openSecret env w tr =
     (let sub = wk_subscription w in
      if SecretCiphertext sub = [] \<and> SecretKeyID sub = [] then (tr, Inr [])
      else if SecretCiphertext sub = [] \<or> SecretKeyID sub = [] then (tr, Inl (Error ''incomplete protected secret''))
      else let answer = w_secret env tr in (tr @ [SecretOpened (SecretCiphertext sub) (SecretKeyID sub) answer], answer))"

fun worker_reconnect :: "nat \<Rightarrow> worker_env \<Rightarrow> Worker \<Rightarrow> trace \<Rightarrow> trace \<times> goerr option option" where
  "worker_reconnect 0 env w tr = (tr, None)"
| "worker_reconnect (Suc fuel) env w tr =
     (let waited = w_wait env tr; tr1 = tr @ [Waited (ReconnectInterval (wk_cfg w)) waited] in
      case waited of
        Some e \<Rightarrow> (tr1, Some (Some e))
      | None \<Rightarrow>
          let answer = w_reconnect env tr1; tr2 = tr1 @ [Reconnected answer] in
          if answer = None then (tr2, Some None)
          else if w_ctx env tr2 \<noteq> None then (tr2, Some (w_ctx env tr2))
          else worker_reconnect fuel env w tr2)"

text \<open>How a batch ends: go on, or end the run with a result or an error. \<^const>\<open>None\<close> is a run out of fuel.\<close>

datatype batch_end = GoOn | EndPermanent | EndStale | EndError goerr

fun deliver_batch ::
  "nat \<Rightarrow> worker_env \<Rightarrow> Worker \<Rightarrow> ReceivedMessage list \<Rightarrow> trace \<Rightarrow> trace \<times> batch_end option" where
  "deliver_batch fuel env w [] tr = (tr, Some GoOn)"
| "deliver_batch fuel env w (m # ms) tr =
     (case worker_deliver fuel env w m tr of
        (tr1, None) \<Rightarrow> (tr1, None)
      | (tr1, Some (Inl e)) \<Rightarrow> (tr1, Some (EndError e))
      | (tr1, Some (Inr resultContinue)) \<Rightarrow> deliver_batch fuel env w ms tr1
      | (tr1, Some (Inr resultRedeliver)) \<Rightarrow> (tr1, Some GoOn)
      | (tr1, Some (Inr resultPermanent)) \<Rightarrow> (tr1, Some EndPermanent)
      | (tr1, Some (Inr resultStale)) \<Rightarrow> (tr1, Some EndStale))"

text \<open>The result of a run: the error returned, and whether the run itself asked for permanent closure.\<close>

fun worker_loop ::
  "nat \<Rightarrow> worker_env \<Rightarrow> Worker \<Rightarrow> trace \<Rightarrow> trace \<times> (goerr option \<times> bool) option" where
  "worker_loop 0 env w tr = (tr, None)"
| "worker_loop (Suc fuel) env w tr =
     (let answer = w_receive env tr; tr1 = tr @ [Received (del_ConsumerBatchSize (wk_cfg w)) answer] in
      case answer of
        Inl e \<Rightarrow>
          if w_ctx env tr1 \<noteq> None then (tr1, Some (w_ctx env tr1, False))
          else (case worker_reconnect fuel env w tr1 of
              (tr2, None) \<Rightarrow> (tr2, None)
            | (tr2, Some (Some e2)) \<Rightarrow> (tr2, Some (Some e2, False))
            | (tr2, Some None) \<Rightarrow> worker_loop fuel env w tr2)
      | Inr batch \<Rightarrow>
          (case deliver_batch fuel env w (Messages batch) tr1 of
             (tr2, None) \<Rightarrow> (tr2, None)
           | (tr2, Some GoOn) \<Rightarrow> worker_loop fuel env w tr2
           | (tr2, Some EndPermanent) \<Rightarrow> (tr2, Some (None, True))
           | (tr2, Some EndStale) \<Rightarrow> (tr2, Some (Some ErrSubscriptionStale, False))
           | (tr2, Some (EndError e)) \<Rightarrow> (tr2, Some (Some e, False))))"

fun open_loop ::
  "nat \<Rightarrow> worker_env \<Rightarrow> Worker \<Rightarrow> ConsumerSpec \<Rightarrow> trace \<Rightarrow> trace \<times> goerr option option" where
  "open_loop 0 env w spec tr = (tr, None)"
| "open_loop (Suc fuel) env w spec tr =
     (let answer = w_open env tr; tr1 = tr @ [Opened spec answer] in
      case answer of
        None \<Rightarrow> (tr1, Some None)
      | Some err \<Rightarrow>
          if snd (PermanentSubscriptionReason (Some err))
          then (case markStale env w ''message_store_subscription_invalid'' tr1 of (tr2, e) \<Rightarrow> (tr2, Some (Some e)))
          else let waited = w_wait env tr1; tr2 = tr1 @ [Waited (ReconnectInterval (wk_cfg w)) waited] in
            (case waited of Some e \<Rightarrow> (tr2, Some (Some e)) | None \<Rightarrow> open_loop fuel env w spec tr2))"

text \<open>The deferred close: permanent when the run ended permanently or a permanent stop was requested.\<close>

definition close_with :: "worker_env \<Rightarrow> bool \<Rightarrow> trace \<Rightarrow> trace" where
  "close_with env permanently tr =
     tr @ [ClosedConsumer (if permanently \<or> w_stop env tr = ClosePermanent then ClosePermanent else CloseTemporary)]"

definition Worker_Run :: "nat \<Rightarrow> worker_env \<Rightarrow> Worker \<Rightarrow> trace \<Rightarrow> trace \<times> goerr option option" where
  "Worker_Run fuel env w tr =
     (case NewSubscriptionOptions (Parameters (wk_subscription w)) of
        Inl _ \<Rightarrow> (case markStale env w ''message_store_subscription_invalid'' tr of (tr1, e) \<Rightarrow> (tr1, Some (Some e)))
      | Inr options \<Rightarrow>
         let spec = \<lparr>spec_ID = sub_ConsumerID (wk_subscription w), spec_Destination = ContentDestination (wk_topic w),
               spec_StartPosition = StartLatest, spec_Subscription = Some options\<rparr> in
         (case open_loop fuel env w spec tr of
            (tr1, None) \<Rightarrow> (tr1, None)
          | (tr1, Some (Some e)) \<Rightarrow> (tr1, Some (Some e))
          | (tr1, Some None) \<Rightarrow>
              (case worker_openSecret env w tr1 of
                 (tr2, Inl _) \<Rightarrow>
                   (case markStale env w ''secret_unavailable'' tr2 of (tr3, e) \<Rightarrow> (close_with env False tr3, Some (Some e)))
               | (tr2, Inr secret) \<Rightarrow>
                   let answer = w_attempt env tr2;
                       tr3 = tr2 @ [AttemptBuilt (wk_topic w) (wk_subscription w) secret answer] in
                   if answer \<noteq> None then
                     (case markStale env w ''delivery_client_invalid'' tr3 of (tr4, e) \<Rightarrow> (close_with env False tr4, Some (Some e)))
                   else (case worker_loop fuel env w tr3 of
                       (tr4, None) \<Rightarrow> (tr4, None)
                     | (tr4, Some (err, permanently)) \<Rightarrow> (close_with env permanently tr4, Some err)))))"

section \<open>The discipline of a trace\<close>

text \<open>A message the consumer has handed out.\<close>

definition handed_out :: "trace \<Rightarrow> Message \<Rightarrow> Receipt \<Rightarrow> bool" where
  "handed_out tr m r \<longleftrightarrow>
     (\<exists>n b x. Received n (Inr b) \<in> set tr \<and> x \<in> set (Messages b) \<and> rcv_Message x = m \<and> rcv_Receipt x = r)"

definition removal_persisted :: "Worker \<Rightarrow> trace \<Rightarrow> bool" where
  "removal_persisted w tr \<longleftrightarrow>
     (\<exists>meta cause. Appended (SubscriptionRemovedEvent meta (sub_ID (wk_subscription w)) cause) None \<in> set tr)"

text \<open>When the worker may make a call, given what happened before.\<close>

definition may :: "worker_env \<Rightarrow> Worker \<Rightarrow> trace \<Rightarrow> effect \<Rightarrow> bool" where
  "may env w tr e =
     (case e of
        Attempted m _ \<Rightarrow> malformed m = [] \<and> (\<exists>r. handed_out tr m r)
      | Received _ answer \<Rightarrow> answer = w_receive env tr
      | Acked r _ \<Rightarrow> (\<exists>tr' m st. tr = tr' @ [Attempted m (st, None)] \<and> handed_out tr' m r)
      | Nacked r _ _ \<Rightarrow> (\<exists>tr' m st err. tr = tr' @ [Attempted m (st, Some err)] \<and> handed_out tr' m r)
      | DeadLettered r l _ \<Rightarrow>
          (\<exists>m. handed_out tr m r \<and> Body (dl_Message l) = Body m \<and> StorageError (dl_Message l) = [] \<and>
             dl_StorageError l = StorageError m \<and>
             (malformed m \<noteq> [] \<or> (\<exists>st err. Attempted m (st, Some err) \<in> set tr)))
      | Appended ev _ \<Rightarrow>
          (case ev of
             SubscriptionStaleEvent _ k _ \<Rightarrow> k = sub_ID (wk_subscription w)
           | SubscriptionRemovedEvent _ k _ \<Rightarrow> k = sub_ID (wk_subscription w) \<and>
               (\<exists>m st err. Attempted m (st, Some err) \<in> set tr \<and> gone st err)
           | _ \<Rightarrow> False)
      | ClosedConsumer intent \<Rightarrow>
          intent = ClosePermanent \<longrightarrow> w_stop env tr = ClosePermanent \<or> removal_persisted w tr
      | _ \<Rightarrow> True)"

definition disciplined :: "worker_env \<Rightarrow> Worker \<Rightarrow> trace \<Rightarrow> bool" where
  "disciplined env w tr \<longleftrightarrow> (\<forall>i<length tr. may env w (take i tr) (tr ! i))"

definition extends :: "worker_env \<Rightarrow> Worker \<Rightarrow> trace \<Rightarrow> trace \<Rightarrow> bool" where
  "extends env w tr tr' \<longleftrightarrow> (disciplined env w tr \<longrightarrow> disciplined env w tr') \<and> (\<exists>seg. tr' = tr @ seg)"

lemma disciplined_snoc: "disciplined env w (tr @ [e]) \<longleftrightarrow> disciplined env w tr \<and> may env w tr e"
  by (auto simp: disciplined_def less_Suc_eq nth_append)

lemma extends_refl [simp]: "extends env w tr tr"
  by (simp add: extends_def)

lemma extends_trans: "extends env w tr tr1 \<Longrightarrow> extends env w tr1 tr2 \<Longrightarrow> extends env w tr tr2"
  by (auto simp: extends_def)

lemma extends_snoc: "may env w tr e \<Longrightarrow> extends env w tr (tr @ [e])"
  by (simp add: extends_def disciplined_snoc)

lemma extends_set: "extends env w tr tr' \<Longrightarrow> x \<in> set tr \<Longrightarrow> x \<in> set tr'"
  by (auto simp: extends_def)

lemma handed_out_mono: "handed_out tr m r \<Longrightarrow> handed_out (tr @ seg) m r"
  unfolding handed_out_def by auto

lemma handed_out_extends: "extends env w tr tr' \<Longrightarrow> handed_out tr m r \<Longrightarrow> handed_out tr' m r"
  by (auto simp: extends_def handed_out_mono)

lemma worker_metadata_extends:
  "worker_metadata env w tr = (tr', res) \<Longrightarrow> extends env w tr tr'"
  by (auto simp: worker_metadata_def Let_def may_def intro!: extends_snoc split: sum.splits)

lemma staleResult_extends:
  assumes "staleResult env w reason tr = (tr', res)"
  shows "extends env w tr tr' \<and> res \<noteq> Inr resultPermanent"
proof -
  obtain tr1 m where m: "worker_metadata env w tr = (tr1, m)" by fastforce
  have "extends env w tr1 (tr1 @ [Appended (SubscriptionStaleEvent meta (sub_ID (wk_subscription w)) reason) a])" for meta a
    by (rule extends_snoc) (simp add: may_def)
  with assms m worker_metadata_extends [OF m] show ?thesis
    by (auto simp: staleResult_def append_event_def Let_def split: sum.splits option.splits intro: extends_trans)
qed

lemma markStale_extends: "markStale env w reason tr = (tr', e) \<Longrightarrow> extends env w tr tr'"
  using staleResult_extends [of env w reason tr] by (auto simp: markStale_def split: prod.splits sum.splits)

lemma removal_persisted_snoc [simp]:
  "removal_persisted w (tr @ [Appended (SubscriptionRemovedEvent meta (sub_ID (wk_subscription w)) cause) None])"
  unfolding removal_persisted_def by auto

lemma worker_remove_extends:
  assumes "worker_remove env w cause tr = (tr', res)" "Attempted m (st, Some err) \<in> set tr" "gone st err"
  shows "extends env w tr tr' \<and> (res = Inr resultPermanent \<longrightarrow> removal_persisted w tr')"
proof -
  obtain tr1 md where m: "worker_metadata env w tr = (tr1, md)" by fastforce
  have ext: "extends env w tr tr1" by (rule worker_metadata_extends [OF m])
  with assms(2,3) have "extends env w tr1 (tr1 @ [Appended (SubscriptionRemovedEvent meta (sub_ID (wk_subscription w)) cause) a])" for meta a
    by (intro extends_snoc) (auto simp: may_def dest: extends_set)
  with assms(1) m ext show ?thesis
    by (auto simp: worker_remove_def append_event_def Let_def
        split: sum.splits option.splits intro: extends_trans)
qed

lemma settle_ack_extends:
  assumes "settle_ack env r (tr @ [Attempted m (st, None)]) = (tr', res)" "handed_out tr m r"
  shows "extends env w (tr @ [Attempted m (st, None)]) tr' \<and> res \<noteq> Inr resultPermanent"
proof -
  let ?tr = "tr @ [Attempted m (st, None)]"
  have "extends env w ?tr (?tr @ [Acked r a])" for a
    using assms(2) by (intro extends_snoc) (auto simp: may_def)
  then show ?thesis using assms(1) by (auto simp: settle_ack_def Let_def split: option.splits)
qed

lemma attempt_extends:
  "malformed m = [] \<Longrightarrow> handed_out tr m r \<Longrightarrow> extends env w tr (tr @ [Attempted m a])"
  by (rule extends_snoc) (auto simp: may_def)

lemma deliverHTTP_loop_extends:
  assumes "deliverHTTP_loop fuel env w x n tr = (tr', res)"
    "malformed (rcv_Message x) = []" "handed_out tr (rcv_Message x) (rcv_Receipt x)"
  shows "extends env w tr tr' \<and> (res = Some (Inr resultPermanent) \<longrightarrow> removal_persisted w tr')"
  using assms
proof (induction fuel arbitrary: n tr)
  case (Suc fuel)
  obtain st err where a: "w_deliver env tr = (st, err)" by fastforce
  let ?m = "rcv_Message x"
  let ?tr1 = "tr @ [Attempted ?m (st, err)]"
  note att = attempt_extends [OF Suc.prems(2,3), of env w "(st, err)"]
  have ho: "handed_out ?tr1 ?m (rcv_Receipt x)" using Suc.prems(3) by (rule handed_out_mono)
  show ?case
  proof (cases err)
    case None
    obtain tr2 r where sa: "settle_ack env (rcv_Receipt x) ?tr1 = (tr2, r)" by fastforce
    with Suc.prems(1) a None have "tr' = tr2" "res = Some r" by (simp_all add: Let_def)
    with settle_ack_extends [OF sa [unfolded None] Suc.prems(3), of w] att None show ?thesis
      by (auto intro: extends_trans)
  next
    case (Some er)
    obtain tr2 r where rm: "worker_remove env w ''http_410'' ?tr1 = (tr2, r)" by fastforce
    obtain tr3 r3 where sr: "staleResult env w (failureClass st (Some er)) ?tr1 = (tr3, r3)" by fastforce
    obtain tr4 r4 where se: "staleResult env w ''retry_exhausted'' ?tr1 = (tr4, r4)" by fastforce
    define http where "http = retry_HTTP (Retry (wk_cfg w))"
    define n' where "n' = (if of_int (MaxAttempts http) \<le> n + 1 then 0 else n + 1)"
    let ?wt = "w_wait env ?tr1"
    let ?tr5 = "?tr1 @ [Waited (retryDelay http (w_jitter env ?tr1) (w_platform env ?tr1) (unat n')) ?wt]"
    have wait: "extends env w ?tr1 ?tr5" by (rule extends_snoc) (simp add: may_def)
    consider (gone) "gone st er" "tr' = tr2" "res = Some r"
      | (stale) "tr' = tr3" "res = Some r3" | (exhausted) "tr' = tr4" "res = Some r4"
      | (cancelled) e where "tr' = ?tr5" "res = Some (Inl e)"
      | (again) "deliverHTTP_loop fuel env w x n' ?tr5 = (tr', res)"
      using Suc.prems(1) a Some rm sr se
      by (cases "w_wait env ?tr1") (auto simp: Let_def http_def n'_def split: if_splits)
    then show ?thesis
    proof cases
      case gone
      with worker_remove_extends [OF rm, of ?m st er] Some att show ?thesis by (auto intro: extends_trans)
    next
      case stale
      with staleResult_extends [OF sr] att show ?thesis by (auto intro: extends_trans)
    next
      case exhausted
      with staleResult_extends [OF se] att show ?thesis by (auto intro: extends_trans)
    next
      case cancelled
      with wait att show ?thesis by (auto intro: extends_trans)
    next
      case again
      from Suc.IH [OF this Suc.prems(2)] ho handed_out_mono show ?thesis
        using wait att extends_trans by blast
    qed
  qed
qed simp

lemma worker_deadLetter_extends:
  assumes "worker_deadLetter env w m failure n tr = (tr', res)"
  shows "extends env w tr tr' \<and>
    (\<forall>l. res = Inr l \<longrightarrow> Body (dl_Message l) = Body m \<and> StorageError (dl_Message l) = [] \<and> dl_StorageError l = StorageError m)"
proof -
  have "extends env w tr (tr @ [EventIDMade a])" for a by (rule extends_snoc) (simp add: may_def)
  with assms show ?thesis by (auto simp: worker_deadLetter_def Let_def split: if_splits sum.splits)
qed

lemma settle_dead_letter_extends:
  assumes "settle_dead_letter env r l tr = (tr', res)" "handed_out tr m r"
    "Body (dl_Message l) = Body m" "StorageError (dl_Message l) = []" "dl_StorageError l = StorageError m"
    "malformed m \<noteq> [] \<or> Attempted m (st, Some err) \<in> set tr"
  shows "extends env w tr tr'"
proof -
  have "may env w tr (DeadLettered r l a)" for a
    unfolding may_def effect.case using assms(2-6) by blast
  then show ?thesis using assms(1) by (auto simp: settle_dead_letter_def Let_def intro!: extends_snoc)
qed

lemma deliverMessageStore_extends:
  assumes "deliverMessageStore env w x tr = (tr', res)"
    "malformed (rcv_Message x) = []" "handed_out tr (rcv_Message x) (rcv_Receipt x)"
  shows "extends env w tr tr' \<and> (res = Inr resultPermanent \<longrightarrow> removal_persisted w tr')"
proof -
  obtain st err where a: "w_deliver env tr = (st, err)" by fastforce
  let ?m = "rcv_Message x" and ?c = "retry_MessageStore (Retry (wk_cfg w))"
  let ?tr1 = "tr @ [Attempted ?m (st, err)]"
  note att = attempt_extends [OF assms(2,3), of env w "(st, err)"]
  have ho: "handed_out ?tr1 ?m (rcv_Receipt x)" using assms(3) by (rule handed_out_mono)
  show ?thesis
  proof (cases err)
    case None
    with assms(1) a have "settle_ack env (rcv_Receipt x) ?tr1 = (tr', res)" by (simp add: deliverMessageStore_def Let_def)
    with settle_ack_extends [OF _ assms(3), of env st tr' res w] None att show ?thesis by (auto intro: extends_trans)
  next
    case (Some er)
    obtain tr2 l where dl: "worker_deadLetter env w ?m (failureClass st (Some er)) 1 ?tr1 = (tr2, l)" by fastforce
    note dlx = worker_deadLetter_extends [OF dl]
    have nack: "extends env w ?tr1 (?tr1 @ [Nacked (rcv_Receipt x) (Delay ?c) a])" for a
      using assms(3) Some by (intro extends_snoc) (auto simp: may_def)
    consider (gone) "gone st er" "worker_remove env w ''http_410'' ?tr1 = (tr', res)"
      | (nacked) a where "tr' = ?tr1 @ [Nacked (rcv_Receipt x) (Delay ?c) a]" "res \<noteq> Inr resultPermanent"
      | (unbuilt) e where "tr' = tr2" "res = Inl e"
      | (dead) l' r where "l = Inr l'" "settle_dead_letter env (rcv_Receipt x) l' tr2 = (tr', r)" "res \<noteq> Inr resultPermanent"
      | (stale) "staleResult env w (failureClass st (Some er)) ?tr1 = (tr', res)"
      using assms(1) a Some dl
      by (auto simp: deliverMessageStore_def Let_def split: if_splits option.splits sum.splits prod.splits)
    then show ?thesis
    proof cases
      case gone
      with worker_remove_extends [OF gone(2), of ?m st er] Some att show ?thesis by (auto intro: extends_trans)
    next
      case nacked
      with nack att show ?thesis by (auto intro: extends_trans)
    next
      case unbuilt
      with dlx att show ?thesis by (auto intro: extends_trans)
    next
      case dead
      have "extends env w tr2 tr'"
        by (rule settle_dead_letter_extends [OF dead(2), of ?m st er])
          (use dlx dead(1) ho handed_out_extends Some extends_set [of env w ?tr1 tr2] in auto)
      with dlx att dead(3) show ?thesis by (auto intro: extends_trans)
    next
      case stale
      with staleResult_extends [OF stale] att show ?thesis by (auto intro: extends_trans)
    qed
  qed
qed

lemma worker_deliver_extends:
  assumes "worker_deliver fuel env w x tr = (tr', res)" "handed_out tr (rcv_Message x) (rcv_Receipt x)"
  shows "extends env w tr tr' \<and> (res = Some (Inr resultPermanent) \<longrightarrow> removal_persisted w tr')"
proof (cases "malformed (rcv_Message x) = []")
  case True
  then show ?thesis
    using assms deliverHTTP_loop_extends [of fuel env w x 0 tr tr' res]
      deliverMessageStore_extends [of env w x tr tr']
    by (auto simp: worker_deliver_def deliverHTTP_def Let_def split: if_splits prod.splits)
next
  case False
  obtain tr1 l where dl: "worker_deadLetter env w (rcv_Message x) (malformed (rcv_Message x)) 0 tr = (tr1, l)" by fastforce
  note dlx = worker_deadLetter_extends [OF dl]
  show ?thesis
  proof (cases l)
    case (Inl e)
    with assms(1) dl False have "tr' = tr1" "res = Some (Inl e)" by (simp_all add: worker_deliver_def Let_def)
    with dlx show ?thesis by simp
  next
    case (Inr l')
    obtain tr2 r where sd: "settle_dead_letter env (rcv_Receipt x) l' tr1 = (tr2, r)" by fastforce
    have "extends env w tr1 tr2"
      by (rule settle_dead_letter_extends [OF sd, of "rcv_Message x"])
        (use dlx Inr assms(2) False handed_out_extends in auto)
    moreover have "tr' = tr2" "res \<noteq> Some (Inr resultPermanent)"
      using assms(1) dl False Inr sd by (auto simp: worker_deliver_def Let_def split: option.splits)
    ultimately show ?thesis using dlx by (auto intro: extends_trans)
  qed
qed

lemma deliver_batch_extends:
  assumes "deliver_batch fuel env w ms tr = (tr', res)"
    "\<And>x. x \<in> set ms \<Longrightarrow> handed_out tr (rcv_Message x) (rcv_Receipt x)"
  shows "extends env w tr tr' \<and> (res = Some EndPermanent \<longrightarrow> removal_persisted w tr')"
  using assms
proof (induction ms arbitrary: tr)
  case (Cons m ms)
  obtain tr1 r where d: "worker_deliver fuel env w m tr = (tr1, r)" by fastforce
  note dx = worker_deliver_extends [OF d Cons.prems(2)]
  consider (more) "deliver_batch fuel env w ms tr1 = (tr', res)"
    | (stop) "tr' = tr1" "res = Some EndPermanent \<longrightarrow> r = Some (Inr resultPermanent)"
    using Cons.prems(1) d by (auto split: option.splits sum.splits deliveryResult.splits)
  then show ?case
  proof cases
    case more
    have "handed_out tr1 (rcv_Message x) (rcv_Receipt x)" if "x \<in> set ms" for x
      using that Cons.prems(2) dx handed_out_extends [of env w tr tr1] by simp
    from Cons.IH [OF more this] dx show ?thesis by (auto intro: extends_trans)
  qed (use dx in auto)
qed auto

lemma worker_reconnect_extends: "worker_reconnect fuel env w tr = (tr', res) \<Longrightarrow> extends env w tr tr'"
proof (induction fuel arbitrary: tr)
  case (Suc fuel)
  let ?tr1 = "tr @ [Waited (ReconnectInterval (wk_cfg w)) (w_wait env tr)]"
  let ?tr2 = "?tr1 @ [Reconnected (w_reconnect env ?tr1)]"
  have e: "extends env w tr ?tr1" "extends env w ?tr1 ?tr2" by (rule extends_snoc, simp add: may_def)+
  then have "extends env w tr ?tr2" by (rule extends_trans)
  with Suc e show ?case
    by (auto simp: Let_def split: option.splits if_splits intro: extends_trans)
qed simp

lemma worker_loop_extends:
  assumes "worker_loop fuel env w tr = (tr', res)"
  shows "extends env w tr tr' \<and> (\<forall>e. res = Some (e, True) \<longrightarrow> removal_persisted w tr')"
  using assms
proof (induction fuel arbitrary: tr)
  case (Suc fuel)
  let ?tr1 = "tr @ [Received (del_ConsumerBatchSize (wk_cfg w)) (w_receive env tr)]"
  have e1: "extends env w tr ?tr1" by (rule extends_snoc) (simp add: may_def)
  show ?case
  proof (cases "w_receive env tr")
    case (Inl err)
    obtain tr2 r where rc: "worker_reconnect fuel env w ?tr1 = (tr2, r)" by fastforce
    have "extends env w tr tr2" using e1 worker_reconnect_extends [OF rc] by (rule extends_trans)
    moreover consider "tr' = ?tr1" "\<forall>e. res \<noteq> Some (e, True)" | "tr' = tr2" "\<forall>e. res \<noteq> Some (e, True)"
      | "worker_loop fuel env w tr2 = (tr', res)"
      using Suc.prems Inl rc by (auto simp: Let_def split: if_splits option.splits)
    ultimately show ?thesis using Suc.IH e1 by (auto intro: extends_trans)
  next
    case (Inr b)
    obtain tr2 r where db: "deliver_batch fuel env w (Messages b) ?tr1 = (tr2, r)" by fastforce
    have "handed_out ?tr1 (rcv_Message x) (rcv_Receipt x)" if "x \<in> set (Messages b)" for x
      using that Inr unfolding handed_out_def by auto
    from deliver_batch_extends [OF db this] e1
    have dx: "extends env w tr tr2" "r = Some EndPermanent \<longrightarrow> removal_persisted w tr2" by (auto intro: extends_trans)
    consider "tr' = tr2" "\<forall>e. res = Some (e, True) \<longrightarrow> r = Some EndPermanent" | "worker_loop fuel env w tr2 = (tr', res)"
      using Suc.prems Inr db by (auto simp: Let_def split: option.splits batch_end.splits)
    then show ?thesis using Suc.IH dx by (auto intro: extends_trans)
  qed
qed simp

lemma open_loop_extends: "open_loop fuel env w spec tr = (tr', res) \<Longrightarrow> extends env w tr tr'"
proof (induction fuel arbitrary: tr)
  case (Suc fuel)
  let ?tr1 = "tr @ [Opened spec (w_open env tr)]"
  let ?tr2 = "?tr1 @ [Waited (ReconnectInterval (wk_cfg w)) (w_wait env ?tr1)]"
  obtain tr3 e3 where ms: "markStale env w ''message_store_subscription_invalid'' ?tr1 = (tr3, e3)" by fastforce
  have e: "extends env w tr ?tr1" "extends env w ?tr1 ?tr2" by (rule extends_snoc, simp add: may_def)+
  then have "extends env w tr ?tr2" by (rule extends_trans)
  moreover consider "tr' = ?tr1" | "tr' = tr3" | "tr' = ?tr2" | "open_loop fuel env w spec ?tr2 = (tr', res)"
    using Suc.prems ms by (auto simp: Let_def split: option.splits if_splits)
  ultimately show ?case using Suc.IH e markStale_extends [OF ms] by (auto intro: extends_trans)
qed simp

lemma close_with_extends:
  "permanently \<Longrightarrow> removal_persisted w tr \<Longrightarrow> extends env w tr (close_with env permanently tr)"
  "\<not> permanently \<Longrightarrow> extends env w tr (close_with env permanently tr)"
  by (auto simp: close_with_def may_def intro!: extends_snoc)

lemma Worker_Run_extends: "Worker_Run fuel env w tr = (tr', res) \<Longrightarrow> extends env w tr tr'"
proof -
  assume run: "Worker_Run fuel env w tr = (tr', res)"
  show ?thesis
  proof (cases "NewSubscriptionOptions (Parameters (wk_subscription w))")
    case (Inl e)
    with run show ?thesis using markStale_extends by (auto simp: Worker_Run_def split: prod.splits)
  next
    case (Inr options)
    define spec where "spec = \<lparr>spec_ID = sub_ConsumerID (wk_subscription w), spec_Destination = ContentDestination (wk_topic w),
               spec_StartPosition = StartLatest, spec_Subscription = Some options\<rparr>"
    obtain tr1 r1 where op: "open_loop fuel env w spec tr = (tr1, r1)" by fastforce
    obtain tr2 r2 where os: "worker_openSecret env w tr1 = (tr2, r2)" by fastforce
    define tr3 where "tr3 = tr2 @ [AttemptBuilt (wk_topic w) (wk_subscription w) (projr r2) (w_attempt env tr2)]"
    obtain s1 e1 where m1: "markStale env w ''secret_unavailable'' tr2 = (s1, e1)" by fastforce
    obtain s2 e2 where m2: "markStale env w ''delivery_client_invalid'' tr3 = (s2, e2)" by fastforce
    obtain tr4 r4 where wl: "worker_loop fuel env w tr3 = (tr4, r4)" by fastforce
    have x1: "extends env w tr tr1" by (rule open_loop_extends [OF op])
    have x2: "extends env w tr1 tr2"
      using os by (auto simp: worker_openSecret_def Let_def may_def intro!: extends_snoc split: if_splits)
    have x3: "extends env w tr2 tr3" unfolding tr3_def by (rule extends_snoc) (simp add: may_def)
    note x12 = extends_trans [OF x1 x2]
    note x13 = extends_trans [OF x12 x3]
    have cl: "extends env w t (close_with env False t)" for t by (rule close_with_extends(2)) simp
    note xs1 = extends_trans [OF extends_trans [OF x12 markStale_extends [OF m1]] cl]
    note xs2 = extends_trans [OF extends_trans [OF x13 markStale_extends [OF m2]] cl]
    note x4 = extends_trans [OF x13 worker_loop_extends [OF wl, THEN conjunct1]]
    have xc: "extends env w tr (close_with env p tr4)" if "r4 = Some (err, p)" for err p
      using worker_loop_extends [OF wl] that
      by (cases p) (simp_all add: extends_trans [OF x4] close_with_extends)
    show ?thesis
    proof (cases r1)
      case None
      with run Inr op x1 show ?thesis by (simp add: Worker_Run_def spec_def [symmetric] Let_def)
    next
      case (Some o1)
      note r1 = Some
      show ?thesis
      proof (cases o1)
        case (Some e)
        with run Inr op x1 r1 show ?thesis by (simp add: Worker_Run_def spec_def [symmetric] Let_def)
      next
        case None
        with run Inr op r1 os m1 m2 wl xs1 xs2 x4 xc show ?thesis
          by (cases r2; cases "w_attempt env tr2"; cases r4)
            (auto simp: Worker_Run_def spec_def [symmetric] Let_def tr3_def)
      qed
    qed
  qed
qed

end
