(* ===== verification/Worker_Props.thy ===== *)
theory Worker_Props
  imports Worker Contracts
begin

text \<open>
  What the delivery worker guarantees: in every run, whatever the environment answers, content is
  acknowledged only after it was delivered, a subscription is removed only on the subscriber's word, and
  the retry loop of the HTTP strategy ends within the configured attempts.
\<close>

lemma disciplined_split: "disciplined env w (pre @ e # post) \<Longrightarrow> may env w pre e"
  by (auto simp: disciplined_def dest!: spec [of _ "length pre"])

lemma run_disciplined: "Worker_Run fuel env w [] = (tr, res) \<Longrightarrow> disciplined env w tr"
  using Worker_Run_extends [of fuel env w "[]" tr res] by (simp add: extends_def disciplined_def)

text \<open>(C5) At-least-once delivery: the worker acknowledges a message only directly after the subscriber accepted
  it, and the acknowledged receipt is the one the message was handed out with. Holds at every moment of
  every run, however long.\<close>

theorem ack_only_after_delivery:
  assumes "Worker_Run fuel env w [] = (pre @ Acked r a # post, res)"
  shows "\<exists>pre' m st. pre = pre' @ [Attempted m (st, None)] \<and> handed_out pre' m r"
  using disciplined_split [OF run_disciplined [OF assms]] by (auto simp: may_def)

text \<open>Content that is not acknowledged is given back or dead-lettered only after a failed attempt or because
  it is malformed; malformed content is never sent to a subscriber; and only content the message store
  handed out is sent.\<close>

theorem failed_content_is_kept:
  assumes "Worker_Run fuel env w [] = (pre @ e # post, res)"
  shows "case e of
      Attempted m _ \<Rightarrow> malformed m = [] \<and> (\<exists>r. handed_out pre m r)
    | Nacked r _ _ \<Rightarrow> (\<exists>pre' m st err. pre = pre' @ [Attempted m (st, Some err)] \<and> handed_out pre' m r)
    | DeadLettered r l _ \<Rightarrow>
        (\<exists>m. handed_out pre m r \<and> Body (dl_Message l) = Body m \<and> dl_StorageError l = StorageError m \<and>
           (malformed m \<noteq> [] \<or> (\<exists>st err. Attempted m (st, Some err) \<in> set pre)))
    | _ \<Rightarrow> True"
  using disciplined_split [OF run_disciplined [OF assms]] by (auto simp: may_def split: effect.splits)

text \<open>(C21) The worker records the removal of its own subscription only, and only after the subscriber answered
  that it is gone; it discards the consumer's durable progress only when such a removal was persisted or
  a permanent stop was requested.\<close>

theorem removal_only_when_gone:
  assumes "Worker_Run fuel env w [] = (pre @ e # post, res)"
  shows "(\<forall>ev a. e = Appended ev a \<longrightarrow>
            (case ev of
               SubscriptionStaleEvent _ k _ \<Rightarrow> k = sub_ID (wk_subscription w)
             | SubscriptionRemovedEvent _ k _ \<Rightarrow> k = sub_ID (wk_subscription w) \<and>
                 (\<exists>m st err. Attempted m (st, Some err) \<in> set pre \<and> gone st err)
             | _ \<Rightarrow> False)) \<and>
         (e = ClosedConsumer ClosePermanent \<longrightarrow> w_stop env pre = ClosePermanent \<or> removal_persisted w pre)"
  using disciplined_split [OF run_disciplined [OF assms]] by (auto simp: may_def)

section \<open>The retry loop\<close>

definition is_attempt :: "effect \<Rightarrow> bool" where
  "is_attempt e = (case e of Attempted _ _ \<Rightarrow> True | _ \<Rightarrow> False)"

definition attempts :: "trace \<Rightarrow> nat" where
  "attempts tr = length (filter is_attempt tr)"

lemma attempts_append [simp]: "attempts (tr @ tr') = attempts tr + attempts tr'"
  by (simp add: attempts_def)

lemma attempts_simps [simp]: "attempts [] = 0" "attempts (e # tr) = (if is_attempt e then 1 else 0) + attempts tr"
  by (simp_all add: attempts_def)

lemma no_attempts:
  "settle_ack env r tr = (tr', x1) \<Longrightarrow> attempts tr' = attempts tr"
  "worker_remove env w c tr = (tr', x2) \<Longrightarrow> attempts tr' = attempts tr"
  "staleResult env w c tr = (tr', x2) \<Longrightarrow> attempts tr' = attempts tr"
  by (auto simp: settle_ack_def worker_remove_def staleResult_def worker_metadata_def append_event_def Let_def
      is_attempt_def split: option.splits sum.splits prod.splits)

text \<open>The configured number of attempts, as the code reads it: in 32 bits, and at least one.\<close>

definition attempt_limit :: "Worker \<Rightarrow> nat" where
  "attempt_limit w = max 1 (unat (of_int (MaxAttempts (retry_HTTP (Retry (wk_cfg w)))) :: 32 word))"

lemma attempt_limit_less: "attempt_limit w < 2 ^ 32"
  using unsigned_less [of "of_int (MaxAttempts (retry_HTTP (Retry (wk_cfg w)))) :: 32 word", where ?'a = nat]
  by (simp add: attempt_limit_def)

lemma deliverHTTP_loop_ends:
  assumes "\<not> ResetOnExhaust (retry_HTTP (Retry (wk_cfg w)))" "unat n < attempt_limit w" "attempt_limit w \<le> fuel + unat n"
  shows "\<exists>tr' res. deliverHTTP_loop fuel env w x n tr = (tr', Some res) \<and>
           attempts tr' \<le> attempts tr + (attempt_limit w - unat n)"
  using assms(2,3)
proof (induction fuel arbitrary: n tr)
  case (Suc fuel)
  obtain st err where a: "w_deliver env tr = (st, err)" by fastforce
  let ?tr1 = "tr @ [Attempted (rcv_Message x) (st, err)]"
  have one: "attempts ?tr1 = attempts tr + 1" by (simp add: is_attempt_def)
  have room: "1 \<le> attempt_limit w - unat n" using Suc.prems(1) by simp
  define http where "http = retry_HTTP (Retry (wk_cfg w))"
  show ?case
  proof (cases "\<exists>e. err = Some e \<and> \<not> gone st e \<and> httpRetryable w st \<and> \<not> of_int (MaxAttempts http) \<le> n + 1 \<and> w_wait env ?tr1 = None")
    case True
    then obtain e where e: "err = Some e" "\<not> gone st e" "httpRetryable w st" "n + 1 < of_int (MaxAttempts http)"
      "w_wait env ?tr1 = None" by auto
    let ?tr2 = "?tr1 @ [Waited (retryDelay http (w_jitter env ?tr1) (w_platform env ?tr1) (unat (n + 1))) None]"
    have "n \<noteq> - 1" using Suc.prems(1) attempt_limit_less [of w]
      by (auto simp: unsigned_minus_1_eq_mask mask_eq_exp_minus_1)
    then have n1: "unat (n + 1) = unat n + 1" by (metis add.commute add_eq_0_iff plus_1_eq_Suc unatSuc)
    have "unat (n + 1) < unat (of_int (MaxAttempts http) :: 32 word)" using e(4) by (simp add: word_less_nat_alt)
    then have lim: "unat (n + 1) < attempt_limit w" by (simp add: attempt_limit_def http_def)
    have "deliverHTTP_loop (Suc fuel) env w x n tr = deliverHTTP_loop fuel env w x (n + 1) ?tr2"
      using a e(1-3,5) e(4) [folded not_le] by (simp add: Let_def http_def)
    moreover have "attempts ?tr2 = attempts tr + 1" using one by (simp add: is_attempt_def)
    ultimately show ?thesis
      using Suc.IH [OF lim, of ?tr2] Suc.prems(2) lim n1 by auto
  next
    case False
    have "\<exists>tr' res. deliverHTTP_loop (Suc fuel) env w x n tr = (tr', Some res) \<and> attempts tr' = attempts ?tr1"
      using False a assms(1) no_attempts
      by (cases err)
        (auto simp: Let_def http_def is_attempt_def split: prod.splits option.splits)
    with one room show ?thesis by auto
  qed
qed simp

text \<open>(C23) Without reset on exhaustion, delivering one message over HTTP ends, for every behaviour of the
  subscriber, after at most the configured number of attempts (read in 32 bits, at least one).\<close>

theorem http_delivery_ends:
  assumes "\<not> ResetOnExhaust (retry_HTTP (Retry (wk_cfg w)))"
  shows "\<exists>tr' res. deliverHTTP (attempt_limit w) env w x tr = (tr', Some res) \<and>
           attempts tr' \<le> attempts tr + attempt_limit w"
  using deliverHTTP_loop_ends [OF assms, of 0 "attempt_limit w" env x tr]
  by (simp add: deliverHTTP_def attempt_limit_def)

section \<open>The retry delay\<close>

definition base_delay :: "HTTPRetry \<Rightarrow> nat \<Rightarrow> rat" where
  "base_delay c n = (case BackoffFactor c of
       Fin b \<Rightarrow> min (of_int (MaxInterval c)) (of_int (InitialInterval c) * b ^ (n - 1))
     | _ \<Rightarrow> (if n \<le> 1 then of_int (InitialInterval c) else of_int (MaxInterval c)))"

lemma retryDelay_eq:
  assumes "validate_http_retry c = None" "BackoffFactor c \<noteq> NaN" "JitterFactor c = Fin j"
  shows "retryDelay c (Fin r) other n = truncate_rat (base_delay c n * (1 + (r * 2 - 1) * j))"
proof -
  have b: "BackoffFactor c = PosInf \<or> (\<exists>q\<ge>1. BackoffFactor c = Fin q)" and le: "InitialInterval c \<le> MaxInterval c"
    using assms(1,2) by (auto simp: validate_http_retry_None)
  have pow: "float_pow PosInf k = (if k = 0 then Fin 1 else PosInf)" for k by (cases k) auto
  have fin: "float_pow (Fin q) k = Fin (q ^ k)" for q k by (cases k) auto
  show ?thesis
    using b le assms(3) by (cases "n = 0") (auto simp: retryDelay_def base_delay_def Let_def pow fin min_def)
qed

lemma base_delay_bounds:
  assumes "validate_http_retry c = None" "BackoffFactor c \<noteq> NaN"
  shows "of_int (InitialInterval c) \<le> base_delay c n" "base_delay c n \<le> of_int (MaxInterval c)"
    "m \<le> n \<Longrightarrow> base_delay c m \<le> base_delay c n"
proof -
  have b: "BackoffFactor c = PosInf \<or> (\<exists>q\<ge>1. BackoffFactor c = Fin q)" and le: "0 < InitialInterval c" "InitialInterval c \<le> MaxInterval c"
    using assms by (auto simp: validate_http_retry_None)
  have one: "1 \<le> q \<Longrightarrow> rat_of_int (InitialInterval c) \<le> of_int (InitialInterval c) * q ^ k" for q k
    using le(1) one_le_power [of q k] by (simp add: mult_le_cancel_left1)
  have up: "1 \<le> q \<Longrightarrow> i \<le> k \<Longrightarrow> rat_of_int (InitialInterval c) * q ^ i \<le> of_int (InitialInterval c) * q ^ k" for q i k
    using le(1) by (simp add: power_increasing)
  show "of_int (InitialInterval c) \<le> base_delay c n" "base_delay c n \<le> of_int (MaxInterval c)"
    using b le one by (auto simp: base_delay_def)
  show "m \<le> n \<Longrightarrow> base_delay c m \<le> base_delay c n"
    using b le up [of _ "m - 1" "n - 1"] by (auto simp: base_delay_def min_le_iff_disj)
qed

lemma truncate_nonneg: "0 \<le> q \<Longrightarrow> truncate_rat q = \<lfloor>q\<rfloor>"
  by (simp add: truncate_rat_def)


text \<open>A worker whose configured attempts are the 32-bit modulus gives up after the first retryable failure:
  the configured number is read in 32 bits and becomes zero.\<close>

theorem max_attempts_truncated:
  assumes "MaxAttempts (retry_HTTP (Retry (wk_cfg w))) = 2 ^ 32" "\<not> ResetOnExhaust (retry_HTTP (Retry (wk_cfg w)))"
    "w_deliver env tr = (status, Some err)" "\<not> gone status err" "httpRetryable w status"
  shows "deliverHTTP (Suc fuel) env w x tr =
    map_prod id Some (staleResult env w ''retry_exhausted'' (tr @ [Attempted (rcv_Message x) (status, Some err)]))"
proof -
  have "(4294967296 :: 32 word) \<le> 1" by (simp add: word_le_nat_alt)
  with assms show ?thesis by (simp add: deliverHTTP_def Let_def split: prod.splits)
qed

section \<open>Sample runs\<close>

definition sample_received :: ReceivedMessage where
  "sample_received = \<lparr>rcv_Message = \<lparr>msg_ID = ''m'', Body = ''b'', ContentType = [], Metadata = None, StorageError = []\<rparr>,
     rcv_Receipt = \<lparr>rcpt_Consumer = ''c'', rcpt_Value = ''1''\<rparr>\<rparr>"

text \<open>A message store with one message, a subscriber with a fixed answer, and a context that is cancelled once the
  store is drained.\<close>

definition sample_worker_env :: "int \<times> goerr option \<Rightarrow> worker_env" where
  "sample_worker_env answer = \<lparr>w_open = \<lambda>_. None, w_wait = \<lambda>_. None, w_secret = \<lambda>_. Inr [], w_attempt = \<lambda>_. None,
     w_receive = (\<lambda>tr. if length tr \<le> 2 then Inr \<lparr>Messages = [sample_received], CaughtUp = True\<rparr> else Inl (Error ''drained'')),
     w_deliver = \<lambda>_. answer, w_ack = \<lambda>_. None, w_nack = \<lambda>_. None, w_dead = \<lambda>_. None, w_reconnect = \<lambda>_. None,
     w_append = \<lambda>_. None, w_event_id = \<lambda>_. Inr ''e'', w_now = \<lambda>_. zero_time, w_jitter = \<lambda>_. Fin (1 / 2), w_platform = \<lambda>_. 0,
     w_ctx = \<lambda>_. Some (Error ''context canceled''), w_stop = \<lambda>_. CloseTemporary\<rparr>"

definition sample_worker :: Worker where
  "sample_worker = \<lparr>wk_cfg = hub_Delivery sample_hub_config,
     wk_topic = \<lparr>topic_ID = ''t'', CanonicalURL = ''u'', ContentDestination = ''d'', topic_ContentType = ''text/plain'',
       topic_Status = TopicActive, RegisteredAt = zero_time, RegisteredBy = [], topic_Revision = 1\<rparr>,
     wk_subscription = \<lparr>sub_ID = ''s'', sub_TopicID = ''t'', TopicURL = ''u'', CallbackURL = ''cb'', SecretCiphertext = [],
       SecretKeyID = [], LeaseStartedAt = zero_time, EffectiveLeaseSeconds = ''9'', sub_ServerID = ''h'', sub_ConsumerID = ''c'',
       Parameters = None, sub_Status = SubscriptionActive, StaleReason = [], sub_Revision = 1\<rparr>\<rparr>"

text \<open>The run against a subscriber that accepts everything.\<close>

definition accepting :: worker_env where
  "accepting = sample_worker_env (204, None)"

lemma accepting_run:
  "Worker_Run 3 accepting sample_worker [] =
     (take 4 (fst (Worker_Run 3 accepting sample_worker [])) @ Acked (rcv_Receipt sample_received) None #
      drop 5 (fst (Worker_Run 3 accepting sample_worker [])), Some (Some (Error ''context canceled'')))"
  by code_simp

theorem ack_only_after_delivery_witness:
  "\<exists>pre' m st. take 4 (fst (Worker_Run 3 accepting sample_worker [])) = pre' @ [Attempted m (st, None)] \<and>
     handed_out pre' m (rcv_Receipt sample_received)"
  by (rule ack_only_after_delivery [OF accepting_run])

text \<open>The run against a subscriber that is gone.\<close>

definition gone_subscriber :: worker_env where
  "gone_subscriber = sample_worker_env (410, Some (Error ''gone''))"

lemma gone_run:
  "Worker_Run 3 gone_subscriber sample_worker [] =
     (take 3 (fst (Worker_Run 3 gone_subscriber sample_worker [])) @
        Attempted (rcv_Message sample_received) (410, Some (Error ''gone'')) #
      drop 4 (fst (Worker_Run 3 gone_subscriber sample_worker [])), Some None)"
  "Worker_Run 3 gone_subscriber sample_worker [] =
     (take 6 (fst (Worker_Run 3 gone_subscriber sample_worker [])) @ ClosedConsumer ClosePermanent # [], Some None)"
  by code_simp+

theorem failed_content_is_kept_witness:
  "\<exists>r. handed_out (take 3 (fst (Worker_Run 3 gone_subscriber sample_worker []))) (rcv_Message sample_received) r"
  using failed_content_is_kept [OF gone_run(1)] by simp

theorem removal_only_when_gone_witness:
  "removal_persisted sample_worker (take 6 (fst (Worker_Run 3 gone_subscriber sample_worker [])))"
  using removal_only_when_gone [OF gone_run(2)] by (simp add: gone_subscriber_def sample_worker_env_def)

theorem http_delivery_ends_witness:
  "\<exists>tr' res. deliverHTTP (attempt_limit sample_worker) accepting sample_worker sample_received [] = (tr', Some res) \<and>
     attempts tr' \<le> attempts [] + attempt_limit sample_worker"
  by (rule http_delivery_ends) code_simp


definition overflowing_worker :: Worker where
  "overflowing_worker = \<lparr>wk_cfg = (wk_cfg sample_worker)\<lparr>Retry := (Retry (wk_cfg sample_worker))\<lparr>retry_HTTP :=
     (retry_HTTP (Retry (wk_cfg sample_worker)))\<lparr>MaxAttempts := 2 ^ 32\<rparr>\<rparr>\<rparr>,
     wk_topic = wk_topic sample_worker, wk_subscription = wk_subscription sample_worker\<rparr>"

theorem max_attempts_truncated_witness:
  "deliverHTTP (Suc 0) (sample_worker_env (0, Some (Error ''refused''))) overflowing_worker sample_received [] =
     map_prod id Some (staleResult (sample_worker_env (0, Some (Error ''refused''))) overflowing_worker ''retry_exhausted''
       [Attempted (rcv_Message sample_received) (0, Some (Error ''refused''))])"
  using max_attempts_truncated [of overflowing_worker "sample_worker_env (0, Some (Error ''refused''))" "[]" 0
      "Error ''refused''" 0 sample_received]
  by (simp add: overflowing_worker_def sample_worker_env_def gone_def httpRetryable_def sample_worker_def sample_hub_config_def HubDefaults_def)

end
