(* ===== verification/Manager.thy ===== *)
theory Manager
  imports Worker Reducer
begin

text \<open>
  The delivery manager (\<open>internal/delivery/manager.go\<close>): it starts a worker for every active
  subscription of this server and stops the others. A worker runs in its own goroutine; here it is
  its record, the stop requests it has received and whether its \<open>done\<close> channel is closed. The loops
  over Go maps take the order of the keys as an argument.
\<close>

section \<open>Workers under management\<close>

text \<open>The fields of \<open>Worker\<close> that \<open>Stop\<close> writes.\<close>

record worker_control =
  stopRequested :: bool
  stopIntent :: ClosureIntent

definition new_control :: worker_control where
  "new_control = \<lparr>stopRequested = False, stopIntent = CloseTemporary\<rparr>"

definition Worker_Stop :: "ClosureIntent \<Rightarrow> worker_control \<Rightarrow> worker_control" where
  "Worker_Stop intent c =
     \<lparr>stopRequested = True, stopIntent = (if intent = ClosePermanent then intent else stopIntent c)\<rparr>"

definition setStopIntent :: "ClosureIntent \<Rightarrow> worker_control \<Rightarrow> worker_control" where
  "setStopIntent intent c = c\<lparr>stopIntent := intent\<rparr>"

record managedWorker =
  mw_runner :: Worker
  mw_control :: worker_control
  mw_done :: bool

type_synonym workers = "(string, managedWorker) fmap"
type_synonym worker_factory = "Topic \<Rightarrow> Subscription \<Rightarrow> Worker result"

definition Factory_New :: "Delivery \<Rightarrow> worker_factory" where
  "Factory_New cfg topic sub = NewWorker cfg topic sub"

record Manager =
  mgr_serverID :: string
  mgr_workers :: workers

definition NewManager :: "string \<Rightarrow> Manager result" where
  "NewManager server =
     (if server = [] then Inl (Error ''context, server ID, and worker factory are required'')
      else Inr \<lparr>mgr_serverID = server, mgr_workers = fmempty\<rparr>)"

section \<open>Reconciliation\<close>

text \<open>The condition under which the first loop enters a subscription into \<open>desired\<close>.\<close>

definition desired :: "string \<Rightarrow> Snapshot \<Rightarrow> string \<Rightarrow> bool" where
  "desired server s k =
     (case mget (Subscriptions s) k of
        None \<Rightarrow> False
      | Some sub \<Rightarrow>
          (case mget (Topics s) (sub_TopicID sub) of
             None \<Rightarrow> False
           | Some topic \<Rightarrow> topic_Status topic = TopicActive \<and> sub_Status sub = SubscriptionActive \<and>
               sub_ServerID sub = server))"

fun start_loop :: "worker_factory \<Rightarrow> string \<Rightarrow> Snapshot \<Rightarrow> string list \<Rightarrow> workers \<Rightarrow> workers \<times> goerr option" where
  "start_loop factory server s [] ws = (ws, None)"
| "start_loop factory server s (k # ks) ws =
     (if \<not> desired server s k then start_loop factory server s ks ws
      else if fmlookup ws k \<noteq> None then start_loop factory server s ks ws
      else let sub = the (mget (Subscriptions s) k); topic = the (mget (Topics s) (sub_TopicID sub)) in
        case factory topic sub of
          Inl e \<Rightarrow> (ws, Some e)
        | Inr runner \<Rightarrow>
            start_loop factory server s ks
              (fmupd k \<lparr>mw_runner = runner, mw_control = new_control, mw_done = False\<rparr> ws))"

definition stop_intent :: "Snapshot \<Rightarrow> string \<Rightarrow> ClosureIntent" where
  "stop_intent s k =
     (case mget (Subscriptions s) k of
        None \<Rightarrow> ClosePermanent
      | Some sub \<Rightarrow>
          if sub_Status sub = SubscriptionRemoved then ClosePermanent
          else (case mget (Topics s) (sub_TopicID sub) of
              None \<Rightarrow> ClosePermanent
            | Some topic \<Rightarrow> if topic_Status topic \<noteq> TopicActive then ClosePermanent else CloseTemporary))"

text \<open>\<open>closed k\<close> is what the \<open>select\<close> on the worker's \<open>done\<close> channel finds after the stop request; a
  channel that was closed before is still closed.\<close>

fun stop_loop :: "string \<Rightarrow> Snapshot \<Rightarrow> (string \<Rightarrow> bool) \<Rightarrow> string list \<Rightarrow> workers \<Rightarrow> workers" where
  "stop_loop server s closed [] ws = ws"
| "stop_loop server s closed (k # ks) ws =
     (case fmlookup ws k of
        None \<Rightarrow> stop_loop server s closed ks ws
      | Some managed \<Rightarrow>
          if desired server s k then stop_loop server s closed ks ws
          else let fin = mw_done managed \<or> closed k;
                   stopped = managed\<lparr>mw_control := Worker_Stop (stop_intent s k) (mw_control managed), mw_done := fin\<rparr>
               in stop_loop server s closed ks (if fin then fmdrop k ws else fmupd k stopped ws))"

definition Reconcile ::
  "worker_factory \<Rightarrow> string list \<Rightarrow> string list \<Rightarrow> (string \<Rightarrow> bool) \<Rightarrow> Snapshot \<Rightarrow> Manager \<Rightarrow> Manager \<times> goerr option" where
  "Reconcile factory subs ids closed s m =
     (case start_loop factory (mgr_serverID m) s subs (mgr_workers m) of
        (ws, Some e) \<Rightarrow> (m\<lparr>mgr_workers := ws\<rparr>, Some e)
      | (ws, None) \<Rightarrow> (m\<lparr>mgr_workers := stop_loop (mgr_serverID m) s closed ids ws\<rparr>, None))"

text \<open>\<open>Manager.run\<close>: when the worker's \<open>Run\<close> returns, its channel is closed; the worker stays registered.\<close>

definition Manager_run_returns :: "string \<Rightarrow> Manager \<Rightarrow> Manager" where
  "Manager_run_returns k m = m\<lparr>mgr_workers := fmmap_keys (\<lambda>j w. if j = k then w\<lparr>mw_done := True\<rparr> else w) (mgr_workers m)\<rparr>"

text \<open>\<open>Manager.Close\<close> stops all workers and waits for them; \<open>interrupted\<close> says where the caller's context ends
  the wait.\<close>

definition Manager_Close :: "(string \<Rightarrow> goerr option) \<Rightarrow> string list \<Rightarrow> Manager \<Rightarrow> Manager \<times> goerr option" where
  "Manager_Close interrupted ids m =
     (m\<lparr>mgr_workers := fmmap (\<lambda>w. w\<lparr>mw_control := Worker_Stop CloseTemporary (mw_control w)\<rparr>) (mgr_workers m)\<rparr>,
      case filter (\<lambda>e. e \<noteq> None) (map interrupted ids) of [] \<Rightarrow> None | e # _ \<Rightarrow> e)"

section \<open>The loops\<close>

abbreviation worker_of :: "Manager \<Rightarrow> string \<Rightarrow> managedWorker option" where
  "worker_of m k \<equiv> fmlookup (mgr_workers m) k"

definition running :: "Manager \<Rightarrow> string \<Rightarrow> bool" where
  "running m k \<longleftrightarrow> (\<exists>w. worker_of m k = Some w \<and> \<not> mw_done w \<and> \<not> stopRequested (mw_control w))"

lemma start_loop_keeps:
  "start_loop factory server s ks ws = (ws', err) \<Longrightarrow> fmlookup ws k = Some w \<Longrightarrow> fmlookup ws' k = Some w"
proof (induction ks arbitrary: ws)
  case (Cons k' ks)
  have "fmlookup (fmupd k' v ws) k = Some w" if "fmlookup ws k' = None" for v using that Cons.prems(2) by auto
  with Cons show ?case by (auto simp: Let_def split: if_splits sum.splits)
qed simp

lemma start_loop_fresh:
  assumes "start_loop factory server s ks ws = (ws', err)" "fmlookup ws k = None" "fmlookup ws' k = Some w"
  shows "desired server s k \<and> mw_control w = new_control \<and> \<not> mw_done w \<and>
    factory (the (mget (Topics s) (sub_TopicID (the (mget (Subscriptions s) k))))) (the (mget (Subscriptions s) k)) =
      Inr (mw_runner w)"
  using assms
proof (induction factory server s ks ws rule: start_loop.induct)
  case (2 factory server s k' ks ws)
  let ?sub = "the (mget (Subscriptions s) k')"
  let ?new = "\<lambda>r. \<lparr>mw_runner = r, mw_control = new_control, mw_done = False\<rparr>"
  consider (skip) "start_loop factory server s ks ws = (ws', err)" "\<not> (desired server s k' \<and> fmlookup ws k' = None)"
    | (failed) "ws' = ws"
    | (started) r where "desired server s k'" "fmlookup ws k' = None"
        "factory (the (mget (Topics s) (sub_TopicID ?sub))) ?sub = Inr r"
        "start_loop factory server s ks (fmupd k' (?new r) ws) = (ws', err)"
    using 2(4) by (auto simp: Let_def split: if_splits sum.splits)
  then show ?case
  proof cases
    case skip
    with 2 show ?thesis by (cases "desired server s k'") (auto simp: Let_def)
  next
    case failed
    with 2 show ?thesis by simp
  next
    case started
    show ?thesis
    proof (cases "k = k'")
      case True
      with start_loop_keeps [OF started(4), of k "?new r"] 2(6) have "w = ?new r" by simp
      with True started show ?thesis by simp
    next
      case False
      have "start_loop factory server s ks (fmupd k' (?new r) ws) = (ws', err) \<Longrightarrow>
          fmlookup (fmupd k' (?new r) ws) k = None \<Longrightarrow> fmlookup ws' k = Some w \<Longrightarrow> ?thesis"
        by (rule 2(3)) (use started in auto)
      with started False 2(5,6) show ?thesis by simp
    qed
  qed
qed simp

lemma start_loop_covers:
  assumes "start_loop factory server s ks ws = (ws', None)" "desired server s k" "k \<in> set ks"
  shows "fmlookup ws' k \<noteq> None"
  using assms
proof (induction factory server s ks ws rule: start_loop.induct)
  case (2 factory server s k' ks ws)
  show ?case
  proof (cases "k = k' \<and> fmlookup ws k = None")
    case True
    with 2 show ?thesis
      by (auto simp: Let_def split: if_splits sum.splits dest: start_loop_keeps)
  next
    case False
    with 2 show ?thesis
      by (auto simp: Let_def split: if_splits sum.splits dest: start_loop_keeps)
  qed
qed simp

text \<open>What the second loop makes of a worker.\<close>

definition after_stop ::
  "string \<Rightarrow> Snapshot \<Rightarrow> (string \<Rightarrow> bool) \<Rightarrow> string list \<Rightarrow> string \<Rightarrow> managedWorker \<Rightarrow> managedWorker option" where
  "after_stop server s closed ids k w =
     (if k \<notin> set ids \<or> desired server s k then Some w
      else if mw_done w \<or> closed k then None
      else Some (w\<lparr>mw_control := Worker_Stop (stop_intent s k) (mw_control w)\<rparr>))"

lemma stop_loop_lookup:
  assumes "distinct ids"
  shows "fmlookup (stop_loop server s closed ids ws) k = Option.bind (fmlookup ws k) (after_stop server s closed ids k)"
  using assms
proof (induction ids arbitrary: ws)
  case (Cons j ids)
  then show ?case
    by (cases "fmlookup ws j"; cases "fmlookup ws k"; cases "k = j") (auto simp: Let_def after_stop_def)
next
  case Nil
  then show ?case by (cases "fmlookup ws k") (simp_all add: after_stop_def)
qed

lemma Reconcile_lookup:
  assumes "Reconcile factory subs ids closed s m = (m', None)" "distinct ids"
  shows "\<exists>ws. start_loop factory (mgr_serverID m) s subs (mgr_workers m) = (ws, None) \<and>
    mgr_serverID m' = mgr_serverID m \<and>
    (\<forall>k. worker_of m' k = Option.bind (fmlookup ws k) (after_stop (mgr_serverID m) s closed ids k))"
  using assms(1) by (auto simp: Reconcile_def stop_loop_lookup [OF assms(2)] split: prod.splits option.splits)

section \<open>What the manager relies on and provides\<close>

text \<open>A factory makes a worker for the topic and the subscription it is given.\<close>

locale faithful_factory =
  fixes factory :: worker_factory
  assumes makes: "factory topic sub = Inr w \<Longrightarrow> wk_topic w = topic \<and> wk_subscription w = sub"
begin

lemma started_for:
  assumes "start_loop factory server s ks ws = (ws', err)" "fmlookup ws k = None" "fmlookup ws' k = Some w"
  shows "mget (Subscriptions s) k = Some (wk_subscription (mw_runner w)) \<and>
         mget (Topics s) (sub_TopicID (wk_subscription (mw_runner w))) = Some (wk_topic (mw_runner w))"
proof -
  note fresh = start_loop_fresh [OF assms]
  then obtain sub topic where "mget (Subscriptions s) k = Some sub" "mget (Topics s) (sub_TopicID sub) = Some topic"
    by (auto simp: desired_def split: option.splits)
  with fresh makes [of topic sub "mw_runner w"] show ?thesis by simp
qed

end

interpretation delivery_factory: faithful_factory "Factory_New cfg" for cfg
  by unfold_locales (auto simp: Factory_New_def NewWorker_def split: if_splits)

text \<open>What may happen to a manager: a reconciliation, the return of a worker, closing.\<close>

datatype manager_event =
    ReconcileWith Snapshot "string list" "string list" "string \<Rightarrow> bool"
  | RunReturns string
  | CloseAll "string \<Rightarrow> goerr option" "string list"

fun manager_step :: "worker_factory \<Rightarrow> manager_event \<Rightarrow> Manager \<Rightarrow> Manager" where
  "manager_step factory (ReconcileWith s subs ids closed) m = fst (Reconcile factory subs ids closed s m)"
| "manager_step factory (RunReturns k) m = Manager_run_returns k m"
| "manager_step factory (CloseAll interrupted ids) m = fst (Manager_Close interrupted ids m)"

definition over :: "managedWorker \<Rightarrow> bool" where
  "over w \<longleftrightarrow> mw_done w \<or> stopRequested (mw_control w)"

lemma Worker_Stop_simps [simp]:
  "stopRequested (Worker_Stop i c)" "stopIntent (Worker_Stop ClosePermanent c) = ClosePermanent"
  "stopIntent (Worker_Stop i c) = ClosePermanent \<longleftrightarrow> i = ClosePermanent \<or> stopIntent c = ClosePermanent"
  by (auto simp: Worker_Stop_def)

lemma Reconcile_server [simp]: "mgr_serverID (fst (Reconcile factory subs ids closed s m)) = mgr_serverID m"
  by (simp add: Reconcile_def split: prod.splits option.splits)

lemma manager_step_server [simp]: "mgr_serverID (manager_step factory ev m) = mgr_serverID m"
  by (cases ev) (simp_all add: Manager_run_returns_def Manager_Close_def)

text \<open>The order of the keys is an order in which Go may visit the maps.\<close>

definition fair_orders :: "Manager \<Rightarrow> Snapshot \<Rightarrow> string list \<Rightarrow> string list \<Rightarrow> bool" where
  "fair_orders m s subs ids \<longleftrightarrow>
     range_order (Subscriptions s) subs \<and> distinct ids \<and>
     (\<forall>k. worker_of m k \<noteq> None \<or> desired (mgr_serverID m) s k \<longrightarrow> k \<in> set ids)"

lemma desired_ordered: "range_order (Subscriptions s) subs \<Longrightarrow> desired server s k \<Longrightarrow> k \<in> set subs"
  using range_order_mget [of "Subscriptions s" subs k] by (auto simp: desired_def split: option.splits)

lemma kept_while_desired:
  assumes "worker_of m k = Some w" "desired (mgr_serverID m) s k" "distinct ids"
  shows "worker_of (fst (Reconcile factory subs ids closed s m)) k = Some w"
proof -
  obtain ws err where sl: "start_loop factory (mgr_serverID m) s subs (mgr_workers m) = (ws, err)" by fastforce
  from start_loop_keeps [OF sl assms(1)] sl assms(2,3) show ?thesis
    by (cases err) (simp_all add: Reconcile_def stop_loop_lookup after_stop_def)
qed

lemma over_stays:
  assumes "worker_of m k = Some w" "over w"
    "\<And>s subs ids closed. ev = ReconcileWith s subs ids closed \<Longrightarrow> desired (mgr_serverID m) s k \<and> distinct ids"
  shows "\<exists>w'. worker_of (manager_step factory ev m) k = Some w' \<and> over w'"
  using assms kept_while_desired [OF assms(1)]
  by (cases ev) (auto simp: Manager_run_returns_def Manager_Close_def over_def)


text \<open>If a topic is deregistered and a reconciliation stops the worker of one of its subscriptions, and the
  topic is registered again before another reconciliation finds the worker ended, then the worker stays
  registered and is never replaced: the active subscription has no running worker, whatever happens
  later, as long as the reconciliations find the subscription active.\<close>

theorem stopped_worker_not_replaced:
  assumes "worker_of m k = Some w" "\<not> mw_done w" "\<not> desired (mgr_serverID m) s1 k" "\<not> closed1 k"
    "fair_orders m s1 subs1 ids1" "Reconcile factory subs1 ids1 closed1 s1 m = (m1, None)"
    "\<forall>s subs ids closed. ReconcileWith s subs ids closed \<in> set evs \<longrightarrow> desired (mgr_serverID m) s k \<and> distinct ids"
  shows "\<not> running (fold (manager_step factory) evs m1) k \<and> worker_of (fold (manager_step factory) evs m1) k \<noteq> None"
proof -
  have dist: "distinct ids1" and ids: "k \<in> set ids1" using assms(1,5) by (auto simp: fair_orders_def)
  obtain ws where ws: "start_loop factory (mgr_serverID m) s1 subs1 (mgr_workers m) = (ws, None)"
    and srv: "mgr_serverID m1 = mgr_serverID m"
    and look: "worker_of m1 k = Option.bind (fmlookup ws k) (after_stop (mgr_serverID m) s1 closed1 ids1 k)"
    using Reconcile_lookup [OF assms(6) dist] by blast
  have "\<exists>w. worker_of m1 k = Some w \<and> over w"
    using start_loop_keeps [OF ws assms(1)] look ids assms(2-4) by (simp add: over_def after_stop_def)
  with assms(7) srv have "\<exists>w. worker_of (fold (manager_step factory) evs m1) k = Some w \<and> over w"
  proof (induction evs arbitrary: m1)
    case (Cons ev evs)
    then obtain v where "worker_of (manager_step factory ev m1) k = Some v" "over v"
      using over_stays [of m1 k _ ev factory] by (metis list.set_intros(1))
    with Cons.IH [of "manager_step factory ev m1"] Cons.prems(1,2) show ?case by fastforce
  qed simp
  then show ?thesis by (auto simp: running_def over_def)
qed

text \<open>Once a reconciliation has found an unwanted worker ended, the next one that wants the subscription again
  gives it a new running worker, if the factory can make one.\<close>

theorem ended_worker_is_replaced:
  assumes "Reconcile (Factory_New cfg) subs1 ids1 closed1 s1 m = (m1, None)" "fair_orders m s1 subs1 ids1"
    "\<not> desired (mgr_serverID m) s1 k" "worker_of m k = Some w" "mw_done w \<or> closed1 k"
    "Reconcile (Factory_New cfg) subs2 ids2 closed2 s2 m1 = (m2, None)" "fair_orders m1 s2 subs2 ids2"
    "desired (mgr_serverID m) s2 k"
  shows "running m2 k"
proof -
  have dist: "distinct ids1" "distinct ids2" and ids: "k \<in> set ids1" "k \<in> set subs2"
    using assms(2,4,7,8) by (auto simp: fair_orders_def intro: desired_ordered)
  obtain ws where ws: "start_loop (Factory_New cfg) (mgr_serverID m) s1 subs1 (mgr_workers m) = (ws, None)"
    and srv: "mgr_serverID m1 = mgr_serverID m"
    and look: "worker_of m1 k = Option.bind (fmlookup ws k) (after_stop (mgr_serverID m) s1 closed1 ids1 k)"
    using Reconcile_lookup [OF assms(1) dist(1)] by blast
  have gone: "worker_of m1 k = None"
    using start_loop_keeps [OF ws assms(4)] look ids(1) assms(3,5) by (simp add: after_stop_def)
  obtain ws2 where ws2: "start_loop (Factory_New cfg) (mgr_serverID m1) s2 subs2 (mgr_workers m1) = (ws2, None)"
    and look2: "worker_of m2 k = Option.bind (fmlookup ws2 k) (after_stop (mgr_serverID m1) s2 closed2 ids2 k)"
    using Reconcile_lookup [OF assms(6) dist(2)] by blast
  obtain v where v: "fmlookup ws2 k = Some v" using start_loop_covers [OF ws2 _ ids(2)] assms(8) srv by auto
  with start_loop_fresh [OF ws2 gone v] look2 assms(8) srv show ?thesis
    by (simp add: running_def after_stop_def new_control_def)
qed

section \<open>A topic that is deregistered and registered again\<close>

definition deregistered :: Snapshot where
  "deregistered = sample_verified\<lparr>Topics := Some (fmupd ''t'' (sample_topic\<lparr>topic_Status := TopicInactive\<rparr>) fmempty)\<rparr>"

definition sample_managed :: managedWorker where
  "sample_managed = \<lparr>mw_runner = \<lparr>wk_cfg = hub_Delivery HubDefaults, wk_topic = sample_topic, wk_subscription = sample_subscription\<rparr>,
     mw_control = new_control, mw_done = False\<rparr>"

definition sample_manager :: Manager where
  "sample_manager = \<lparr>mgr_serverID = ''h'', mgr_workers = fmupd ''s'' sample_managed fmempty\<rparr>"

abbreviation sample_reconcile :: "(string \<Rightarrow> bool) \<Rightarrow> Snapshot \<Rightarrow> Manager \<Rightarrow> Manager \<times> goerr option" where
  "sample_reconcile closed s m \<equiv> Reconcile (Factory_New (hub_Delivery HubDefaults)) [''s''] [''s''] closed s m"

lemma sample_desired: "desired ''h'' sample_verified k \<longleftrightarrow> k = ''s''" "\<not> desired ''h'' deregistered k"
  by (auto simp: desired_def sample_verified_def deregistered_def sample_subscription_def sample_topic_def mget_Some)

lemma sample_orders:
  "mgr_serverID m = ''h'' \<Longrightarrow> (\<And>k. worker_of m k \<noteq> None \<Longrightarrow> k = ''s'') \<Longrightarrow>
     fair_orders m sample_verified [''s''] [''s''] \<and> fair_orders m deregistered [''s''] [''s'']"
  by (auto simp: fair_orders_def range_order_def sample_desired) (auto simp: sample_verified_def deregistered_def)

lemma sample_manager_simps [simp]:
  "mgr_serverID sample_manager = ''h''" "worker_of sample_manager k = (if k = ''s'' then Some sample_managed else None)"
  by (simp_all add: sample_manager_def)

lemma sample_manager_orders:
  "fair_orders sample_manager sample_verified [''s''] [''s'']" "fair_orders sample_manager deregistered [''s''] [''s'']"
  by (rule sample_orders [THEN conjunct1] sample_orders [THEN conjunct2]; simp split: if_splits)+

lemma sample_ok: "snd (sample_reconcile closed deregistered sample_manager) = None"
  by (simp add: Reconcile_def sample_desired)

theorem stopped_worker_not_replaced_witness:
  "\<not> running (fst (sample_reconcile (\<lambda>_. True) sample_verified
     (fst (sample_reconcile (\<lambda>_. False) deregistered sample_manager)))) ''s''"
proof -
  obtain m1 where m1: "sample_reconcile (\<lambda>_. False) deregistered sample_manager = (m1, None)"
    using sample_ok [of "\<lambda>_. False"] by (metis prod.collapse)
  then show ?thesis
    using stopped_worker_not_replaced [OF _ _ _ _ _ m1, of "''s''" sample_managed "[ReconcileWith sample_verified [''s''] [''s''] (\<lambda>_. True)]"]
      sample_manager_orders sample_desired by (simp add: sample_managed_def)
qed


theorem ended_worker_is_replaced_witness:
  "running (fst (sample_reconcile (\<lambda>_. False) sample_verified
     (fst (sample_reconcile (\<lambda>_. True) deregistered sample_manager)))) ''s''"
proof -
  obtain m1 where m1: "sample_reconcile (\<lambda>_. True) deregistered sample_manager = (m1, None)"
    using sample_ok [of "\<lambda>_. True"] by (metis prod.collapse)
  then have empty: "m1 = \<lparr>mgr_serverID = ''h'', mgr_workers = fmempty\<rparr>"
    by (auto simp: Reconcile_def sample_desired sample_manager_def intro!: fmap_ext)
  obtain w where "NewWorker (hub_Delivery HubDefaults) sample_topic sample_subscription = Inr w"
    by (simp add: NewWorker_def sample_topic_def sample_subscription_def canonical_json)
  then have "snd (sample_reconcile (\<lambda>_. False) sample_verified m1) = None"
    by (simp add: Reconcile_def sample_desired empty Factory_New_def Let_def)
      (simp add: sample_verified_def mget_Some sample_subscription_def)
  then obtain m2 where m2: "sample_reconcile (\<lambda>_. False) sample_verified m1 = (m2, None)" by (metis prod.collapse)
  show ?thesis
    using ended_worker_is_replaced [OF m1 _ _ _ _ m2, of "''s''" sample_managed] m1 m2
      sample_manager_orders sample_orders [of m1] sample_desired by (simp add: empty)
qed

end
