(* ===== verification/Management.thy ===== *)
theory Management
  imports State Go_Url
begin

text \<open>
  Read-only queries over the canonical state (\<open>internal/management/query.go\<close>): filtered and bounded
  lists of topics and subscriptions, ordered by identifier, and lookups. The source of snapshots is
  an argument: the snapshot it answers with, or its error.
\<close>

section \<open>Views\<close>

abbreviation MaximumPageSize :: int where "MaximumPageSize \<equiv> 100"

record TopicQuery =
  tq_Limit :: int
  tq_Status :: string

record SubscriptionQuery =
  sq_Limit :: int
  sq_Status :: string
  sq_TopicID :: string

record TopicView =
  tv_ID :: string
  tv_URL :: string
  tv_ContentType :: string
  tv_Status :: TopicStatus
  tv_RegisteredAt :: gtime
  tv_Revision :: "64 word"

record SubscriptionView =
  sv_ID :: string
  sv_TopicID :: string
  sv_Callback :: string
  sv_LeaseStartedAt :: gtime
  sv_EffectiveLeaseSeconds :: string
  sv_ServerID :: string
  sv_Status :: SubscriptionStatus
  sv_StaleReason :: string
  sv_Revision :: "64 word"

record TopicPage =
  tp_Revision :: "64 word"
  tp_Topics :: "TopicView list"

record SubscriptionPage =
  sp_Revision :: "64 word"
  sp_Subscriptions :: "SubscriptionView list"

record TopicResult =
  tr_Revision :: "64 word"
  tr_Topic :: TopicView

record SubscriptionResult =
  sr_Revision :: "64 word"
  sr_Subscription :: SubscriptionView

definition redactURL :: "string \<Rightarrow> string" where
  "redactURL raw =
     (case url_Parse raw of
        None \<Rightarrow> ''redacted''
      | Some parsed \<Rightarrow>
          if Scheme parsed = [] \<or> Host parsed = [] then ''redacted''
          else url_String (parsed\<lparr>RawQuery := [], Fragment := [], User := None\<rparr>))"

definition topicView :: "Topic \<Rightarrow> TopicView" where
  "topicView t = \<lparr>tv_ID = topic_ID t, tv_URL = CanonicalURL t, tv_ContentType = topic_ContentType t,
     tv_Status = topic_Status t, tv_RegisteredAt = RegisteredAt t, tv_Revision = topic_Revision t\<rparr>"

definition subscriptionView :: "Subscription \<Rightarrow> SubscriptionView" where
  "subscriptionView b = \<lparr>sv_ID = sub_ID b, sv_TopicID = sub_TopicID b, sv_Callback = redactURL (CallbackURL b),
     sv_LeaseStartedAt = LeaseStartedAt b, sv_EffectiveLeaseSeconds = EffectiveLeaseSeconds b,
     sv_ServerID = sub_ServerID b, sv_Status = sub_Status b, sv_StaleReason = StaleReason b, sv_Revision = sub_Revision b\<rparr>"

section \<open>Queries\<close>

definition validatedLimit :: "int \<Rightarrow> int result" where
  "validatedLimit limit =
     (if limit = 0 then Inr MaximumPageSize
      else if limit < 1 \<or> MaximumPageSize < limit then Inl (Wrap ''limit must be between 1 and 100'' ErrInvalidQuery)
      else Inr limit)"

definition management_snapshot :: "Snapshot result \<Rightarrow> Snapshot result" where
  "management_snapshot source =
     (case source of Inl e \<Rightarrow> Inl (Wrap ''load canonical management snapshot'' e) | Inr s \<Rightarrow> Inr s)"

text \<open>The loops over the sorted keys stop when the page is full.\<close>

fun topic_page :: "int \<Rightarrow> string \<Rightarrow> Topic gomap \<Rightarrow> string list \<Rightarrow> TopicView list \<Rightarrow> TopicView list" where
  "topic_page limit status m [] topics = topics"
| "topic_page limit status m (k # ks) topics =
     (let topic = the (mget m k) in
      if status \<noteq> [] \<and> topic_Status topic \<noteq> status then topic_page limit status m ks topics
      else let topics' = topics @ [topicView topic] in
        if int (length topics') = limit then topics' else topic_page limit status m ks topics')"

fun subscription_page ::
  "int \<Rightarrow> SubscriptionQuery \<Rightarrow> Subscription gomap \<Rightarrow> string list \<Rightarrow> SubscriptionView list \<Rightarrow> SubscriptionView list" where
  "subscription_page limit query m [] subs = subs"
| "subscription_page limit query m (k # ks) subs =
     (let sub = the (mget m k) in
      if sq_Status query \<noteq> [] \<and> sub_Status sub \<noteq> sq_Status query then subscription_page limit query m ks subs
      else if sq_TopicID query \<noteq> [] \<and> sub_TopicID sub \<noteq> sq_TopicID query then subscription_page limit query m ks subs
      else let subs' = subs @ [subscriptionView sub] in
        if int (length subs') = limit then subs' else subscription_page limit query m ks subs')"

definition ListTopics :: "Snapshot result \<Rightarrow> TopicQuery \<Rightarrow> TopicPage result" where
  "ListTopics source query =
     (case validatedLimit (tq_Limit query) of
        Inl e \<Rightarrow> Inl e
      | Inr limit \<Rightarrow>
          if tq_Status query \<noteq> [] \<and> tq_Status query \<noteq> TopicActive \<and> tq_Status query \<noteq> TopicInactive
          then Inl (Wrap ''unsupported topic status'' ErrInvalidQuery)
          else case management_snapshot source of
              Inl e \<Rightarrow> Inl e
            | Inr s \<Rightarrow> Inr \<lparr>tp_Revision = snap_Revision s,
                tp_Topics = topic_page limit (tq_Status query) (Topics s) (sorted_keys (Topics s)) []\<rparr>)"

definition GetTopic :: "Snapshot result \<Rightarrow> string \<Rightarrow> TopicResult result" where
  "GetTopic source k =
     (if TrimSpace k = [] then Inl (Wrap ''topic ID is required'' ErrInvalidQuery)
      else case management_snapshot source of
          Inl e \<Rightarrow> Inl e
        | Inr s \<Rightarrow>
            (case mget (Topics s) k of
               None \<Rightarrow> Inl (Wrap ''topic'' ErrNotFound)
             | Some t \<Rightarrow> Inr \<lparr>tr_Revision = snap_Revision s, tr_Topic = topicView t\<rparr>))"

definition ListSubscriptions :: "Snapshot result \<Rightarrow> SubscriptionQuery \<Rightarrow> SubscriptionPage result" where
  "ListSubscriptions source query =
     (case validatedLimit (sq_Limit query) of
        Inl e \<Rightarrow> Inl e
      | Inr limit \<Rightarrow>
          if sq_Status query \<noteq> [] \<and> sq_Status query \<noteq> SubscriptionActive \<and> sq_Status query \<noteq> SubscriptionStale \<and>
             sq_Status query \<noteq> SubscriptionRemoved
          then Inl (Wrap ''unsupported subscription status'' ErrInvalidQuery)
          else case management_snapshot source of
              Inl e \<Rightarrow> Inl e
            | Inr s \<Rightarrow> Inr \<lparr>sp_Revision = snap_Revision s,
                sp_Subscriptions = subscription_page limit query (Subscriptions s) (sorted_keys (Subscriptions s)) []\<rparr>)"

definition GetSubscription :: "Snapshot result \<Rightarrow> string \<Rightarrow> SubscriptionResult result" where
  "GetSubscription source k =
     (if TrimSpace k = [] then Inl (Wrap ''subscription ID is required'' ErrInvalidQuery)
      else case management_snapshot source of
          Inl e \<Rightarrow> Inl e
        | Inr s \<Rightarrow>
            (case mget (Subscriptions s) k of
               None \<Rightarrow> Inl (Wrap ''subscription'' ErrNotFound)
             | Some b \<Rightarrow> Inr \<lparr>sr_Revision = snap_Revision s, sr_Subscription = subscriptionView b\<rparr>))"

section \<open>Pages\<close>

text \<open>A page, declaratively: the first entries, by identifier, that match.\<close>

definition first_matching :: "nat \<Rightarrow> ('v \<Rightarrow> bool) \<Rightarrow> 'v gomap \<Rightarrow> 'v list" where
  "first_matching n P m = take n (filter P (map (\<lambda>k. the (mget m k)) (sorted_keys m)))"

definition topic_matches :: "TopicQuery \<Rightarrow> Topic \<Rightarrow> bool" where
  "topic_matches q t \<longleftrightarrow> tq_Status q = [] \<or> topic_Status t = tq_Status q"

definition subscription_matches :: "SubscriptionQuery \<Rightarrow> Subscription \<Rightarrow> bool" where
  "subscription_matches q b \<longleftrightarrow>
     (sq_Status q = [] \<or> sub_Status b = sq_Status q) \<and> (sq_TopicID q = [] \<or> sub_TopicID b = sq_TopicID q)"

lemma topic_page_eq:
  assumes "int (length topics) < limit"
  shows "topic_page limit (tq_Status q) m ks topics =
    topics @ map topicView (take (nat limit - length topics) (filter (topic_matches q) (map (\<lambda>k. the (mget m k)) ks)))"
  using assms
proof (induction ks arbitrary: topics)
  case (Cons k ks)
  have "nat limit - length topics = Suc (nat limit - Suc (length topics))" using Cons.prems by linarith
  with Cons show ?case by (auto simp: Let_def topic_matches_def)
qed simp

lemma subscription_page_eq:
  assumes "int (length subs) < limit"
  shows "subscription_page limit q m ks subs =
    subs @ map subscriptionView (take (nat limit - length subs) (filter (subscription_matches q) (map (\<lambda>k. the (mget m k)) ks)))"
  using assms
proof (induction ks arbitrary: subs)
  case (Cons k ks)
  have "nat limit - length subs = Suc (nat limit - Suc (length subs))" using Cons.prems by linarith
  with Cons show ?case by (auto simp: Let_def subscription_matches_def)
qed simp

text \<open>(C32) A query for a list answers with exactly the first matching entries in the order of their identifiers,
  never more than a hundred, from one snapshot whose revision it reports; it fails exactly for a limit or
  status out of range, as an invalid query, or with the error of the snapshot source.\<close>

theorem management_pages:
  "ListTopics source q =
     (if tq_Limit q < 0 \<or> 100 < tq_Limit q then Inl (Wrap ''limit must be between 1 and 100'' ErrInvalidQuery)
      else if tq_Status q \<notin> {[], TopicActive, TopicInactive} then Inl (Wrap ''unsupported topic status'' ErrInvalidQuery)
      else map_sum (Wrap ''load canonical management snapshot'') (\<lambda>s. \<lparr>tp_Revision = snap_Revision s, tp_Topics =
        map topicView (first_matching (if tq_Limit q = 0 then 100 else nat (tq_Limit q)) (topic_matches q) (Topics s))\<rparr>) source) \<and>
   ListSubscriptions source q' =
     (if sq_Limit q' < 0 \<or> 100 < sq_Limit q' then Inl (Wrap ''limit must be between 1 and 100'' ErrInvalidQuery)
      else if sq_Status q' \<notin> {[], SubscriptionActive, SubscriptionStale, SubscriptionRemoved}
      then Inl (Wrap ''unsupported subscription status'' ErrInvalidQuery)
      else map_sum (Wrap ''load canonical management snapshot'') (\<lambda>s. \<lparr>sp_Revision = snap_Revision s, sp_Subscriptions =
        map subscriptionView (first_matching (if sq_Limit q' = 0 then 100 else nat (sq_Limit q')) (subscription_matches q') (Subscriptions s))\<rparr>) source)"
proof -
  have limits: "validatedLimit l = (if l < 0 \<or> 100 < l then Inl (Wrap ''limit must be between 1 and 100'' ErrInvalidQuery)
      else Inr (if l = 0 then 100 else l))" for l
    by (auto simp: validatedLimit_def)
  have topics: "topic_page limit st m (sorted_keys m) [] = map topicView (first_matching (nat limit) (topic_matches q) m)"
    if "tq_Status q = st" "0 < limit" for limit st m
    using topic_page_eq [of "[]" limit q m] that by (simp add: first_matching_def)
  have subs: "subscription_page limit q' m (sorted_keys m) [] =
      map subscriptionView (first_matching (nat limit) (subscription_matches q') m)" if "0 < limit" for limit m
    using that by (simp add: subscription_page_eq first_matching_def)
  show ?thesis
  proof (intro conjI)
    show "ListTopics source q =
     (if tq_Limit q < 0 \<or> 100 < tq_Limit q then Inl (Wrap ''limit must be between 1 and 100'' ErrInvalidQuery)
      else if tq_Status q \<notin> {[], TopicActive, TopicInactive} then Inl (Wrap ''unsupported topic status'' ErrInvalidQuery)
      else map_sum (Wrap ''load canonical management snapshot'') (\<lambda>s. \<lparr>tp_Revision = snap_Revision s, tp_Topics =
        map topicView (first_matching (if tq_Limit q = 0 then 100 else nat (tq_Limit q)) (topic_matches q) (Topics s))\<rparr>) source)"
      by (cases source) (simp_all add: ListTopics_def limits management_snapshot_def topics)
    show "ListSubscriptions source q' =
     (if sq_Limit q' < 0 \<or> 100 < sq_Limit q' then Inl (Wrap ''limit must be between 1 and 100'' ErrInvalidQuery)
      else if sq_Status q' \<notin> {[], SubscriptionActive, SubscriptionStale, SubscriptionRemoved}
      then Inl (Wrap ''unsupported subscription status'' ErrInvalidQuery)
      else map_sum (Wrap ''load canonical management snapshot'') (\<lambda>s. \<lparr>sp_Revision = snap_Revision s, sp_Subscriptions =
        map subscriptionView (first_matching (if sq_Limit q' = 0 then 100 else nat (sq_Limit q')) (subscription_matches q') (Subscriptions s))\<rparr>) source)"
      by (cases source) (simp_all add: ListSubscriptions_def limits management_snapshot_def subs)
  qed
qed

text \<open>A page covers all matching entries when they fit.\<close>

lemma first_matching_all:
  "set (first_matching n P m) \<subseteq> {v. \<exists>k. mget m k = Some v \<and> P v}"
  "card {k. \<exists>v. mget m k = Some v \<and> P v} \<le> n \<Longrightarrow> set (first_matching n P m) = {v. \<exists>k. mget m k = Some v \<and> P v}"
proof -
  let ?xs = "filter P (map (\<lambda>k. the (mget m k)) (sorted_keys m))"
  have all: "set ?xs = {v. \<exists>k. mget m k = Some v \<and> P v}" by (auto simp: image_iff)
  then show "set (first_matching n P m) \<subseteq> {v. \<exists>k. mget m k = Some v \<and> P v}"
    unfolding first_matching_def using set_take_subset by fastforce
  have "length ?xs = length (filter (\<lambda>k. P (the (mget m k))) (sorted_keys m))" by (simp add: filter_map o_def)
  also have "\<dots> = card (set (filter (\<lambda>k. P (the (mget m k))) (sorted_keys m)))"
    by (rule distinct_card [symmetric]) simp
  also have "set (filter (\<lambda>k. P (the (mget m k))) (sorted_keys m)) = {k. \<exists>v. mget m k = Some v \<and> P v}" by auto
  finally show "card {k. \<exists>v. mget m k = Some v \<and> P v} \<le> n \<Longrightarrow> set (first_matching n P m) = {v. \<exists>k. mget m k = Some v \<and> P v}"
    using all by (simp add: first_matching_def)
qed

section \<open>Redaction\<close>

lemma Cut_absent: "c \<notin> set s \<Longrightarrow> Cut s c = (s, [], False)"
proof -
  assume "c \<notin> set s"
  then have all: "takeWhile (\<lambda>x. x \<noteq> c) s = s" by (auto simp: takeWhile_eq_all_conv)
  show ?thesis unfolding Cut_def Let_def all by simp
qed

lemma Cut_present: "c \<notin> set s \<Longrightarrow> Cut (s @ c # t) c = (s, t, True)"
proof -
  assume "c \<notin> set s"
  then have "takeWhile (\<lambda>x. x \<noteq> c) (s @ c # t) = s" by (subst takeWhile_append2) auto
  then show ?thesis by (simp add: Cut_def)
qed

lemma getScheme_append:
  assumes "getScheme s = Some (scheme, rest)" "c \<in> {CHR ''?'', CHR ''#''}"
  shows "getScheme (s @ c # t) = Some (scheme, rest @ c # t)"
proof -
  let ?P = "\<lambda>c. alnum c \<or> c \<in> set ''+-.''"
  have no: "\<not> ?P c" "CHR '':'' \<noteq> c" using assms(2) by (auto simp: alnum_def is_letter_def is_digit_def in_range_def byte_def)
  have "takeWhile ?P (s @ c # t) = takeWhile ?P s"
  proof (cases "\<exists>x\<in>set s. \<not> ?P x")
    case True
    then show ?thesis using takeWhile_append1 [of _ s ?P "c # t"] by blast
  next
    case False
    then have "takeWhile ?P s = s" by (simp only: takeWhile_eq_all_conv) blast
    moreover have "takeWhile ?P (s @ c # t) = s @ takeWhile ?P (c # t)" using False by (intro takeWhile_append2) blast
    ultimately show ?thesis using no(1) by (simp only: takeWhile.simps if_False append_Nil2)
  qed
  moreover have "drop (length (takeWhile ?P s)) (s @ c # t) = drop (length (takeWhile ?P s)) s @ c # t"
    by (simp add: length_takeWhile_le)
  ultimately show ?thesis
    using assms(1) no(2) by (cases "drop (length (takeWhile ?P s)) s") (auto simp: getScheme_def Let_def split: if_splits)
qed

lemma getScheme_None: "getScheme s = None \<Longrightarrow> getScheme (s @ t) = None"
  by (cases s) (auto simp: getScheme_def Let_def split: if_splits)

lemma getScheme_rest: "getScheme s = Some (scheme, rest) \<Longrightarrow> set rest \<subseteq> set s"
proof -
  have "set (tl (drop n s)) \<subseteq> set s" for n by (metis drop_Suc set_drop_subset tl_drop)
  then show "getScheme s = Some (scheme, rest) \<Longrightarrow> set rest \<subseteq> set s"
    by (auto simp: getScheme_def Let_def split: if_splits)
qed

lemma parse_hier_query: "parse_hier scheme rest q = map_option (\<lambda>u. u\<lparr>RawQuery := q\<rparr>) (parse_hier scheme rest q')"
  by (auto simp: parse_hier_def Let_def split: option.splits prod.splits)

lemma url_String_update [simp]:
  "url_String (u\<lparr>RawQuery := q, Fragment := f, User := v\<rparr>) = url_String u"
  by (simp add: url_String_def EscapedPath_def)

text \<open>The redacted form is one of the URL's scheme, host and path only.\<close>

definition redacted_form :: "URL option \<Rightarrow> string" where
  "redacted_form p = (case p of None \<Rightarrow> ''redacted'' | Some u \<Rightarrow> if Scheme u = [] \<or> Host u = [] then ''redacted'' else url_String u)"

lemma redactURL_eq: "redactURL raw = redacted_form (url_Parse raw)"
  by (simp add: redactURL_def redacted_form_def split: option.splits)

lemma redacted_form_None [simp]: "redacted_form None = ''redacted''"
  by (simp add: redacted_form_def)

lemma redacted_form_update:
  "redacted_form (map_option (\<lambda>u. u\<lparr>RawQuery := q\<rparr>) p) = redacted_form p"
  "redacted_form (map_option (\<lambda>u. u\<lparr>Fragment := f\<rparr>) p) = redacted_form p"
  by (cases p; simp add: redacted_form_def url_String_def EscapedPath_def)+

text \<open>The hierarchical part of a URL text without fragment and query.\<close>

definition hierarchy :: "string \<Rightarrow> URL option" where
  "hierarchy s =
     (if list_ex is_ctl s then None
      else case getScheme s of None \<Rightarrow> None | Some (scheme, rest) \<Rightarrow> parse_hier (ToLower scheme) rest [])"

lemma redactURL_split:
  assumes "CHR ''?'' \<notin> set s" "CHR ''#'' \<notin> set s" "CHR ''#'' \<notin> set q"
  shows "url_Parse (s @ CHR ''#'' # f) = (case unescape f of None \<Rightarrow> None | Some g \<Rightarrow> map_option (\<lambda>u. u\<lparr>Fragment := g\<rparr>) (hierarchy s))"
    "url_Parse s = hierarchy s"
    "url_Parse (s @ CHR ''?'' # q) = (if list_ex is_ctl q then None else map_option (\<lambda>u. u\<lparr>RawQuery := q\<rparr>) (hierarchy s))"
proof -
  have mark: "\<not> is_ctl (CHR ''?'')" by (simp add: is_ctl_def byte_def)
  show "url_Parse (s @ CHR ''#'' # f) = (case unescape f of None \<Rightarrow> None | Some g \<Rightarrow> map_option (\<lambda>u. u\<lparr>Fragment := g\<rparr>) (hierarchy s))"
  proof (cases "getScheme s")
    case (Some p)
    then obtain scheme rest where gs: "getScheme s = Some (scheme, rest)" by (cases p) auto
    then have "CHR ''?'' \<notin> set rest" using getScheme_rest assms(1) by blast
    then show ?thesis using assms(2) gs
      by (cases "unescape f") (auto simp: url_Parse_def hierarchy_def Cut_present Cut_absent cut_query_def split: option.splits)
  qed (use assms(2) in \<open>auto simp: url_Parse_def hierarchy_def Cut_present split: option.splits\<close>)
  show "url_Parse s = hierarchy s"
  proof (cases "getScheme s")
    case (Some p)
    then obtain scheme rest where gs: "getScheme s = Some (scheme, rest)" by (cases p) auto
    then have "CHR ''?'' \<notin> set rest" using getScheme_rest assms(1) by blast
    moreover have "u\<lparr>Fragment := []\<rparr> = u" if "parse_hier (ToLower scheme) rest [] = Some u" for u
      using that by (auto simp: parse_hier_def Let_def split: if_splits option.splits prod.splits)
    ultimately show ?thesis using assms(2) gs
      by (auto simp: url_Parse_def hierarchy_def Cut_absent cut_query_def split: option.splits)
  qed (use assms(2) in \<open>auto simp: url_Parse_def hierarchy_def Cut_absent split: option.splits\<close>)
  have hash: "CHR ''#'' \<notin> set (s @ CHR ''?'' # q)" using assms(2,3) by simp
  show "url_Parse (s @ CHR ''?'' # q) = (if list_ex is_ctl q then None else map_option (\<lambda>u. u\<lparr>RawQuery := q\<rparr>) (hierarchy s))"
  proof (cases "getScheme s")
    case (Some p)
    then obtain scheme rest where gs: "getScheme s = Some (scheme, rest)" by (cases p) auto
    note gs' = getScheme_append [OF gs, of "CHR ''?''" q, simplified]
    have "CHR ''?'' \<notin> set rest" using gs getScheme_rest assms(1) by blast
    then have "cut_query (rest @ CHR ''?'' # q) = (rest, q)" by (simp add: cut_query_def Cut_present)
    moreover have "u\<lparr>Fragment := []\<rparr> = u" if "parse_hier (ToLower scheme) rest q = Some u" for u
      using that by (auto simp: parse_hier_def Let_def split: if_splits option.splits prod.splits)
    ultimately show ?thesis
      using gs gs' mark parse_hier_query [of "ToLower scheme" rest q "[]"] Cut_absent [OF hash]
      by (auto simp: url_Parse_def hierarchy_def split: option.splits)
  qed (use getScheme_None Cut_absent [OF hash] mark in \<open>auto simp: url_Parse_def hierarchy_def split: option.splits\<close>)
qed

lemma until_hash: "t = takeWhile (\<lambda>c. c \<noteq> CHR ''#'') t @ (case dropWhile (\<lambda>c. c \<noteq> CHR ''#'') t of [] \<Rightarrow> [] | _ # f \<Rightarrow> CHR ''#'' # f)"
proof (cases "dropWhile (\<lambda>c. c \<noteq> CHR ''#'') t")
  case Nil
  then have "takeWhile (\<lambda>c. c \<noteq> CHR ''#'') t = t" by (metis append_Nil2 takeWhile_dropWhile_id)
  then show ?thesis by (simp only: Nil list.case append_Nil2)
next
  case (Cons a f)
  then have "a = CHR ''#''" using hd_dropWhile [of "\<lambda>c. c \<noteq> CHR ''#''" t] by simp
  with Cons show ?thesis using takeWhile_dropWhile_id [of "\<lambda>c. c \<noteq> CHR ''#''" t] by simp
qed

lemma url_Parse_fragment:
  assumes "CHR ''#'' \<notin> set u"
  shows "redacted_form (url_Parse (u @ CHR ''#'' # f)) \<in> {redacted_form (url_Parse u), ''redacted''}"
proof -
  have "url_Parse (u @ CHR ''#'' # f) = (case unescape f of None \<Rightarrow> None | Some g \<Rightarrow> map_option (\<lambda>v. v\<lparr>Fragment := g\<rparr>) (url_Parse u))"
    by (cases "unescape f") (auto simp: url_Parse_def Cut_present [OF assms] Cut_absent [OF assms] split: option.splits prod.splits)
  then show ?thesis by (cases "unescape f") (simp_all add: redacted_form_update)
qed

text \<open>Redaction of a callback URL hides its query and its fragment: whatever follows the first question mark or
  number sign, the redacted text is the one without it, or the constant text.\<close>

theorem redactURL_hides:
  assumes "CHR ''?'' \<notin> set s" "CHR ''#'' \<notin> set s" "c \<in> {CHR ''?'', CHR ''#''}"
  shows "redactURL (s @ c # t) \<in> {redactURL s, ''redacted''}"
proof (cases "c = CHR ''#''")
  case True
  then show ?thesis using url_Parse_fragment [OF assms(2), of t] by (simp add: redactURL_eq)
next
  case False
  define q where "q = takeWhile (\<lambda>c. c \<noteq> CHR ''#'') t"
  have q: "CHR ''#'' \<notin> set q" by (auto simp: q_def dest: set_takeWhileD)
  let ?u = "s @ CHR ''?'' # q"
  have u: "CHR ''#'' \<notin> set ?u" using assms(2) q by simp
  have "redacted_form (url_Parse ?u) \<in> {redactURL s, ''redacted''}"
    unfolding redactURL_split(3) [OF assms(1,2) q] redactURL_eq redactURL_split(2) [OF assms(1,2) q]
    by (simp add: redacted_form_update)
  moreover obtain f where "s @ c # t = ?u \<or> s @ c # t = ?u @ CHR ''#'' # f"
    using until_hash [of t] False assms(3) by (auto simp: q_def split: list.splits)
  ultimately show ?thesis using url_Parse_fragment [OF u, of f] unfolding redactURL_eq by fastforce
qed

theorem redactURL_hides_witness:
  "redactURL ''https://cb/p?token=1'' = ''https://cb/p'' \<and> redactURL ''https://cb/p?token=1'' \<in> {redactURL ''https://cb/p'', ''redacted''}"
proof -
  have "redactURL ''https://cb/p?token=1'' = ''https://cb/p''" by code_simp
  then show ?thesis using redactURL_hides [of "''https://cb/p''" "CHR ''?''" "''token=1''"] by simp
qed

end
