(* ===== verification/Ingest.thy ===== *)
theory Ingest
  imports Reducer Layout
begin

text \<open>
  Content ingestion (\<open>internal/ingest/ingestor.go\<close>), with the content updates of
  \<open>internal/app/resourcehub/handler.go\<close>. The projected state, the generator of message identifiers and
  the producer are arguments; the result lists the message handed to the producer.
\<close>

abbreviation ContentUpdateEvent :: string where "ContentUpdateEvent \<equiv> ''event''"
abbreviation ContentUpdateExact :: string where "ContentUpdateExact \<equiv> ''content''"

record ContentUpdate =
  cu_Kind :: string
  cu_Topic :: string
  cu_ContentType :: string
  cu_Body :: string

record ingest_env =
  ie_snapshot :: Snapshot
  ie_message_id :: "string result"
  ie_send :: "Destination \<Rightarrow> Message \<Rightarrow> goerr option"

text \<open>\<open>rnd\<close>: the sixteen bytes \<open>crypto/rand\<close> delivers, or its error.\<close>

definition randomMessageID :: "string result \<Rightarrow> string result" where
  "randomMessageID rnd = (case rnd of Inl e \<Rightarrow> Inl e | Inr bytes \<Rightarrow> Inr (''message-'' @ hex_EncodeToString bytes))"

text \<open>\<open>given\<close>: the producer and the projection are not nil; the generator defaults to the random one.\<close>

definition ingest_New ::
  "bool \<Rightarrow> Snapshot \<Rightarrow> (Destination \<Rightarrow> Message \<Rightarrow> goerr option) \<Rightarrow> string result option \<Rightarrow> string result \<Rightarrow> ingest_env result" where
  "ingest_New given snapshot send newMessageID rnd =
     (if \<not> given then Inl (Error ''message producer and state projection are required'')
      else Inr \<lparr>ie_snapshot = snapshot,
        ie_message_id = (case newMessageID of None \<Rightarrow> randomMessageID rnd | Some answer \<Rightarrow> answer), ie_send = send\<rparr>)"

definition Persist :: "ingest_env \<Rightarrow> ContentUpdate \<Rightarrow> (Destination \<times> Message) option \<times> goerr option" where
  "Persist env update =
     (if cu_Kind update = ContentUpdateEvent then (None, Some ErrEventFetchUnavailable)
      else if cu_Kind update \<noteq> ContentUpdateExact then (None, Some (Error ''unsupported content update kind''))
      else if cu_Topic update = [] then (None, Some (Error ''content topic is required''))
      else case NormalizeContentType (cu_ContentType update) of
          Inl e \<Rightarrow> (None, Some e)
        | Inr contentType \<Rightarrow>
            (case TopicID (cu_Topic update) of
               Inl e \<Rightarrow> (None, Some e)
             | Inr topicID \<Rightarrow>
                 (case mget (Topics (ie_snapshot env)) topicID of
                    None \<Rightarrow> (None, Some ErrTopicUnavailable)
                  | Some topic \<Rightarrow>
                      if topic_Status topic \<noteq> TopicActive \<or> ContentDestination topic = [] then (None, Some ErrTopicUnavailable)
                      else if contentType \<noteq> topic_ContentType topic then (None, Some ErrContentTypeMismatch)
                      else (case ie_message_id env of
                          Inl e \<Rightarrow> (None, Some (Wrap ''generate content message ID'' e))
                        | Inr messageID \<Rightarrow>
                            if messageID = [] then (None, Some (Error ''content message ID is empty''))
                            else let message = \<lparr>msg_ID = messageID, Body = cu_Body update, ContentType = [], Metadata = None, StorageError = []\<rparr>
                              in (Some (ContentDestination topic, message),
                                  map_option (Wrap ''persist content message'') (ie_send env (ContentDestination topic) message))))))"

text \<open>The error for a topic that is missing or inactive comes before the comparison of the content types.\<close>

definition publishable :: "Snapshot \<Rightarrow> ContentUpdate \<Rightarrow> Topic \<Rightarrow> bool" where
  "publishable s update topic \<longleftrightarrow>
     cu_Kind update = ContentUpdateExact \<and>
     (\<exists>k. TopicID (cu_Topic update) = Inr k \<and> mget (Topics s) k = Some topic) \<and>
     topic_Status topic = TopicActive \<and> NormalizeContentType (cu_ContentType update) = Inr (topic_ContentType topic)"

text \<open>(C25) Content is handed to the message store exactly when it is exact content for an active topic, in that
  topic's normalised content type, and a message identifier could be made; it goes to that topic's
  destination with its bytes unchanged, and success is reported only if the store took it.\<close>

theorem Persist_exact:
  assumes "valid_snapshot (ie_snapshot env)"
  shows "(\<exists>topic k. publishable (ie_snapshot env) update topic \<and> ie_message_id env = Inr k \<and> k \<noteq> [] \<and>
            (let m = \<lparr>msg_ID = k, Body = cu_Body update, ContentType = [], Metadata = None, StorageError = []\<rparr> in
             Persist env update = (Some (ContentDestination topic, m),
               map_option (Wrap ''persist content message'') (ie_send env (ContentDestination topic) m)))) \<or>
         (\<exists>e. Persist env update = (None, Some e)) \<and>
         \<not> ((\<exists>topic. publishable (ie_snapshot env) update topic) \<and> (\<exists>k. ie_message_id env = Inr k \<and> k \<noteq> []))"
proof (cases "\<exists>topic. publishable (ie_snapshot env) update topic")
  case True
  then obtain topic k where p: "cu_Kind update = ContentUpdateExact" "TopicID (cu_Topic update) = Inr k"
    "mget (Topics (ie_snapshot env)) k = Some topic" "topic_Status topic = TopicActive"
    "NormalizeContentType (cu_ContentType update) = Inr (topic_ContentType topic)"
    and pub: "publishable (ie_snapshot env) update topic" by (auto simp: publishable_def)
  have "cu_Topic update \<noteq> []" using p(2) by (auto simp: TopicID_def)
  moreover have "ContentDestination topic \<noteq> []"
    using assms p(3) by (auto simp: valid_snapshot_iff range_all_iff topic_ok_def)
  ultimately show ?thesis using p pub by (cases "ie_message_id env") (auto simp: Persist_def Let_def)
next
  case False
  then have "\<exists>e. Persist env update = (None, Some e)"
    by (auto simp: Persist_def publishable_def split: if_splits option.splits sum.splits)
  with False show ?thesis by blast
qed

definition sample_ingest :: ingest_env where
  "sample_ingest = (let k = projr (TopicID ''u''); t = sample_topic\<lparr>topic_ID := k, CanonicalURL := ''u''\<rparr> in
     \<lparr>ie_snapshot = sample_registered\<lparr>Topics := Some (fmupd k t fmempty)\<rparr>, ie_message_id = Inr ''m'', ie_send = \<lambda>_ _. None\<rparr>)"

definition sample_update :: ContentUpdate where
  "sample_update = \<lparr>cu_Kind = ContentUpdateExact, cu_Topic = ''u'', cu_ContentType = ''Application/JSON'', cu_Body = ''b''\<rparr>"

lemma sample_content_type: "NormalizeContentType ''Application/JSON'' = Inr ''application/json''"
  by code_simp

theorem Persist_exact_witness:
  "\<exists>m. Persist sample_ingest sample_update = (Some (''d'', m), None) \<and> Body m = ''b''"
proof -
  have k: "TopicID ''u'' = Inr (projr (TopicID ''u''))" "projr (TopicID ''u'') \<noteq> []" by (simp_all add: TopicID_def)
  from sample_content_type have pub: "publishable (ie_snapshot sample_ingest) sample_update t \<longleftrightarrow> t = sample_topic\<lparr>topic_ID := projr (TopicID ''u''), CanonicalURL := ''u''\<rparr>" for t
    using k by (auto simp: publishable_def sample_ingest_def sample_update_def Let_def mget_Some sample_topic_def)
  have "valid_snapshot (ie_snapshot sample_ingest)"
    using k(2) canonical_json by (auto simp: valid_snapshot_iff range_all_iff mget_Some topic_ok_def sample_ingest_def
        Let_def sample_registered_def sample_topic_def)
  from Persist_exact [OF this, of sample_update] pub show ?thesis
    by (auto simp: sample_ingest_def Let_def sample_topic_def sample_update_def)
qed

end
