(* ===== verification/Auth.thy ===== *)
theory Auth
  imports Configuration
begin

text \<open>
  Authentication of requests (\<open>internal/security/auth/verifier.go\<close> and \<open>none.go\<close>): bearer tokens, the choice
  of a signing key, scopes, and the cache of the issuer's key set. The JOSE library is an argument: the
  record \<open>jwx\<close> holds its lookups, a \<open>jwt_parser\<close> is \<open>jwt.Parse\<close>, which calls the key provider it is given and
  threads the key source's state. A claim's value is one of the shapes the code distinguishes.
\<close>

abbreviation ScopeTopicRegister :: string where "ScopeTopicRegister \<equiv> ''websubhub:topic:register''"
abbreviation ScopeTopicDeregister :: string where "ScopeTopicDeregister \<equiv> ''websubhub:topic:deregister''"
abbreviation ScopeContentPublish :: string where "ScopeContentPublish \<equiv> ''websubhub:content:publish''"
abbreviation ScopeSubscriptionCreate :: string where "ScopeSubscriptionCreate \<equiv> ''websubhub:subscription:create''"
abbreviation ScopeSubscriptionDelete :: string where "ScopeSubscriptionDelete \<equiv> ''websubhub:subscription:delete''"
abbreviation ScopeOperationsRead :: string where "ScopeOperationsRead \<equiv> ''websubhub:ops:read''"
abbreviation ScopeOperationsWrite :: string where "ScopeOperationsWrite \<equiv> ''websubhub:ops:write''"

section \<open>The library\<close>

datatype claim_value = ClaimString string | ClaimStrings "string list" | ClaimItems "string option list" | ClaimOther

record jwt_token =
  tok_Subject :: "string option"
  tok_Get :: "string \<Rightarrow> claim_value option"
  tok_Issuer :: "string option"
  tok_Audience :: "string list"
  tok_Expiration :: "int option"

record 'alg jws_signature =
  sg_Algorithm :: "'alg option"
  sg_KeyID :: "string option"

record ('alg, 'key, 'set) jwx =
  jwa_LookupSignatureAlgorithm :: "string \<Rightarrow> 'alg option"
  jwa_String :: "'alg \<Rightarrow> string"
  jwk_LookupKeyID :: "'set \<Rightarrow> string \<Rightarrow> 'key option"

record parse_options =
  po_Issuer :: string
  po_Audience :: string
  po_AcceptableSkew :: duration
  po_RequiredClaims :: "string list"

type_synonym ('alg, 'key, 's) fetch_keys = "'alg jws_signature \<Rightarrow> 's \<Rightarrow> 's \<times> ('alg \<times> 'key) result"
type_synonym ('alg, 'key, 's) jwt_parser =
  "string \<Rightarrow> ('alg, 'key, 's) fetch_keys \<Rightarrow> parse_options \<Rightarrow> 's \<Rightarrow> 's \<times> jwt_token result"
type_synonym ('s, 'set) key_source = "bool \<Rightarrow> 's \<Rightarrow> 's \<times> 'set result"

section \<open>Verifying a request\<close>

record Principal =
  pr_Subject :: string
  pr_Scopes :: "string fset"

record 'alg Verifier =
  vf_cfg :: JWT
  vf_algorithms :: "'alg gomap"

fun lookup_algorithms :: "('alg, 'key, 'set) jwx \<Rightarrow> string list \<Rightarrow> 'alg gomap \<Rightarrow> 'alg gomap result" where
  "lookup_algorithms lib [] algorithms = Inr algorithms"
| "lookup_algorithms lib (name # names) algorithms =
     (case jwa_LookupSignatureAlgorithm lib name of
        None \<Rightarrow> Inl (Error ''unknown JWT algorithm'')
      | Some algorithm \<Rightarrow> lookup_algorithms lib names (mput algorithms name algorithm))"

text \<open>\<open>given\<close>: the key source is not nil.\<close>

definition auth_New :: "('alg, 'key, 'set) jwx \<Rightarrow> JWT \<Rightarrow> bool \<Rightarrow> 'alg Verifier result" where
  "auth_New lib cfg given =
     (if \<not> given then Inl (Error ''JWT key source is required'')
      else case lookup_algorithms lib (Algorithms cfg) (Some fmempty) of
          Inl err \<Rightarrow> Inl err
        | Inr algorithms \<Rightarrow> Inr \<lparr>vf_cfg = cfg, vf_algorithms = algorithms\<rparr>)"

text \<open>No code point outside ASCII folds to a letter of \<open>Bearer\<close>.\<close>

definition is_bearer :: "string \<Rightarrow> bool" where
  "is_bearer s = (map lower_char s = ''bearer'')"

definition bearerToken :: "string list \<Rightarrow> int \<Rightarrow> string result" where
  "bearerToken values maximum =
     (case values of
        [value] \<Rightarrow>
          (case Fields value of
             [scheme, token] \<Rightarrow>
               if \<not> is_bearer scheme \<or> length token = 0 \<or> maximum < int (length token) then Inl ErrUnauthenticated
               else Inr token
           | _ \<Rightarrow> Inl ErrUnauthenticated)
      | _ \<Rightarrow> Inl ErrUnauthenticated)"

fun scope_items :: "string option list \<Rightarrow> string fset \<Rightarrow> string fset result" where
  "scope_items [] scopes = Inr scopes"
| "scope_items (item # items) scopes =
     (case item of
        None \<Rightarrow> Inl (Error ''invalid JWT scope claim'')
      | Some scope \<Rightarrow>
          if scope = [] then Inl (Error ''invalid JWT scope claim'') else scope_items items (finsert scope scopes))"

definition tokenScopes :: "jwt_token \<Rightarrow> string \<Rightarrow> string fset result" where
  "tokenScopes token claim =
     (case tok_Get token claim of
        None \<Rightarrow> Inl (Error ''claim not found'')
      | Some (ClaimString value) \<Rightarrow> Inr (fset_of_list (Fields value))
      | Some (ClaimStrings value) \<Rightarrow> Inr (fset_of_list (filter (\<lambda>scope. scope \<noteq> []) value))
      | Some (ClaimItems value) \<Rightarrow> scope_items value {||}
      | Some ClaimOther \<Rightarrow> Inl (Error ''invalid JWT scope claim''))"

definition FetchKeys ::
  "('alg, 'key, 'set) jwx \<Rightarrow> ('s, 'set) key_source \<Rightarrow> 'alg gomap \<Rightarrow> ('alg, 'key, 's) fetch_keys" where
  "FetchKeys lib source algorithms sig s =
     (case sg_Algorithm sig of
        None \<Rightarrow> (s, Inl (Error ''JWT protected algorithm is required''))
      | Some algorithm \<Rightarrow>
          if mget algorithms (jwa_String lib algorithm) \<noteq> Some algorithm
          then (s, Inl (Error ''JWT algorithm is not allowed''))
          else case sg_KeyID sig of
              None \<Rightarrow> (s, Inl (Error ''JWT protected key ID is required''))
            | Some keyID \<Rightarrow>
                if keyID = [] then (s, Inl (Error ''JWT protected key ID is required''))
                else (case source False s of
                    (s, Inl err) \<Rightarrow> (s, Inl err)
                  | (s, Inr keys) \<Rightarrow>
                      (case jwk_LookupKeyID lib keys keyID of
                         Some key \<Rightarrow> (s, Inr (algorithm, key))
                       | None \<Rightarrow>
                           (case source True s of
                              (s, Inl err) \<Rightarrow> (s, Inl err)
                            | (s, Inr keys) \<Rightarrow>
                                (case jwk_LookupKeyID lib keys keyID of
                                   None \<Rightarrow> (s, Inl (Error ''JWT signing key is unavailable''))
                                 | Some key \<Rightarrow> (s, Inr (algorithm, key)))))))"

definition parse_options_of :: "JWT \<Rightarrow> parse_options" where
  "parse_options_of cfg = \<lparr>po_Issuer = Issuer cfg, po_Audience = Audience cfg,
     po_AcceptableSkew = ClockSkew cfg, po_RequiredClaims = [''exp'', ''sub'']\<rparr>"

definition Verify ::
  "('alg, 'key, 'set) jwx \<Rightarrow> ('alg, 'key, 's) jwt_parser \<Rightarrow> ('s, 'set) key_source \<Rightarrow> 'alg Verifier \<Rightarrow>
   string list \<Rightarrow> 's \<Rightarrow> 's \<times> Principal result" where
  "Verify lib parse source v authorization s =
     (case bearerToken authorization (MaxTokenBytes (vf_cfg v)) of
        Inl err \<Rightarrow> (s, Inl err)
      | Inr tokenText \<Rightarrow>
          (case parse tokenText (FetchKeys lib source (vf_algorithms v)) (parse_options_of (vf_cfg v)) s of
             (s, Inl _) \<Rightarrow> (s, Inl ErrUnauthenticated)
           | (s, Inr token) \<Rightarrow>
               (s, case tok_Subject token of
                     None \<Rightarrow> Inl ErrUnauthenticated
                   | Some subject \<Rightarrow>
                       if subject = [] then Inl ErrUnauthenticated
                       else (case tokenScopes token (ScopeClaim (vf_cfg v)) of
                           Inl _ \<Rightarrow> Inl ErrUnauthenticated
                         | Inr scopes \<Rightarrow> Inr \<lparr>pr_Subject = subject, pr_Scopes = scopes\<rparr>))))"

definition Authenticate ::
  "('alg, 'key, 'set) jwx \<Rightarrow> ('alg, 'key, 's) jwt_parser \<Rightarrow> ('s, 'set) key_source \<Rightarrow> 'alg Verifier \<Rightarrow>
   string list \<Rightarrow> string \<Rightarrow> 's \<Rightarrow> 's \<times> Principal result" where
  "Authenticate lib parse source v authorization requiredScope s =
     (case Verify lib parse source v authorization s of
        (s, Inl err) \<Rightarrow> (s, Inl err)
      | (s, Inr who) \<Rightarrow>
          (s, if requiredScope |\<notin>| pr_Scopes who then Inl ErrForbidden else Inr who))"

text \<open>The request's context carries the principal.\<close>

definition RequireScope :: "Principal option \<Rightarrow> string \<Rightarrow> Principal result" where
  "RequireScope ctx scope =
     (case ctx of
        None \<Rightarrow> Inl ErrUnauthenticated
      | Some who \<Rightarrow>
          if pr_Subject who = [] then Inl ErrUnauthenticated
          else if scope |\<notin>| pr_Scopes who then Inl ErrForbidden
          else Inr who)"

definition verifier_Authorize :: "Principal option \<Rightarrow> string \<Rightarrow> string result" where
  "verifier_Authorize ctx scope =
     (case RequireScope ctx scope of Inl err \<Rightarrow> Inl err | Inr who \<Rightarrow> Inr (pr_Subject who))"

text \<open>A response: its status, the headers set, its body.\<close>

record response =
  rs_Status :: int
  rs_Header :: "(string \<times> string) list"
  rs_Body :: string

definition error_response :: "(string \<times> string) list \<Rightarrow> int \<Rightarrow> string \<Rightarrow> response" where
  "error_response headers status text = \<lparr>rs_Status = status,
     rs_Header = headers @ [(''Content-Type'', ''text/plain; charset=utf-8''), (''X-Content-Type-Options'', ''nosniff'')],
     rs_Body = text @ [CHR 0x0A]\<rparr>"

definition verifier_Middleware ::
  "('alg, 'key, 'set) jwx \<Rightarrow> ('alg, 'key, 's) jwt_parser \<Rightarrow> ('s, 'set) key_source \<Rightarrow> 'alg Verifier \<Rightarrow>
   (Principal option \<Rightarrow> response) \<Rightarrow> string list \<Rightarrow> 's \<Rightarrow> 's \<times> response" where
  "verifier_Middleware lib parse source v next1 authorization s =
     (case Verify lib parse source v authorization s of
        (s, Inl _) \<Rightarrow> (s, error_response [(''WWW-Authenticate'', ''Bearer realm=\"websubhub\"'')] 401 ''unauthorized'')
      | (s, Inr who) \<Rightarrow> (s, next1 (Some who)))"

section \<open>No authentication\<close>

abbreviation UnauthenticatedActorID :: string where "UnauthenticatedActorID \<equiv> ''unauthenticated''"

definition none_Middleware :: "(Principal option \<Rightarrow> response) \<Rightarrow> Principal option \<Rightarrow> response" where
  "none_Middleware next1 = next1"

definition none_Authorize :: "Principal option \<Rightarrow> string \<Rightarrow> string result" where
  "none_Authorize ctx scope = Inr UnauthenticatedActorID"

text \<open>What a listener is configured with.\<close>

datatype 'alg authentication = NoAuthentication | JWTAuthentication "'alg Verifier"

section \<open>The issuer's keys\<close>

record 'set RemoteKeySource =
  rk_url :: string
  rk_ttl :: duration
  rk_set :: "'set option"
  rk_fetchedAt :: int

definition NewRemoteKeySource :: "JWT \<Rightarrow> 'set RemoteKeySource" where
  "NewRemoteKeySource cfg = \<lparr>rk_url = JWKSURL cfg, rk_ttl = CacheTTL cfg, rk_set = None, rk_fetchedAt = 0\<rparr>"

text \<open>What one call of \<open>Keys\<close> meets: the clock when it starts, the issuer's answer if it is asked, the clock
  after that. The state counts the calls.\<close>

record 'set jwks_answer =
  ja_now :: int
  ja_fetch :: "'set result"
  ja_after :: int

definition cache_fresh :: "int \<Rightarrow> 'set RemoteKeySource \<Rightarrow> bool" where
  "cache_fresh now src = (rk_set src \<noteq> None \<and> now - rk_fetchedAt src < rk_ttl src)"

definition remote_Keys :: "(nat \<Rightarrow> 'set jwks_answer) \<Rightarrow> ('set RemoteKeySource \<times> nat, 'set) key_source" where
  "remote_Keys answers force = (\<lambda>(src, n).
     if \<not> force \<and> cache_fresh (ja_now (answers n)) src then ((src, Suc n), Inr (the (rk_set src)))
     else case ja_fetch (answers n) of
         Inl _ \<Rightarrow> ((src, Suc n), Inl (Error ''fetch JWT signing keys''))
       | Inr keys \<Rightarrow> ((src\<lparr>rk_set := Some keys, rk_fetchedAt := ja_after (answers n)\<rparr>, Suc n), Inr keys))"

section \<open>What a verified request proves\<close>

lemma lookup_algorithms_sound:
  assumes "lookup_algorithms lib names m = Inr m'" "mget m' name = Some a"
  shows "mget m name = Some a \<or> name \<in> set names \<and> jwa_LookupSignatureAlgorithm lib name = Some a"
  using assms by (induction lib names m rule: lookup_algorithms.induct) (auto split: option.splits if_splits)

lemma auth_New_sound:
  assumes "auth_New lib cfg given = Inr v"
  shows "vf_cfg v = cfg" "mget (vf_algorithms v) name = Some a \<Longrightarrow> name \<in> set (Algorithms cfg) \<and> jwa_LookupSignatureAlgorithm lib name = Some a"
  using assms lookup_algorithms_sound [of lib "Algorithms cfg" "Some fmempty" "vf_algorithms v" name a]
  by (auto simp: auth_New_def mget_def split: if_splits sum.splits)

lemma bearerToken_sound:
  assumes "bearerToken headers maximum = Inr token"
  obtains header scheme where "headers = [header]" "Fields header = [scheme, token]" "is_bearer scheme" "token \<noteq> []"
    "int (length token) \<le> maximum"
  using assms by (auto simp: bearerToken_def split: list.splits if_splits)

text \<open>A key handed to the library: it was looked up by a protected, non-empty key identifier in a key set that the
  source served during this request, for an algorithm of the configuration.\<close>

definition trusted_key ::
  "('alg, 'key, 'set) jwx \<Rightarrow> ('s, 'set) key_source \<Rightarrow> JWT \<Rightarrow> 'alg jws_signature \<Rightarrow> 'alg \<Rightarrow> 'key \<Rightarrow> bool" where
  "trusted_key lib source cfg sig algorithm key \<longleftrightarrow>
     (\<exists>keyID force s s' keys. sg_Algorithm sig = Some algorithm \<and> sg_KeyID sig = Some keyID \<and> keyID \<noteq> [] \<and>
        jwa_String lib algorithm \<in> set (Algorithms cfg) \<and>
        jwa_LookupSignatureAlgorithm lib (jwa_String lib algorithm) = Some algorithm \<and>
        source force s = (s', Inr keys) \<and> jwk_LookupKeyID lib keys keyID = Some key)"

lemma FetchKeys_trusted:
  assumes "FetchKeys lib source (vf_algorithms v) sig s = (s', Inr (algorithm, key))" "auth_New lib cfg True = Inr v"
  shows "trusted_key lib source cfg sig algorithm key"
proof -
  obtain keyID force s1 s2 keys where k: "sg_Algorithm sig = Some algorithm" "sg_KeyID sig = Some keyID" "keyID \<noteq> []"
    "mget (vf_algorithms v) (jwa_String lib algorithm) = Some algorithm"
    "source force s1 = (s2, Inr keys)" "jwk_LookupKeyID lib keys keyID = Some key"
    using assms(1) unfolding FetchKeys_def
    by (auto split: option.splits if_splits prod.splits sum.splits)
  with auth_New_sound(2) [OF assms(2) k(4)] show ?thesis unfolding trusted_key_def by blast
qed

text \<open>What the library documents of \<open>jwt.Parse\<close> with a key provider and these options: a token is returned only if
  one of the text's signatures verifies with a key the provider returned for it, its issuer and audience
  are those asked for, the required claims are there and it has not expired (up to the skew).\<close>

definition parser_documented ::
  "(string \<Rightarrow> 'alg jws_signature set) \<Rightarrow> ('alg \<Rightarrow> 'key \<Rightarrow> string \<Rightarrow> bool) \<Rightarrow> int \<Rightarrow> ('alg, 'key, 's) jwt_parser \<Rightarrow> bool" where
  "parser_documented signatures verifies now parse \<longleftrightarrow>
     (\<forall>raw fetch opts s s' token. parse raw fetch opts s = (s', Inr token) \<longrightarrow>
        (\<exists>sig s1 s2 algorithm key. sig \<in> signatures raw \<and> fetch sig s1 = (s2, Inr (algorithm, key)) \<and> verifies algorithm key raw) \<and>
        tok_Issuer token = Some (po_Issuer opts) \<and> po_Audience opts \<in> set (tok_Audience token) \<and>
        (''sub'' \<in> set (po_RequiredClaims opts) \<longrightarrow> tok_Subject token \<noteq> None) \<and>
        (''exp'' \<in> set (po_RequiredClaims opts) \<longrightarrow> tok_Expiration token \<noteq> None) \<and>
        (\<forall>t. tok_Expiration token = Some t \<longrightarrow> now \<le> t + po_AcceptableSkew opts))"

lemma Verify_parses:
  assumes "Verify lib parse source v authorization s = (s', Inr p)"
  obtains raw token where "bearerToken authorization (MaxTokenBytes (vf_cfg v)) = Inr raw"
    "parse raw (FetchKeys lib source (vf_algorithms v)) (parse_options_of (vf_cfg v)) s = (s', Inr token)"
    "tok_Subject token = Some (pr_Subject p)" "pr_Subject p \<noteq> []" "tokenScopes token (ScopeClaim (vf_cfg v)) = Inr (pr_Scopes p)"
  using assms by (auto simp: Verify_def split: sum.splits prod.splits option.splits if_splits)

text \<open>(C12) If the library does what it documents, a request is verified only if it carries exactly one
  \<open>Authorization\<close> header, a bearer token of at most the configured size, one of whose signatures verifies
  under an algorithm of the configuration with a key that the issuer's key set names by the protected key
  identifier; the token's issuer and audience are the configured ones, it has not expired, and the principal's
  subject, which is not empty, and scopes are those of the token.\<close>

theorem Verify_authentic:
  assumes "auth_New lib cfg True = Inr v" "parser_documented signatures verifies now parse"
    "Verify lib parse source v authorization s = (s', Inr p)"
  shows "\<exists>header scheme raw token sig algorithm key expiry.
    authorization = [header] \<and> Fields header = [scheme, raw] \<and> is_bearer scheme \<and> int (length raw) \<le> MaxTokenBytes cfg \<and>
    sig \<in> signatures raw \<and> trusted_key lib source cfg sig algorithm key \<and> verifies algorithm key raw \<and>
    tok_Issuer token = Some (Issuer cfg) \<and> Audience cfg \<in> set (tok_Audience token) \<and>
    tok_Expiration token = Some expiry \<and> now \<le> expiry + ClockSkew cfg \<and>
    tok_Subject token = Some (pr_Subject p) \<and> pr_Subject p \<noteq> [] \<and> tokenScopes token (ScopeClaim cfg) = Inr (pr_Scopes p)"
proof -
  note cfg = auth_New_sound(1) [OF assms(1)]
  obtain raw token where t: "bearerToken authorization (MaxTokenBytes cfg) = Inr raw"
    "parse raw (FetchKeys lib source (vf_algorithms v)) (parse_options_of cfg) s = (s', Inr token)"
    "tok_Subject token = Some (pr_Subject p)" "pr_Subject p \<noteq> []" "tokenScopes token (ScopeClaim cfg) = Inr (pr_Scopes p)"
    using Verify_parses [OF assms(3)] cfg by metis
  obtain sig s1 s2 algorithm key where f: "sig \<in> signatures raw"
    "FetchKeys lib source (vf_algorithms v) sig s1 = (s2, Inr (algorithm, key))" "verifies algorithm key raw"
    using assms(2) t(2) unfolding parser_documented_def by blast
  have o: "tok_Issuer token = Some (Issuer cfg)" "Audience cfg \<in> set (tok_Audience token)" "tok_Expiration token \<noteq> None"
    "\<And>e. tok_Expiration token = Some e \<Longrightarrow> now \<le> e + ClockSkew cfg"
    using assms(2) [unfolded parser_documented_def, rule_format, OF t(2)] by (simp_all add: parse_options_of_def)
  then obtain e where e: "tok_Expiration token = Some e" "now \<le> e + ClockSkew cfg" by blast
  from bearerToken_sound [OF t(1)] obtain header scheme where b: "authorization = [header]" "Fields header = [scheme, raw]"
    "is_bearer scheme" "int (length raw) \<le> MaxTokenBytes cfg" by blast
  show ?thesis
    using b f(1,3) FetchKeys_trusted [OF f(2) assms(1)] o(1,2) e t(3-5) by blast
qed

text \<open>The shape of the scope claim: a blank-separated string, or a list of non-empty strings.\<close>

lemma scope_items_eq: "scope_items items scopes = (if \<forall>i\<in>set items. i \<noteq> None \<and> i \<noteq> Some [] then Inr (scopes |\<union>| fset_of_list (map the items)) else Inl (Error ''invalid JWT scope claim''))"
  by (induction items scopes rule: scope_items.induct) (auto split: option.splits)

section \<open>Key rotation\<close>

text \<open>(C33) While the issuer's endpoint gives the same answer, a request signed with an allowed algorithm gets the
  key of the cached set if that set is fresh and has the key, and otherwise the key of the set the endpoint
  serves: a key published after the cache was filled is found at once, and a key is unavailable only if it is not
  published or the endpoint fails. At most two calls of the source are made.\<close>

theorem key_rotation:
  assumes "sg_Algorithm sig = Some algorithm" "mget algorithms (jwa_String lib algorithm) = Some algorithm"
    "sg_KeyID sig = Some keyID" "keyID \<noteq> []" "\<And>i. ja_fetch (answers i) = fetched"
    "cached = (if cache_fresh (ja_now (answers n)) src then jwk_LookupKeyID lib (the (rk_set src)) keyID else None)"
  shows "\<exists>src' n'. FetchKeys lib (remote_Keys answers) algorithms sig (src, n) =
      ((src', n'), case cached of
         Some key \<Rightarrow> Inr (algorithm, key)
       | None \<Rightarrow> (case fetched of
           Inl _ \<Rightarrow> Inl (Error ''fetch JWT signing keys'')
         | Inr keys \<Rightarrow> (case jwk_LookupKeyID lib keys keyID of
             Some key \<Rightarrow> Inr (algorithm, key) | None \<Rightarrow> Inl (Error ''JWT signing key is unavailable'')))) \<and>
    n' \<le> n + 2 \<and> (cached \<noteq> None \<longrightarrow> src' = src) \<and>
    (\<forall>keys. cached = None \<and> fetched = Inr keys \<longrightarrow> rk_set src' = Some keys)"
proof (cases "cache_fresh (ja_now (answers n)) src")
  case True
  with assms show ?thesis
    by (auto simp: FetchKeys_def remote_Keys_def split: option.splits sum.splits)
next
  case False
  with assms show ?thesis
    by (auto simp: FetchKeys_def remote_Keys_def split: option.splits sum.splits)
qed

text \<open>A library with one key: its parser accepts the text \<open>t\<close>, signed with the key \<open>secret\<close>.\<close>

definition sample_jwt :: JWT where
  "sample_jwt = \<lparr>Issuer = ''i'', Audience = ''a'', JWKSURL = ''u'', Algorithms = [''RS256''], ScopeClaim = ''scope'', ClockSkew = 0,
     CacheTTL = 5, jwt_RequestTimeout = 1, MaxTokenBytes = 8\<rparr>"

definition sample_jwx :: "(string, string, string \<Rightarrow> string option) jwx" where
  "sample_jwx = \<lparr>jwa_LookupSignatureAlgorithm = (\<lambda>n. if n = ''RS256'' then Some n else None), jwa_String = (\<lambda>a. a),
     jwk_LookupKeyID = (\<lambda>m. m)\<rparr>"

definition sample_signature :: "string jws_signature" where
  "sample_signature = \<lparr>sg_Algorithm = Some ''RS256'', sg_KeyID = Some ''k''\<rparr>"

definition sample_token :: jwt_token where
  "sample_token = \<lparr>tok_Subject = Some ''alice'',
     tok_Get = (\<lambda>c. if c = ''scope'' then Some (ClaimString ''websubhub:ops:read'') else None), tok_Issuer = Some ''i'',
     tok_Audience = [''a''], tok_Expiration = Some 9\<rparr>"

definition sample_parse :: "(string, string, 's) jwt_parser" where
  "sample_parse raw fetch opts s =
     (case fetch sample_signature s of
        (s', Inr (algorithm, key)) \<Rightarrow>
          (s', if raw = ''t'' \<and> key = ''secret'' \<and> po_Issuer opts = ''i'' \<and> po_Audience opts = ''a'' \<and> 0 \<le> po_AcceptableSkew opts
               then Inr sample_token else Inl (Error ''bad token''))
      | (s', Inl err) \<Rightarrow> (s', Inl err))"

definition sample_source :: "(unit, string \<Rightarrow> string option) key_source" where
  "sample_source force s = (s, Inr [''k'' \<mapsto> ''secret''])"

abbreviation sample_verifies :: "string \<Rightarrow> string \<Rightarrow> string \<Rightarrow> bool" where
  "sample_verifies algorithm key raw \<equiv> raw = ''t'' \<and> key = ''secret''"

lemma sample_parse_documented: "parser_documented (\<lambda>_. {sample_signature}) sample_verifies 9 sample_parse"
  by (auto simp: parser_documented_def sample_parse_def sample_token_def split: prod.splits sum.splits if_splits)

lemma sample_bearer: "bearerToken [''bearer t''] 8 = Inr ''t''"
proof -
  have "Fields ''bearer t'' = [''bearer'', ''t'']" "is_bearer ''bearer''" by code_simp+
  then show ?thesis by (simp add: bearerToken_def)
qed

lemma sample_scopes: "tokenScopes sample_token ''scope'' = Inr {|ScopeOperationsRead|}"
proof -
  have "Fields ScopeOperationsRead = [ScopeOperationsRead]" by code_simp
  then show ?thesis by (simp add: tokenScopes_def sample_token_def)
qed

definition sample_verifier :: "string Verifier" where
  "sample_verifier = \<lparr>vf_cfg = sample_jwt, vf_algorithms = mput (Some fmempty) ''RS256'' ''RS256''\<rparr>"

lemma sample_auth:
  "auth_New sample_jwx sample_jwt True = Inr sample_verifier"
  "Verify sample_jwx sample_parse sample_source sample_verifier [''bearer t''] () =
     ((), Inr \<lparr>pr_Subject = ''alice'', pr_Scopes = {|ScopeOperationsRead|}\<rparr>)"
proof -
  have cfg: "MaxTokenBytes sample_jwt = 8" "ScopeClaim sample_jwt = ''scope''" "Algorithms sample_jwt = [''RS256'']"
    "parse_options_of sample_jwt = \<lparr>po_Issuer = ''i'', po_Audience = ''a'', po_AcceptableSkew = 0, po_RequiredClaims = [''exp'', ''sub'']\<rparr>"
    by (simp_all add: sample_jwt_def parse_options_of_def)
  show "auth_New sample_jwx sample_jwt True = Inr sample_verifier"
    by (simp add: auth_New_def cfg sample_jwx_def sample_verifier_def)
  have "FetchKeys sample_jwx sample_source (vf_algorithms sample_verifier) sample_signature () = ((), Inr (''RS256'', ''secret''))"
    by (simp add: FetchKeys_def sample_jwx_def sample_source_def sample_verifier_def sample_signature_def)
  moreover have "tok_Subject sample_token = Some ''alice''" by (simp add: sample_token_def)
  moreover have "vf_cfg sample_verifier = sample_jwt" by (simp add: sample_verifier_def)
  ultimately show "Verify sample_jwx sample_parse sample_source sample_verifier [''bearer t''] () =
     ((), Inr \<lparr>pr_Subject = ''alice'', pr_Scopes = {|ScopeOperationsRead|}\<rparr>)"
    by (simp add: Verify_def cfg sample_bearer sample_scopes sample_parse_def)
qed

theorem Verify_authentic_witness:
  "(\<exists>p. Verify sample_jwx sample_parse sample_source sample_verifier [''bearer t''] () = ((), Inr p) \<and> pr_Subject p = ''alice'') \<and>
   (\<exists>algorithm. trusted_key sample_jwx sample_source sample_jwt sample_signature algorithm ''secret'')"
  using Verify_authentic [OF sample_auth(1) sample_parse_documented sample_auth(2)] sample_auth(2) by auto

theorem key_rotation_witness:
  "\<exists>src'. FetchKeys sample_jwx (remote_Keys (\<lambda>_. \<lparr>ja_now = 3, ja_fetch = Inr [''k'' \<mapsto> ''new''], ja_after = 4\<rparr>)) (Some (fmupd ''RS256'' ''RS256'' fmempty))
     sample_signature (\<lparr>rk_url = ''u'', rk_ttl = 5, rk_set = Some [''o'' \<mapsto> ''old''], rk_fetchedAt = 1\<rparr>, 0) =
       (src', Inr (''RS256'', ''new''))"
  using key_rotation [of sample_signature "''RS256''" "Some (fmupd ''RS256'' ''RS256'' fmempty)" sample_jwx "''k''"
      "\<lambda>_. \<lparr>ja_now = 3, ja_fetch = Inr [''k'' \<mapsto> ''new''], ja_after = 4\<rparr>" "Inr [''k'' \<mapsto> ''new'']" None 0
      "\<lparr>rk_url = ''u'', rk_ttl = 5, rk_set = Some [''o'' \<mapsto> ''old''], rk_fetchedAt = 1\<rparr>"]
  by (auto simp: sample_signature_def sample_jwx_def mget_def cache_fresh_def)

end
