(* ===== verification/Resource_Hub.thy ===== *)
theory Resource_Hub
  imports Reducer Layout Ingest Auth
begin

text \<open>
  The protocol adapter (\<open>internal/app/resourcehub/handler.go\<close>): what the hub does with the requests
  that the library lib-websubhub has parsed and, for subscriptions, verified with the subscriber. Its
  dependencies answer through the record \<open>hub_env\<close>; a handler's result is the state event it
  appended, if any, and the answer to the library. A result's status code is 0 where the code leaves
  it unset.
\<close>

section \<open>Dependencies and requests\<close>

text \<open>\<open>he_order\<close> is the order in which Go visits the subscriptions of the snapshot.\<close>

record hub_env =
  he_serverID :: string
  he_authorize :: "string \<Rightarrow> string result"
  he_callback :: "string \<Rightarrow> goerr option"
  he_snapshot :: Snapshot
  he_order :: "string list"
  he_seal :: "string \<Rightarrow> (string \<times> string) result"
  he_content :: "(ContentUpdate \<Rightarrow> goerr option) option"
  he_validate :: "Destination \<Rightarrow> SubscriptionOptions \<Rightarrow> goerr option"
  he_now :: gtime
  he_event_id :: "string result"
  he_append :: "event \<Rightarrow> goerr option"

record websub_subscription =
  ws_Topic :: string
  ws_Callback :: string
  ws_Parameters :: parameters

record websub_verified = websub_subscription +
  ws_Secret :: string
  ws_LeaseStartedAt :: gtime
  ws_EffectiveLeaseSeconds :: string

type_synonym answer = "event option \<times> int result"

definition denied :: "string \<Rightarrow> answer" where
  "denied reason = (None, Inl (DeniedError reason))"

definition conflict :: answer where
  "conflict = (None, Inr 409)"

section \<open>Construction\<close>

text \<open>What the hub tells the protocol library; \<open>NewHandler\<close> is the library's constructor and \<open>given\<close> says that
  no required dependency is nil.\<close>

record websub_config =
  wc_HubURL :: string
  wc_DefaultLease :: duration
  wc_MaxLease :: duration
  wc_MaxRequestBody :: int
  wc_MaxCallbackBody :: int
  wc_VerificationTimeout :: duration
  wc_VerificationWorkers :: int
  wc_VerificationQueue :: int
  wc_EnablePublisherExtension :: bool
  wc_EnableHubErrorCallback :: bool

definition websub_config_of :: "HubConfig \<Rightarrow> websub_config" where
  "websub_config_of cfg = (let p = Protocol cfg in
     \<lparr>wc_HubURL = PublicURL (hub_Server cfg), wc_DefaultLease = DefaultLease p, wc_MaxLease = MaxLease p,
      wc_MaxRequestBody = MaxRequestBody p, wc_MaxCallbackBody = MaxCallbackBody p,
      wc_VerificationTimeout = VerificationTimeout p, wc_VerificationWorkers = VerificationWorkers p,
      wc_VerificationQueue = VerificationQueue p, wc_EnablePublisherExtension = PublisherExtensionEnabled p,
      wc_EnableHubErrorCallback = HubErrorCallbackEnabled p\<rparr>)"

definition randomEventID :: "string result \<Rightarrow> string result" where
  "randomEventID rnd = (case rnd of Inl e \<Rightarrow> Inl e | Inr bytes \<Rightarrow> Inr (''event-'' @ hex_EncodeToString bytes))"

definition handler_New :: "bool \<Rightarrow> HubConfig \<Rightarrow> (websub_config \<Rightarrow> 'h result) \<Rightarrow> 'h result" where
  "handler_New given cfg NewHandler =
     (if \<not> given then Inl (Error ''state events, projection, secret sealer, callback policy, authorization, subscription validator, and verification HTTP client are required'')
      else if srv_ID (hub_Server cfg) = [] then Inl (Error ''server ID is required'')
      else NewHandler (websub_config_of cfg))"

section \<open>Helpers\<close>

definition adapter_authorize :: "hub_env \<Rightarrow> string \<Rightarrow> string result" where
  "adapter_authorize env scope =
     (case he_authorize env scope of
        Inl _ \<Rightarrow> Inl (DeniedError ''operation is not authorized'')
      | Inr actor \<Rightarrow> if actor = [] then Inl (DeniedError ''operation is not authorized'') else Inr actor)"

definition adapter_metadata :: "hub_env \<Rightarrow> string \<Rightarrow> string \<Rightarrow> EventMetadata result" where
  "adapter_metadata env actorType actorID =
     (case he_event_id env of
        Inl _ \<Rightarrow> Inl (Error ''generate state event ID'')
      | Inr k \<Rightarrow>
          let now = time_UTC (he_now env) in
          if time_IsZero now then Inl (Error ''state event time is required'')
          else Inr \<lparr>meta_SchemaVersion = SchemaVersion, EventID = k, OccurredAt = now,
                 meta_Actor = \<lparr>actor_Type = actorType, actor_ID = actorID\<rparr>\<rparr>)"

definition topicIsActive :: "Snapshot \<Rightarrow> string \<Rightarrow> bool" where
  "topicIsActive s url =
     (case TopicID url of
        Inl _ \<Rightarrow> False
      | Inr k \<Rightarrow>
          (case mget (Topics s) k of
             None \<Rightarrow> False
           | Some topic \<Rightarrow> topic_Status topic = TopicActive \<and> CanonicalURL topic = url))"

definition newer_match :: "string \<Rightarrow> string \<Rightarrow> Subscription \<Rightarrow> Subscription \<Rightarrow> Subscription" where
  "newer_match url callback sub current =
     (if sub_Status sub \<noteq> SubscriptionRemoved \<and> TopicURL sub = url \<and> CallbackURL sub = callback \<and>
         (time_IsZero (LeaseStartedAt current) \<or> time_After (LeaseStartedAt sub) (LeaseStartedAt current))
      then sub else current)"

definition currentSubscription :: "string list \<Rightarrow> Snapshot \<Rightarrow> string \<Rightarrow> string \<Rightarrow> Subscription \<times> bool" where
  "currentSubscription ord s url callback =
     (let current = fold (\<lambda>k. newer_match url callback (the (mget (Subscriptions s) k))) ord zero_Subscription
      in (current, \<not> time_IsZero (LeaseStartedAt current)))"

text \<open>Appending an event, and passing on an error.\<close>

definition append_answer :: "hub_env \<Rightarrow> event \<Rightarrow> answer" where
  "append_answer env e = (Some e, case he_append env e of None \<Rightarrow> Inr 0 | Some err \<Rightarrow> Inl err)"

definition attempt :: "'a result \<Rightarrow> ('a \<Rightarrow> answer) \<Rightarrow> answer" where
  "attempt r f = (case r of Inl e \<Rightarrow> (None, Inl e) | Inr x \<Rightarrow> f x)"

section \<open>Handlers\<close>

definition registerTopic :: "hub_env \<Rightarrow> string \<Rightarrow> string \<Rightarrow> answer" where
  "registerTopic env url requestedType =
     attempt (adapter_authorize env ScopeTopicRegister) (\<lambda>actorID.
     attempt (TopicID url) (\<lambda>topicID.
     case NormalizeTopicContentType requestedType of
       Inl _ \<Rightarrow> denied ''topic content type is invalid''
     | Inr contentType \<Rightarrow>
         let existing = mget (Topics (he_snapshot env)) topicID in
         if (\<exists>topic\<in>set_option existing. topic_ContentType topic \<noteq> contentType)
         then denied ''topic content type does not match retained contract''
         else if (\<exists>topic\<in>set_option existing. topic_Status topic = TopicActive) then conflict
         else
           attempt (adapter_metadata env ''publisher'' actorID) (\<lambda>meta.
           attempt (ContentDestination_of url) (\<lambda>contentDestination.
             append_answer env (TopicRegistered meta
               (zero_Topic\<lparr>topic_ID := topicID, CanonicalURL := url, ContentDestination := contentDestination,
                  topic_ContentType := contentType, RegisteredAt := OccurredAt meta\<rparr>))))))"

definition deregisterTopic :: "hub_env \<Rightarrow> string \<Rightarrow> answer" where
  "deregisterTopic env url =
     attempt (adapter_authorize env ScopeTopicDeregister) (\<lambda>actorID.
     attempt (TopicID url) (\<lambda>topicID.
       if \<not> (\<exists>topic\<in>set_option (mget (Topics (he_snapshot env)) topicID). topic_Status topic = TopicActive) then conflict
       else
         attempt (adapter_metadata env ''publisher'' actorID) (\<lambda>meta.
           append_answer env (TopicDeregistered meta topicID))))"

text \<open>\<open>content\<close> says whether the message carries content (\<open>websubhub.UpdateContent\<close>).\<close>

definition updateMessage :: "hub_env \<Rightarrow> bool \<Rightarrow> string \<Rightarrow> string \<Rightarrow> string \<Rightarrow> answer" where
  "updateMessage env content url contentType body =
     attempt (adapter_authorize env ScopeContentPublish) (\<lambda>_.
       case he_content env of
         None \<Rightarrow> denied ''content ingestion is unavailable''
       | Some persist \<Rightarrow>
           (case persist \<lparr>cu_Kind = (if content then ContentUpdateExact else ContentUpdateEvent), cu_Topic = url,
                   cu_ContentType = contentType, cu_Body = body\<rparr> of
              None \<Rightarrow> (None, Inr 0)
            | Some err \<Rightarrow>
                if errors_is err ErrContentTypeMismatch then denied ''publication content type does not match topic''
                else (None, Inl err)))"

definition admitSubscription :: "hub_env \<Rightarrow> websub_subscription \<Rightarrow> answer" where
  "admitSubscription env sub =
     attempt (adapter_authorize env ScopeSubscriptionCreate) (\<lambda>_.
       if he_callback env (ws_Callback sub) \<noteq> None then denied ''callback destination is not allowed''
       else if \<not> topicIsActive (he_snapshot env) (ws_Topic sub) then conflict
       else if snd (currentSubscription (he_order env) (he_snapshot env) (ws_Topic sub) (ws_Callback sub)) then conflict
       else (None, Inr 0))"

definition validateSubscription :: "hub_env \<Rightarrow> websub_subscription \<Rightarrow> goerr option" where
  "validateSubscription env sub =
     (if he_callback env (ws_Callback sub) \<noteq> None then Some (DeniedError ''callback destination is not allowed'')
      else case TopicID (ws_Topic sub) of
          Inl _ \<Rightarrow> Some (DeniedError ''topic is not registered'')
        | Inr topicID \<Rightarrow>
            (case mget (Topics (he_snapshot env)) topicID of
               None \<Rightarrow> Some (DeniedError ''topic is not registered'')
             | Some topic \<Rightarrow>
                 if topic_Status topic \<noteq> TopicActive \<or> CanonicalURL topic \<noteq> ws_Topic sub
                 then Some (DeniedError ''topic is not registered'')
                 else if snd (currentSubscription (he_order env) (he_snapshot env) (ws_Topic sub) (ws_Callback sub))
                 then Some (DeniedError ''subscription already exists'')
                 else let err = (case NewSubscriptionOptions (ws_Parameters sub) of
                          Inl e \<Rightarrow> Some e
                        | Inr options \<Rightarrow> he_validate env (ContentDestination topic) options) in
                   (case PermanentSubscriptionReason err of
                      (reason, True) \<Rightarrow> Some (DeniedError reason)
                    | _ \<Rightarrow> err)))"

definition protect_secret :: "hub_env \<Rightarrow> string \<Rightarrow> (string \<times> string) result" where
  "protect_secret env secret =
     (if secret = [] then Inr ([], [])
      else case he_seal env secret of
          Inl _ \<Rightarrow> Inl (Error ''seal subscription secret'')
        | Inr (ciphertext, keyID) \<Rightarrow>
            if ciphertext = [] \<or> keyID = [] then Inl (Error ''secret sealer returned incomplete protected material'')
            else Inr (ciphertext, keyID))"

definition subscriptionVerified :: "hub_env \<Rightarrow> websub_verified \<Rightarrow> answer" where
  "subscriptionVerified env verified =
     attempt (adapter_authorize env ScopeSubscriptionCreate) (\<lambda>actorID.
     attempt (TopicID (ws_Topic verified)) (\<lambda>topicID.
     attempt (SubscriptionID (ws_Topic verified) (ws_Callback verified) (ws_LeaseStartedAt verified)) (\<lambda>subscriptionID.
     attempt (SubscriptionConsumerID (ws_Topic verified) (ws_Callback verified) (ws_LeaseStartedAt verified)) (\<lambda>consumerID.
     attempt (protect_secret env (ws_Secret verified)) (\<lambda>(ciphertext, keyID).
     case NewSubscriptionOptions (ws_Parameters verified) of
       Inl _ \<Rightarrow> (None, Inl (Error ''validated subscription options are invalid''))
     | Inr options \<Rightarrow>
         attempt (adapter_metadata env ''subscriber'' actorID) (\<lambda>meta.
           append_answer env (SubscriptionVerified meta
             (zero_Subscription\<lparr>sub_ID := subscriptionID, sub_TopicID := topicID, TopicURL := ws_Topic verified,
                CallbackURL := ws_Callback verified, SecretCiphertext := ciphertext, SecretKeyID := keyID,
                LeaseStartedAt := time_UTC (ws_LeaseStartedAt verified),
                EffectiveLeaseSeconds := ws_EffectiveLeaseSeconds verified, sub_ServerID := he_serverID env,
                sub_ConsumerID := consumerID, Parameters := opt_Parameters options\<rparr>))))))))"

definition admitUnsubscription :: "hub_env \<Rightarrow> string \<Rightarrow> string \<Rightarrow> answer" where
  "admitUnsubscription env url callback =
     attempt (adapter_authorize env ScopeSubscriptionDelete) (\<lambda>_.
       if he_callback env callback \<noteq> None then denied ''callback destination is not allowed''
       else if \<not> snd (currentSubscription (he_order env) (he_snapshot env) url callback) then conflict
       else (None, Inr 0))"

definition validateUnsubscription :: "hub_env \<Rightarrow> string \<Rightarrow> string \<Rightarrow> goerr option" where
  "validateUnsubscription env url callback =
     (if he_callback env callback \<noteq> None then Some (DeniedError ''callback destination is not allowed'')
      else if \<not> snd (currentSubscription (he_order env) (he_snapshot env) url callback)
      then Some (DeniedError ''subscription does not exist'')
      else None)"

definition unsubscriptionVerified :: "hub_env \<Rightarrow> string \<Rightarrow> string \<Rightarrow> answer" where
  "unsubscriptionVerified env url callback =
     attempt (adapter_authorize env ScopeSubscriptionDelete) (\<lambda>actorID.
       case currentSubscription (he_order env) (he_snapshot env) url callback of
         (sub, ok) \<Rightarrow>
           if \<not> ok then denied ''subscription does not exist''
           else
             attempt (adapter_metadata env ''subscriber'' actorID) (\<lambda>meta.
               append_answer env (SubscriptionUnsubscribed meta (sub_ID sub))))"

section \<open>The current subscription\<close>

definition target :: "string \<Rightarrow> string \<Rightarrow> Subscription \<Rightarrow> bool" where
  "target url callback b \<longleftrightarrow> live b \<and> TopicURL b = url \<and> CallbackURL b = callback"

definition leases_started :: "Snapshot \<Rightarrow> bool" where
  "leases_started s \<longleftrightarrow> (\<forall>k b. mget (Subscriptions s) k = Some b \<longrightarrow> \<not> time_IsZero (LeaseStartedAt b))"

text \<open>The states the handlers can meet: \<open>hub_state\<close> holds of every state the reducer makes from the empty
  one.\<close>

definition hub_state :: "Snapshot \<Rightarrow> bool" where
  "hub_state s \<longleftrightarrow> hub_invariant s \<and> leases_started s"

lemma subscription_step_lease:
  "subscription_step s r old b \<Longrightarrow> (\<And>b. old = Some b \<Longrightarrow> \<not> time_IsZero (LeaseStartedAt b)) \<Longrightarrow> \<not> time_IsZero (LeaseStartedAt b)"
  by (erule subscription_stepE) simp_all

lemma transition_leases_started: 
  assumes "transition s s'" "leases_started s"
  shows "leases_started s'"
  using assms(1)
proof (cases rule: transition.cases)
  case (subscription_transition b)
  have b: "\<not> time_IsZero (LeaseStartedAt b)"
    using subscription_transition(2) by (rule subscription_step_lease) (use assms(2) in \<open>simp add: leases_started_def\<close>)
  show ?thesis unfolding leases_started_def
  proof (intro allI impI)
    fix k c assume "mget (Subscriptions s') k = Some c"
    then show "\<not> time_IsZero (LeaseStartedAt c)"
      using b assms(2) by (cases "k = sub_ID b") (simp_all add: subscription_transition(1) leases_started_def)
  qed
qed (use assms(2) in \<open>simp add: leases_started_def\<close>)

interpretation hub_states: event_reducer reducer_step hub_state persists revision_count max_revision
proof
  show "hub_state s' \<and> persists s s' \<and> revision_count s' = Suc (revision_count s)"
    if "hub_state s" "revision_count s < max_revision" "reducer_step s e = Inr (s', True)" for s e s'
    using that hub_reducer.changed [of s e s'] Reducer_Apply_transition [of s e s'] transition_leases_started [of s s']
    unfolding hub_state_def reducer_step_def by blast
qed (auto simp: hub_state_def intro: hub_reducer.unchanged hub_reducer.again persists_refl persists_trans)

lemma reachable_hub_state:
  "fold_events reducer_step EmptySnapshot es = Inr s \<Longrightarrow> length es < 2 ^ 64 \<Longrightarrow> hub_state s"
  using hub_states.fold_keeps [of EmptySnapshot es s] EmptySnapshot_invariant
  by (simp add: hub_state_def leases_started_def EmptySnapshot_def mget_Some max_revision_def)

lemma newer_match_skip: "\<not> target url callback b \<Longrightarrow> newer_match url callback b current = current"
  by (auto simp: newer_match_def target_def live_def)

lemma newer_match_take:
  "target url callback b \<Longrightarrow> time_IsZero (LeaseStartedAt current) \<Longrightarrow> newer_match url callback b current = b"
  by (auto simp: newer_match_def target_def live_def)

lemma fold_newer_match_none:
  "(\<And>k. k \<in> set ks \<Longrightarrow> \<not> target url callback (f k)) \<Longrightarrow> fold (\<lambda>k. newer_match url callback (f k)) ks cur = cur"
proof (induction ks)
  case (Cons k ks)
  have "newer_match url callback (f k) cur = cur" by (intro newer_match_skip Cons.prems) simp
  moreover have "fold (\<lambda>k. newer_match url callback (f k)) ks cur = cur" by (intro Cons.IH Cons.prems) simp
  ultimately show ?case by simp
qed simp

lemma fold_newer_match_one:
  assumes "k \<in> set ks" "distinct ks" "target url callback (f k)" "time_IsZero (LeaseStartedAt cur)"
    "\<And>j. j \<in> set ks \<Longrightarrow> target url callback (f j) \<Longrightarrow> j = k"
  shows "fold (\<lambda>k. newer_match url callback (f k)) ks cur = f k"
proof -
  obtain xs ys where ks: "ks = xs @ k # ys" using assms(1) by (meson split_list)
  have other: "\<not> target url callback (f j)" if "j \<in> set xs \<union> set ys" for j
    using assms(2) assms(5) [of j] that ks by auto
  have "fold (\<lambda>k. newer_match url callback (f k)) xs cur = cur" "fold (\<lambda>k. newer_match url callback (f k)) ys (f k) = f k"
    by (rule fold_newer_match_none, rule other, simp)+
  then show ?thesis using ks newer_match_take [OF assms(3,4)] by simp
qed

lemma currentSubscription_eq:
  assumes "unique_live s" "leases_started s" "range_order (Subscriptions s) ord"
  shows "mget (Subscriptions s) k = Some b \<Longrightarrow> target url callback b \<Longrightarrow> currentSubscription ord s url callback = (b, True)"
    "\<nexists>k b. mget (Subscriptions s) k = Some b \<and> target url callback b \<Longrightarrow>
       currentSubscription ord s url callback = (zero_Subscription, False)"
proof -
  let ?f = "\<lambda>k. the (mget (Subscriptions s) k)"
  have dom: "k \<in> set ord \<longleftrightarrow> mget (Subscriptions s) k \<noteq> None" for k using range_order_mget [OF assms(3)] .
  have zero: "time_IsZero (LeaseStartedAt zero_Subscription)"
    by (simp add: zero_Subscription_def zero_time_def time_IsZero_def)
  { assume b: "mget (Subscriptions s) k = Some b" "target url callback b"
    have "fold (\<lambda>k. newer_match url callback (?f k)) ord zero_Subscription = ?f k"
    proof (rule fold_newer_match_one)
      show "j = k" if "j \<in> set ord" "target url callback (?f j)" for j
        using that b assms(1) dom [of j] unfolding unique_live_def target_def same_target_def by (metis option.exhaust_sel)
    qed (use b dom [of k] assms(3) zero in \<open>simp_all add: range_order_def\<close>)
    then show "currentSubscription ord s url callback = (b, True)"
      using b(1) assms(2) by (simp add: currentSubscription_def leases_started_def) }
  { assume none: "\<nexists>k b. mget (Subscriptions s) k = Some b \<and> target url callback b"
    have "fold (\<lambda>k. newer_match url callback (?f k)) ord zero_Subscription = zero_Subscription"
      by (rule fold_newer_match_none) (use none dom in fastforce)
    then show "currentSubscription ord s url callback = (zero_Subscription, False)"
      using zero by (simp add: currentSubscription_def) }
qed

text \<open>In a state that satisfies the invariant, the search for the current subscription of a topic and callback
  finds the one live subscription there is, and nothing if there is none, in whatever order Go visits
  the map.\<close>

theorem currentSubscription_unique:
  assumes "hub_state s" "range_order (Subscriptions s) ord"
  shows "currentSubscription ord s url callback = (b, True) \<longleftrightarrow>
           (\<exists>k. mget (Subscriptions s) k = Some b \<and> live b \<and> TopicURL b = url \<and> CallbackURL b = callback)"
proof -
  have u: "unique_live s" "leases_started s" using assms(1) by (simp_all add: hub_state_def hub_invariant_def)
  show ?thesis
    using currentSubscription_eq(1) [OF u assms(2), of _ b url callback]
      currentSubscription_eq(1) [OF u assms(2), of _ _ url callback]
      currentSubscription_eq(2) [OF u assms(2), of url callback] unfolding target_def
    by (metis prod.inject)
qed

lemma sample_verified_state: "hub_state sample_verified" "range_order (Subscriptions sample_verified) [''s'']"
proof -
  have "leases_started sample_verified"
    by (auto simp: leases_started_def sample_verified_def sample_subscription_def mget_Some time_IsZero_def split: if_splits)
  then show "hub_state sample_verified" by (simp add: hub_state_def sample_invariant)
qed (simp add: range_order_def entries_def sample_verified_def)

theorem currentSubscription_unique_witness:
  "currentSubscription [''s''] sample_verified ''https://hub/t'' ''https://cb'' = (sample_subscription, True)"
  using currentSubscription_unique [OF sample_verified_state, of "''https://hub/t''" "''https://cb''" sample_subscription]
  by (simp add: sample_verified_def sample_subscription_def mget_Some live_def)

section \<open>Requests that change the state\<close>

datatype hub_request =
    RegisterTopicRequest string string
  | DeregisterTopicRequest string
  | SubscriptionVerifiedRequest websub_verified
  | UnsubscriptionVerifiedRequest string string

fun handle :: "hub_env \<Rightarrow> hub_request \<Rightarrow> answer" where
  "handle env (RegisterTopicRequest url contentType) = registerTopic env url contentType"
| "handle env (DeregisterTopicRequest url) = deregisterTopic env url"
| "handle env (SubscriptionVerifiedRequest v) = subscriptionVerified env v"
| "handle env (UnsubscriptionVerifiedRequest url callback) = unsubscriptionVerified env url callback"

fun scope_of :: "hub_request \<Rightarrow> string" where
  "scope_of (RegisterTopicRequest _ _) = ScopeTopicRegister"
| "scope_of (DeregisterTopicRequest _) = ScopeTopicDeregister"
| "scope_of (SubscriptionVerifiedRequest _) = ScopeSubscriptionCreate"
| "scope_of (UnsubscriptionVerifiedRequest _ _) = ScopeSubscriptionDelete"

lemma attempt_Some: "attempt r f = (Some e, res) \<longleftrightarrow> (\<exists>x. r = Inr x \<and> f x = (Some e, res))"
  by (cases r) (auto simp: attempt_def)

lemma append_answer_Some: "append_answer env e' = (Some e, res) \<longleftrightarrow> e' = e \<and> res = snd (append_answer env e)"
  by (auto simp: append_answer_def)

lemma authorize_Inr: "adapter_authorize env scope = Inr a \<longleftrightarrow> he_authorize env scope = Inr a \<and> a \<noteq> []"
  by (auto simp: adapter_authorize_def split: sum.splits)

lemma metadata_Inr:
  "adapter_metadata env ty a = Inr meta \<longleftrightarrow>
     (\<exists>k. he_event_id env = Inr k \<and> \<not> time_IsZero (he_now env) \<and>
        meta = \<lparr>meta_SchemaVersion = SchemaVersion, EventID = k, OccurredAt = time_UTC (he_now env),
                meta_Actor = \<lparr>actor_Type = ty, actor_ID = a\<rparr>\<rparr>)"
  by (auto simp: adapter_metadata_def Let_def split: sum.splits)

lemma metadata_time: "adapter_metadata env ty a = Inr meta \<Longrightarrow> \<not> time_IsZero (OccurredAt meta)"
  by (auto simp: metadata_Inr)

lemma if_Some:
  "(if b then denied reason else r) = (Some e, res) \<longleftrightarrow> \<not> b \<and> r = (Some e, res)"
  "(if b then conflict else r) = (Some e, res) \<longleftrightarrow> \<not> b \<and> r = (Some e, res)"
  by (auto simp: denied_def conflict_def)

lemma registerTopic_Some:
  "registerTopic env url requestedType = (Some e, res) \<longleftrightarrow>
     (\<exists>actor topicID contentType meta destination.
        adapter_authorize env ScopeTopicRegister = Inr actor \<and> TopicID url = Inr topicID \<and>
        NormalizeTopicContentType requestedType = Inr contentType \<and>
        (\<forall>topic. mget (Topics (he_snapshot env)) topicID = Some topic \<longrightarrow>
           topic_ContentType topic = contentType \<and> topic_Status topic \<noteq> TopicActive) \<and>
        adapter_metadata env ''publisher'' actor = Inr meta \<and> ContentDestination_of url = Inr destination \<and>
        append_answer env (TopicRegistered meta
          (zero_Topic\<lparr>topic_ID := topicID, CanonicalURL := url, ContentDestination := destination,
             topic_ContentType := contentType, RegisteredAt := OccurredAt meta\<rparr>)) = (Some e, res))"
  by (cases "NormalizeTopicContentType requestedType")
    (auto simp: registerTopic_def attempt_Some if_Some Let_def denied_def)

lemma deregisterTopic_Some:
  "deregisterTopic env url = (Some e, res) \<longleftrightarrow>
     (\<exists>actor topicID topic meta.
        adapter_authorize env ScopeTopicDeregister = Inr actor \<and> TopicID url = Inr topicID \<and>
        mget (Topics (he_snapshot env)) topicID = Some topic \<and> topic_Status topic = TopicActive \<and>
        adapter_metadata env ''publisher'' actor = Inr meta \<and>
        append_answer env (TopicDeregistered meta topicID) = (Some e, res))"
  unfolding deregisterTopic_def attempt_Some if_Some by auto

lemma subscriptionVerified_Some:
  "subscriptionVerified env v = (Some e, res) \<longleftrightarrow>
     (\<exists>actor topicID subscriptionID consumerID ciphertext keyID options meta.
        adapter_authorize env ScopeSubscriptionCreate = Inr actor \<and> TopicID (ws_Topic v) = Inr topicID \<and>
        SubscriptionID (ws_Topic v) (ws_Callback v) (ws_LeaseStartedAt v) = Inr subscriptionID \<and>
        SubscriptionConsumerID (ws_Topic v) (ws_Callback v) (ws_LeaseStartedAt v) = Inr consumerID \<and>
        protect_secret env (ws_Secret v) = Inr (ciphertext, keyID) \<and>
        NewSubscriptionOptions (ws_Parameters v) = Inr options \<and>
        adapter_metadata env ''subscriber'' actor = Inr meta \<and>
        append_answer env (SubscriptionVerified meta
          (zero_Subscription\<lparr>sub_ID := subscriptionID, sub_TopicID := topicID, TopicURL := ws_Topic v,
             CallbackURL := ws_Callback v, SecretCiphertext := ciphertext, SecretKeyID := keyID,
             LeaseStartedAt := time_UTC (ws_LeaseStartedAt v),
             EffectiveLeaseSeconds := ws_EffectiveLeaseSeconds v, sub_ServerID := he_serverID env,
             sub_ConsumerID := consumerID, Parameters := opt_Parameters options\<rparr>)) = (Some e, res))"
  by (cases "NewSubscriptionOptions (ws_Parameters v)") (auto simp: subscriptionVerified_def attempt_Some)

lemma unsubscriptionVerified_Some:
  "unsubscriptionVerified env url callback = (Some e, res) \<longleftrightarrow>
     (\<exists>actor sub meta.
        adapter_authorize env ScopeSubscriptionDelete = Inr actor \<and>
        currentSubscription (he_order env) (he_snapshot env) url callback = (sub, True) \<and>
        adapter_metadata env ''subscriber'' actor = Inr meta \<and>
        append_answer env (SubscriptionUnsubscribed meta (sub_ID sub)) = (Some e, res))"
  unfolding unsubscriptionVerified_def attempt_Some if_Some
  by (cases "currentSubscription (he_order env) (he_snapshot env) url callback") (simp add: attempt_Some if_Some)

lemmas handler_Some = registerTopic_Some deregisterTopic_Some subscriptionVerified_Some unsubscriptionVerified_Some

text \<open>(C11) No state event is appended unless the authorisation granted the scope of the operation to a named
  actor, and the event carries that actor and a time that is set.\<close>

theorem events_are_authorized:
  assumes "handle env req = (Some e, res)"
  shows "\<exists>actor. he_authorize env (scope_of req) = Inr actor \<and> actor \<noteq> [] \<and>
           actor_ID (meta_Actor (event_Metadata e)) = actor \<and> \<not> time_IsZero (OccurredAt (event_Metadata e))"
  using assms
  by (cases req) (auto simp: handler_Some append_answer_Some authorize_Inr metadata_Inr)

text \<open>A hub whose authorisation grants everything to one actor.\<close>

definition sample_hub_env :: hub_env where
  "sample_hub_env = \<lparr>he_serverID = ''h'', he_authorize = (\<lambda>_. Inr ''alice''), he_callback = (\<lambda>_. None),
     he_snapshot = sample_verified, he_order = [''s''], he_seal = (\<lambda>v. Inr (v, ''k'')), he_content = None,
     he_validate = (\<lambda>_ _. None), he_now = \<lparr>tm_ns = 7, tm_loc = UTC\<rparr>, he_event_id = Inr ''event-1'',
     he_append = (\<lambda>_. None)\<rparr>"

definition sample_removal :: event where
  "sample_removal = SubscriptionUnsubscribed \<lparr>meta_SchemaVersion = SchemaVersion, EventID = ''event-1'',
     OccurredAt = \<lparr>tm_ns = 7, tm_loc = UTC\<rparr>, meta_Actor = \<lparr>actor_Type = ''subscriber'', actor_ID = ''alice''\<rparr>\<rparr> ''s''"

lemma sample_unsubscription:
  "handle sample_hub_env (UnsubscriptionVerifiedRequest ''https://hub/t'' ''https://cb'') = (Some sample_removal, Inr 0)"
  by (simp add: sample_hub_env_def sample_removal_def unsubscriptionVerified_def attempt_def adapter_authorize_def
      currentSubscription_def newer_match_def adapter_metadata_def append_answer_def sample_verified_def
      sample_subscription_def mget_Some zero_Subscription_def zero_time_def time_IsZero_def time_UTC_def)

theorem events_are_authorized_witness:
  "actor_ID (meta_Actor (event_Metadata sample_removal)) = ''alice''"
  using events_are_authorized [OF sample_unsubscription] by (simp add: sample_hub_env_def)

section \<open>Handlers and the reducer\<close>

text \<open>What an appended event needs beyond the checks of its handler: a topic identifier that is not shared by
  two URLs, and for a subscription that the checks made before its verification still hold.\<close>

fun consistent :: "hub_env \<Rightarrow> hub_request \<Rightarrow> bool" where
  "consistent env (RegisterTopicRequest url _) =
     (\<forall>k topic. TopicID url = Inr k \<longrightarrow> mget (Topics (he_snapshot env)) k = Some topic \<longrightarrow> CanonicalURL topic = url)"
| "consistent env (SubscriptionVerifiedRequest v) =
     (he_serverID env \<noteq> [] \<and> validateSubscription env (websub_subscription.truncate v) = None \<and>
      (\<forall>k. SubscriptionID (ws_Topic v) (ws_Callback v) (ws_LeaseStartedAt v) = Inr k \<longrightarrow>
           mget (Subscriptions (he_snapshot env)) k = None))"
| "consistent env _ = True"

lemma options_again: "NewSubscriptionOptions ps = Inr opts \<Longrightarrow> \<exists>o'. NewSubscriptionOptions (opt_Parameters opts) = Inr o'"
  by (auto simp: NewSubscriptionOptions_Inr options_copy_def options_bounded_def entries_def mget_def range_all_iff mlen_def
      split: if_splits option.splits)

lemma validateSubscription_None:
  assumes "validateSubscription env sub = None"
  obtains k topic where "TopicID (ws_Topic sub) = Inr k" "mget (Topics (he_snapshot env)) k = Some topic"
    "topic_Status topic = TopicActive" "CanonicalURL topic = ws_Topic sub"
    "\<not> snd (currentSubscription (he_order env) (he_snapshot env) (ws_Topic sub) (ws_Callback sub))"
  using assms by (auto simp: validateSubscription_def split: if_splits sum.splits option.splits)

lemma identifiers_not_Nil:
  "TopicID url = Inr k \<Longrightarrow> url \<noteq> [] \<and> k \<noteq> []"
  "ContentDestination_of url = Inr d \<Longrightarrow> d \<noteq> []"
  "SubscriptionID url callback t = Inr k \<Longrightarrow> url \<noteq> [] \<and> callback \<noteq> [] \<and> \<not> time_IsZero t \<and> k \<noteq> []"
  "SubscriptionConsumerID url callback t = Inr c \<Longrightarrow> c \<noteq> []"
  by (auto simp: TopicID_def ContentDestination_of_def SubscriptionID_def SubscriptionConsumerID_def
      subscriptionDigest_def split: if_splits sum.splits)

lemma register_event_applies:
  assumes "registerTopic env url contentType = (Some e, res)" "validateEvent (Some e) = None"
    "consistent env (RegisterTopicRequest url contentType)"
  shows "\<exists>n. apply_event (he_snapshot env) e = Inr (n, True)"
proof -
  from assms(1) obtain actor k ct meta d where *: "TopicID url = Inr k" "ContentDestination_of url = Inr d"
      "\<not> time_IsZero (OccurredAt meta)"
      "\<forall>topic. mget (Topics (he_snapshot env)) k = Some topic \<longrightarrow>
         topic_ContentType topic = ct \<and> topic_Status topic \<noteq> TopicActive"
      "e = TopicRegistered meta (zero_Topic\<lparr>topic_ID := k, CanonicalURL := url, ContentDestination := d,
             topic_ContentType := ct, RegisteredAt := OccurredAt meta\<rparr>)"
    by (auto simp: registerTopic_Some append_answer_Some dest!: metadata_time)
  have "canonical_content_type ct" using assms(2) *(5) by (simp add: validateEvent_def Let_def split: if_splits)
  then show ?thesis using * assms(3) identifiers_not_Nil(1) [OF *(1)] identifiers_not_Nil(2) [OF *(2)]
    by (cases "mget (Topics (he_snapshot env)) k") (auto simp: canonical_not_Nil Let_def)
qed

lemma verified_event_applies:
  assumes "subscriptionVerified env v = (Some e, res)" "consistent env (SubscriptionVerifiedRequest v)"
    "unique_live (he_snapshot env)" "leases_started (he_snapshot env)"
    "range_order (Subscriptions (he_snapshot env)) (he_order env)"
  shows "\<exists>n. apply_event (he_snapshot env) e = Inr (n, True)"
proof -
  let ?s = "he_snapshot env" and ?v = "websub_subscription.truncate v"
  from assms(1) obtain k i c cipher key opts meta where *: "TopicID (ws_Topic v) = Inr k"
      "SubscriptionID (ws_Topic v) (ws_Callback v) (ws_LeaseStartedAt v) = Inr i"
      "SubscriptionConsumerID (ws_Topic v) (ws_Callback v) (ws_LeaseStartedAt v) = Inr c"
      "NewSubscriptionOptions (ws_Parameters v) = Inr opts"
      "e = SubscriptionVerified meta
          (zero_Subscription\<lparr>sub_ID := i, sub_TopicID := k, TopicURL := ws_Topic v,
             CallbackURL := ws_Callback v, SecretCiphertext := cipher, SecretKeyID := key,
             LeaseStartedAt := time_UTC (ws_LeaseStartedAt v),
             EffectiveLeaseSeconds := ws_EffectiveLeaseSeconds v, sub_ServerID := he_serverID env,
             sub_ConsumerID := c, Parameters := opt_Parameters opts\<rparr>)"
    by (auto simp: subscriptionVerified_Some append_answer_Some)
  from assms(2) have c: "he_serverID env \<noteq> []" "validateSubscription env ?v = None" "mget (Subscriptions ?s) i = None"
    using *(2) by auto
  from validateSubscription_None [OF c(2)] obtain topic where t: "mget (Topics ?s) k = Some topic"
      "topic_Status topic = TopicActive" "CanonicalURL topic = ws_Topic v"
      "\<not> snd (currentSubscription (he_order env) ?s (ws_Topic v) (ws_Callback v))"
    using *(1) by (auto simp: websub_subscription.defs)
  have "\<nexists>k b. mget (Subscriptions ?s) k = Some b \<and> target (ws_Topic v) (ws_Callback v) b"
    using t(4) currentSubscription_eq(1) [OF assms(3-5)] by force
  then have "\<not> range_any (\<lambda>_ x. sub_Status x \<noteq> SubscriptionRemoved \<and> TopicURL x = ws_Topic v \<and>
      CallbackURL x = ws_Callback v) (Subscriptions ?s)"
    by (auto simp: range_any_iff target_def live_def)
  then show ?thesis
    using * c t options_again [OF *(4)] identifiers_not_Nil(1) [OF *(1)] identifiers_not_Nil(3) [OF *(2)]
      identifiers_not_Nil(4) [OF *(3)]
    by (auto simp: verified_value_def)
qed

lemma unsubscribed_event_applies:
  assumes "unsubscriptionVerified env url callback = (Some e, res)" "hub_invariant (he_snapshot env)"
    "leases_started (he_snapshot env)" "range_order (Subscriptions (he_snapshot env)) (he_order env)"
  shows "\<exists>n. apply_event (he_snapshot env) e = Inr (n, True)"
proof -
  let ?s = "he_snapshot env"
  from assms(1) obtain sub meta where *: "currentSubscription (he_order env) ?s url callback = (sub, True)"
      "e = SubscriptionUnsubscribed meta (sub_ID sub)"
    by (auto simp: unsubscriptionVerified_Some append_answer_Some)
  have u: "unique_live ?s" using assms(2) by (simp add: hub_invariant_def)
  from currentSubscription_eq [OF u assms(3,4)] *(1) obtain k where k: "mget (Subscriptions ?s) k = Some sub" "live sub"
    unfolding target_def by (metis prod.inject)
  then have "sub_ID sub = k"
    using assms(2) by (auto simp: hub_invariant_def valid_snapshot_iff range_all_iff subscription_ok_def)
  then show ?thesis using * k by (auto simp: removeSubscription_def live_def)
qed



text \<open>The handler of a verified subscription does not look at the state again: when the topic is
  deregistered while the verification runs, the event it appends is rejected by the reducer.\<close>

theorem late_verification_rejected:
  assumes "handle env (DeregisterTopicRequest (ws_Topic v)) = (Some d, r)" "validateEvent (Some d) = None"
    "handle env' (SubscriptionVerifiedRequest v) = (Some e, r')" "validateEvent (Some e) = None"
    "valid_snapshot (he_snapshot env)" "revision_left (he_snapshot env)"
  shows "\<exists>s' msg. Reducer_Apply (he_snapshot env) (Some d) = Inr (s', True) \<and>
           Reducer_Apply s' (Some e) = Inl (Wrap msg ErrInvalidTransition)"
proof -
  from assms(1) obtain k topic meta where *: "TopicID (ws_Topic v) = Inr k" "d = TopicDeregistered meta k"
      "mget (Topics (he_snapshot env)) k = Some topic" "topic_Status topic = TopicActive"
    by (auto simp: deregisterTopic_Some append_answer_Some)
  let ?n = "put_topic (he_snapshot env) k (topic\<lparr>topic_Status := TopicInactive\<rparr>)"
  from Reducer_ApplyI [OF assms(5,2), of ?n] * obtain s' where
    s': "Reducer_Apply (he_snapshot env) (Some d) = Inr (s', True)" "s' = stamp_topic (?n\<lparr>snap_Revision := snap_Revision ?n + 1\<rparr>) k (snap_Revision ?n + 1)"
    by auto
  have v: "valid_snapshot s'" using Reducer_Apply_transition [OF s'(1)] assms(5,6) by (rule transition_valid)
  have t: "\<exists>t. mget (Topics s') k = Some t \<and> topic_Status t = TopicInactive"
    by (simp add: s'(2) stamp_topic_def)
  from assms(3) obtain meta' b where b: "e = SubscriptionVerified meta' b" "sub_TopicID b = k"
    using *(1) by (auto simp: subscriptionVerified_Some append_answer_Some)
  have "\<exists>msg. apply_event s' e = Inl (Wrap msg ErrInvalidTransition)"
    using t b by (auto simp: invalid_transition_def Let_def split: sum.splits)
  with s'(1) Reducer_Apply_rejects [OF v assms(4)] show ?thesis by metis
qed

text \<open>A hub with the topic under its own identifier, and a subscriber that has just been verified.\<close>

definition late_env :: hub_env where
  "late_env = sample_hub_env\<lparr>he_snapshot := sample_registered\<lparr>Topics := Some (fmupd (''topic-'' @ digest ''https://hub/t'')
     (sample_topic\<lparr>topic_ID := ''topic-'' @ digest ''https://hub/t''\<rparr>) fmempty)\<rparr>\<rparr>"

definition late_subscriber :: websub_verified where
  "late_subscriber = \<lparr>ws_Topic = ''https://hub/t'', ws_Callback = ''https://cb'', ws_Parameters = None, ws_Secret = [],
     ws_LeaseStartedAt = \<lparr>tm_ns = 5, tm_loc = UTC\<rparr>, ws_EffectiveLeaseSeconds = ''60''\<rparr>"

lemma late_env_valid: "valid_snapshot (he_snapshot late_env)" "revision_left (he_snapshot late_env)"
  by (auto simp: valid_snapshot_iff range_all_iff mget_Some topic_ok_def canonical_json sample_topic_def late_env_def
      sample_registered_def split: if_splits)

lemma late_events:
  "\<exists>d r. handle late_env (DeregisterTopicRequest (ws_Topic late_subscriber)) = (Some d, r) \<and> validateEvent (Some d) = None"
  "\<exists>e r. handle late_env (SubscriptionVerifiedRequest late_subscriber) = (Some e, r) \<and> validateEvent (Some e) = None"
  by (simp_all add: late_env_def late_subscriber_def sample_hub_env_def deregisterTopic_Some subscriptionVerified_Some
      adapter_authorize_def adapter_metadata_def append_answer_def TopicID_def SubscriptionID_def SubscriptionConsumerID_def
      subscriptionDigest_def protect_secret_def NewSubscriptionOptions_None mget_Some sample_topic_def
      time_IsZero_def time_UTC_def validateEvent_def)

theorem late_verification_rejected_witness:
  "\<exists>d e s' msg. Reducer_Apply (he_snapshot late_env) (Some d) = Inr (s', True) \<and>
     Reducer_Apply s' (Some e) = Inl (Wrap msg ErrInvalidTransition)"
  using late_events late_verification_rejected [OF _ _ _ _ late_env_valid] by blast

end
