(* ===== verification/Go_Json.thy ===== *)
theory Go_Json
  imports Go_Strings "HOL-Library.Monad_Syntax"
begin

text \<open>
  What the program uses of \<open>encoding/json\<close> and \<open>encoding/base64\<close>: the text of JSON values, the scanner,
  string literals, and how a decoder stores a value in a struct, a slice or a map. Strings and numbers
  keep the text of their literal, as in the decoder, which unquotes them only when it stores them.
\<close>

datatype json =
    JNull
  | JBool bool
  | JNum string
  | JStr string
  | JArr "json list"
  | JObj "(string \<times> json) list"

section \<open>Printing\<close>

fun commas :: "string list \<Rightarrow> string" where
  "commas [] = []"
| "commas [x] = x"
| "commas (x # xs) = x @ '','' @ commas xs"

definition quoted :: "string \<Rightarrow> string" where
  "quoted raw = CHR 0x22 # raw @ [CHR 0x22]"

fun json_text :: "json \<Rightarrow> string" where
  "json_text JNull = ''null''"
| "json_text (JBool b) = (if b then ''true'' else ''false'')"
| "json_text (JNum raw) = raw"
| "json_text (JStr raw) = quoted raw"
| "json_text (JArr js) = ''['' @ commas (map json_text js) @ '']''"
| "json_text (JObj ms) = ''{'' @ commas (map (\<lambda>m. quoted (fst m) @ '':'' @ json_text (snd m)) ms) @ ''}''"

text \<open>The literal of a string, with the characters \<open><\<close>, \<open>>\<close> and \<open>&\<close> escaped as well. Bytes that are
  not UTF-8 are written as the replacement character.\<close>

definition lower_hex :: "nat \<Rightarrow> char" where
  "lower_hex n = (if n < 10 then char_of (48 + n) else char_of (87 + n))"

definition escape_ascii :: "char \<Rightarrow> string" where
  "escape_ascii c =
     (let b = byte c in
      if b = 0x22 \<or> b = 0x5C then [CHR 0x5C, c]
      else if b = 8 then [CHR 0x5C, CHR ''b'']
      else if b = 12 then [CHR 0x5C, CHR ''f'']
      else if b = 10 then [CHR 0x5C, CHR ''n'']
      else if b = 13 then [CHR 0x5C, CHR ''r'']
      else if b = 9 then [CHR 0x5C, CHR ''t'']
      else if b < 0x20 \<or> b = 0x3C \<or> b = 0x3E \<or> b = 0x26
      then [CHR 0x5C, CHR ''u'', CHR ''0'', CHR ''0'', lower_hex (b div 16), lower_hex (b mod 16)]
      else [c])"

definition unicode_escape :: "string \<Rightarrow> string" where
  "unicode_escape hex4 = CHR 0x5C # CHR ''u'' # hex4"

definition char_bytes :: "nat list \<Rightarrow> string" where
  "char_bytes ns = map char_of ns"

function json_escape :: "string \<Rightarrow> string" where
  "json_escape s =
     (case s of
        [] \<Rightarrow> []
      | c # r \<Rightarrow>
          if byte c < 0x80 then escape_ascii c @ json_escape r
          else if rune_len s = 0 then unicode_escape ''fffd'' @ json_escape r
          else if take (rune_len s) s = char_bytes [0xE2, 0x80, 0xA8] then unicode_escape ''2028'' @ json_escape (drop (rune_len s) s)
          else if take (rune_len s) s = char_bytes [0xE2, 0x80, 0xA9] then unicode_escape ''2029'' @ json_escape (drop (rune_len s) s)
          else take (rune_len s) s @ json_escape (drop (rune_len s) s))"
  by pat_completeness auto
termination by (relation "measure length") auto

declare json_escape.simps [simp del]

section \<open>String literals\<close>

definition encode_rune :: "nat \<Rightarrow> string" where
  "encode_rune u =
     char_bytes (if u < 0x80 then [u]
      else if u < 0x800 then [0xC0 + u div 0x40, 0x80 + u mod 0x40]
      else if u < 0x10000 then [0xE0 + u div 0x1000, 0x80 + u div 0x40 mod 0x40, 0x80 + u mod 0x40]
      else [0xF0 + u div 0x40000, 0x80 + u div 0x1000 mod 0x40, 0x80 + u div 0x40 mod 0x40, 0x80 + u mod 0x40])"

definition replacement :: string where
  "replacement = encode_rune 0xFFFD"

definition hex4 :: "string \<Rightarrow> (nat \<times> string) option" where
  "hex4 s =
     (case s of
        a # b # c # d # r \<Rightarrow>
          if ishex a \<and> ishex b \<and> ishex c \<and> ishex d
          then Some (((hexval a * 16 + hexval b) * 16 + hexval c) * 16 + hexval d, r) else None
      | _ \<Rightarrow> None)"

text \<open>\<open>getu4\<close>.\<close>

definition getu4 :: "string \<Rightarrow> (nat \<times> string) option" where
  "getu4 s = (case s of c # d # r \<Rightarrow> if byte c = 0x5C \<and> d = CHR ''u'' then hex4 r else None | _ \<Rightarrow> None)"

lemma hex4_length: "hex4 s = Some (u, r) \<Longrightarrow> length r < length s"
  by (auto simp: hex4_def split: list.splits if_splits)

lemma getu4_length: "getu4 s = Some (u, r) \<Longrightarrow> length r < length s"
  by (auto simp: getu4_def split: list.splits if_splits dest: hex4_length)

definition simple_escape :: "char \<Rightarrow> char option" where
  "simple_escape e =
     map_of [(CHR 0x22, CHR 0x22), (CHR 0x5C, CHR 0x5C), (CHR ''/'', CHR ''/''), (CHR ''b'', CHR 0x08),
       (CHR ''f'', CHR 0x0C), (CHR ''n'', CHR 0x0A), (CHR ''r'', CHR 0x0D), (CHR ''t'', CHR 0x09)] e"

text \<open>\<open>unquote\<close>, on the text between the quotes. An unpaired surrogate becomes the replacement
  character, as does a byte that is not UTF-8.\<close>

function json_unquote :: "string \<Rightarrow> string option" where
  "json_unquote s =
     (case s of
        [] \<Rightarrow> Some []
      | c # r \<Rightarrow>
          if byte c = 0x5C then
            (case getu4 s of
               Some (u, r1) \<Rightarrow>
                 if 0xD800 \<le> u \<and> u < 0xE000 then
                   (case getu4 r1 of
                      Some (u2, r2) \<Rightarrow>
                        if u < 0xDC00 \<and> 0xDC00 \<le> u2 \<and> u2 < 0xE000
                        then map_option (append (encode_rune (0x10000 + (u - 0xD800) * 0x400 + (u2 - 0xDC00)))) (json_unquote r2)
                        else map_option (append replacement) (json_unquote r1)
                    | None \<Rightarrow> map_option (append replacement) (json_unquote r1))
                 else map_option (append (encode_rune u)) (json_unquote r1)
             | None \<Rightarrow>
                 (case r of
                    [] \<Rightarrow> None
                  | e # r1 \<Rightarrow>
                      (case simple_escape e of
                         None \<Rightarrow> None
                       | Some x \<Rightarrow> map_option (Cons x) (json_unquote r1))))
          else if byte c = 0x22 \<or> byte c < 0x20 then None
          else if byte c < 0x80 then map_option (Cons c) (json_unquote r)
          else if rune_len s = 0 then map_option (append replacement) (json_unquote r)
          else map_option (append (take (rune_len s) s)) (json_unquote (drop (rune_len s) s)))"
  by pat_completeness auto
termination
  by (relation "measure length") (auto dest!: getu4_length)

declare json_unquote.simps [simp del]

section \<open>Scanning\<close>

definition skip_ws :: "string \<Rightarrow> string" where
  "skip_ws s = dropWhile (\<lambda>c. byte c \<in> {0x20, 0x09, 0x0A, 0x0D}) s"

text \<open>The rest of a string literal after its opening quote: its text and what follows.\<close>

fun scan_string :: "string \<Rightarrow> (string \<times> string) option" where
  "scan_string [] = None"
| "scan_string (c # r) =
     (if byte c = 0x22 then Some ([], r)
      else if byte c < 0x20 then None
      else if byte c = 0x5C then
        (case r of
           [] \<Rightarrow> None
         | e # r1 \<Rightarrow>
             if simple_escape e \<noteq> None then map_option (\<lambda>(raw, rest). (c # e # raw, rest)) (scan_string r1)
             else if e = CHR ''u'' then
               (case r1 of
                  w # x # y # z # r2 \<Rightarrow>
                    if ishex w \<and> ishex x \<and> ishex y \<and> ishex z
                    then map_option (\<lambda>(raw, rest). (c # e # w # x # y # z # raw, rest)) (scan_string r2) else None
                | _ \<Rightarrow> None)
             else None)
      else map_option (\<lambda>(raw, rest). (c # raw, rest)) (scan_string r))"

definition scan_digits :: "string \<Rightarrow> (string \<times> string) option" where
  "scan_digits s = (let ds = takeWhile is_digit s in if ds = [] then None else Some (ds, dropWhile is_digit s))"

definition scan_int :: "string \<Rightarrow> (string \<times> string) option" where
  "scan_int s = (case s of [] \<Rightarrow> None | c # r \<Rightarrow> if c = CHR ''0'' then Some ([c], r) else scan_digits s)"

definition scan_fraction :: "string \<Rightarrow> (string \<times> string) option" where
  "scan_fraction s =
     (case s of
        c # r \<Rightarrow> if c = CHR ''.'' then map_option (\<lambda>(ds, r). (c # ds, r)) (scan_digits r) else Some ([], s)
      | [] \<Rightarrow> Some ([], s))"

definition scan_exponent :: "string \<Rightarrow> (string \<times> string) option" where
  "scan_exponent s =
     (case s of
        c # r \<Rightarrow>
          if c = CHR ''e'' \<or> c = CHR ''E'' then
            (case r of
               x # r1 \<Rightarrow> if x = CHR ''+'' \<or> x = CHR ''-'' then map_option (\<lambda>(ds, r). (c # x # ds, r)) (scan_digits r1)
                         else map_option (\<lambda>(ds, r). (c # ds, r)) (scan_digits r)
             | [] \<Rightarrow> None)
          else Some ([], s)
      | [] \<Rightarrow> Some ([], s))"

definition scan_number :: "string \<Rightarrow> (string \<times> string) option" where
  "scan_number s =
     (let (sign, s) = (case s of c # r \<Rightarrow> if c = CHR ''-'' then ([c], r) else ([], s) | [] \<Rightarrow> ([], s)) in
      do { (i, s) \<leftarrow> scan_int s; (f, s) \<leftarrow> scan_fraction s; (e, s) \<leftarrow> scan_exponent s; Some (sign @ i @ f @ e, s) })"

text \<open>Items separated by commas, at least one, up to the closing character; each item takes at least one
  character, so the length of the text bounds their number.\<close>

primrec parse_items :: "nat \<Rightarrow> (string \<Rightarrow> ('a \<times> string) option) \<Rightarrow> char \<Rightarrow> string \<Rightarrow> ('a list \<times> string) option" where
  "parse_items 0 p close s = None"
| "parse_items (Suc n) p close s =
     (case p s of
        None \<Rightarrow> None
      | Some (x, r) \<Rightarrow>
          (case skip_ws r of
             [] \<Rightarrow> None
           | c # r1 \<Rightarrow>
               if c = close then Some ([x], r1)
               else if c = CHR '','' then map_option (\<lambda>(xs, r2). (x # xs, r2)) (parse_items n p close r1)
               else None))"

definition parse_member :: "(string \<Rightarrow> (json \<times> string) option) \<Rightarrow> string \<Rightarrow> ((string \<times> json) \<times> string) option" where
  "parse_member p s =
     (case skip_ws s of
        [] \<Rightarrow> None
      | c # r \<Rightarrow>
          if byte c \<noteq> 0x22 then None
          else do { (k, r) \<leftarrow> scan_string r; r \<leftarrow> (case skip_ws r of [] \<Rightarrow> None | c # r \<Rightarrow> if c = CHR '':'' then Some r else None);
                    (v, r) \<leftarrow> p r; Some ((k, v), r) })"

definition parse_list :: "(string \<Rightarrow> ('a \<times> string) option) \<Rightarrow> char \<Rightarrow> string \<Rightarrow> ('a list \<times> string) option" where
  "parse_list p close s =
     (case skip_ws s of
        [] \<Rightarrow> None
      | c # r \<Rightarrow> if c = close then Some ([], r) else parse_items (length s) p close s)"

text \<open>One value, given the parser of the values inside it, if it may have any.\<close>

definition parse_with :: "(string \<Rightarrow> (json \<times> string) option) option \<Rightarrow> string \<Rightarrow> (json \<times> string) option" where
  "parse_with inner s =
     (case skip_ws s of
        [] \<Rightarrow> None
      | c # r \<Rightarrow>
          if byte c = 0x22 then map_option (map_prod JStr id) (scan_string r)
          else if c = CHR ''{'' then Option.bind inner (\<lambda>p. map_option (map_prod JObj id) (parse_list (parse_member p) (CHR ''}'') r))
          else if c = CHR ''['' then Option.bind inner (\<lambda>p. map_option (map_prod JArr id) (parse_list p (CHR '']'') r))
          else if HasPrefix (c # r) ''null'' then Some (JNull, drop 3 r)
          else if HasPrefix (c # r) ''true'' then Some (JBool True, drop 3 r)
          else if HasPrefix (c # r) ''false'' then Some (JBool False, drop 4 r)
          else map_option (map_prod JNum id) (scan_number (c # r)))"

primrec parse_value :: "nat \<Rightarrow> string \<Rightarrow> (json \<times> string) option" where
  "parse_value 0 = parse_with None"
| "parse_value (Suc depth) = parse_with (Some (parse_value depth))"

definition maxNestingDepth :: nat where
  "maxNestingDepth = 10000"

text \<open>\<open>Decoder.Decode\<close> reads one value and leaves the rest; \<open>requireEOF\<close> wants only white space there.\<close>

definition decode_value :: "string \<Rightarrow> (json \<times> string) option" where
  "decode_value data = parse_value maxNestingDepth data"

section \<open>Literals are read back\<close>

lemma byte_eq_iff: "byte c = byte d \<longleftrightarrow> c = d"
  by (simp add: byte_def)

lemma lower_hex_props:
  "n < 16 \<Longrightarrow> ishex (lower_hex n)" "n < 16 \<Longrightarrow> hexval (lower_hex n) = n"
  by (auto simp: lower_hex_def ishex_def hexval_def in_range_def is_digit_def byte_def)

text \<open>The shapes of the first rune.\<close>

definition rune2 :: "char \<Rightarrow> char \<Rightarrow> bool" where
  "rune2 a b \<longleftrightarrow> in_range 0xC2 0xDF a \<and> in_range 0x80 0xBF b"

definition rune3 :: "char \<Rightarrow> char \<Rightarrow> char \<Rightarrow> bool" where
  "rune3 a b c \<longleftrightarrow> in_range 0x80 0xBF c \<and>
     (byte a = 0xE0 \<and> in_range 0xA0 0xBF b \<or> in_range 0xE1 0xEC a \<and> in_range 0x80 0xBF b \<or>
      byte a = 0xED \<and> in_range 0x80 0x9F b \<or> in_range 0xEE 0xEF a \<and> in_range 0x80 0xBF b)"

definition rune4 :: "char \<Rightarrow> char \<Rightarrow> char \<Rightarrow> char \<Rightarrow> bool" where
  "rune4 a b c d \<longleftrightarrow> in_range 0x80 0xBF c \<and> in_range 0x80 0xBF d \<and>
     (byte a = 0xF0 \<and> in_range 0x90 0xBF b \<or> in_range 0xF1 0xF3 a \<and> in_range 0x80 0xBF b \<or>
      byte a = 0xF4 \<and> in_range 0x80 0x8F b)"

lemma rune_len_shape:
  "rune_len s =
     (case s of [] \<Rightarrow> 0 | a # s1 \<Rightarrow> if byte a < 0x80 then 1 else
      case s1 of [] \<Rightarrow> 0 | b # s2 \<Rightarrow> if rune2 a b then 2 else
      case s2 of [] \<Rightarrow> 0 | c # s3 \<Rightarrow> if rune3 a b c then 3 else
      case s3 of [] \<Rightarrow> 0 | d # _ \<Rightarrow> if rune4 a b c d then 4 else 0)"
  unfolding rune_len_def rune2_def rune3_def rune4_def Let_def by (rule refl)

lemma rune_len_le: "rune_len s \<le> length s"
  by (auto simp: rune_len_shape split: list.splits)

lemma rune_len_append: "rune_len s \<noteq> 0 \<Longrightarrow> rune_len (take (rune_len s) s @ t) = rune_len s"
  by (auto simp: rune_len_shape split: list.splits if_splits)

lemma rune_high:
  "rune2 a b \<Longrightarrow> 0x80 \<le> byte a \<and> 0x80 \<le> byte b"
  "rune3 a b c \<Longrightarrow> 0x80 \<le> byte a \<and> 0x80 \<le> byte b \<and> 0x80 \<le> byte c"
  "rune4 a b c d \<Longrightarrow> 0x80 \<le> byte a \<and> 0x80 \<le> byte b \<and> 0x80 \<le> byte c \<and> 0x80 \<le> byte d"
  by (auto simp: rune2_def rune3_def rune4_def in_range_def)

lemma rune_bytes_high: "\<not> byte (hd s) < 0x80 \<Longrightarrow> \<forall>c\<in>set (take (rune_len s) s). 0x80 \<le> byte c"
  by (auto simp: rune_len_shape dest: rune_high split: list.splits if_splits)

lemma unquote_Nil [simp]: "json_unquote [] = Some []"
  by (subst json_unquote.simps) simp

lemma unquote_simple:
  assumes "simple_escape e = Some x"
  shows "json_unquote (CHR 0x5C # e # t) = map_option (Cons x) (json_unquote t)"
proof -
  have "getu4 (CHR 0x5C # e # t) = None" using assms by (auto simp: getu4_def simple_escape_def)
  then show ?thesis using assms by (subst json_unquote.simps) (simp add: byte_def)
qed

lemma unquote_unicode:
  assumes "hex4 (h @ t) = Some (u, t)" "u < 0xD800"
  shows "json_unquote (unicode_escape h @ t) = map_option (append (encode_rune u)) (json_unquote t)"
  using assms by (subst json_unquote.simps) (simp add: byte_def unicode_escape_def getu4_def)

lemma unquote_plain:
  "\<not> byte c < 0x20 \<Longrightarrow> byte c < 0x80 \<Longrightarrow> byte c \<noteq> 0x22 \<Longrightarrow> byte c \<noteq> 0x5C \<Longrightarrow>
   json_unquote (c # t) = map_option (Cons c) (json_unquote t)"
  by (subst json_unquote.simps) simp

lemma unquote_high:
  "0x80 \<le> byte a \<Longrightarrow> rune_len (a # r) \<noteq> 0 \<Longrightarrow>
   json_unquote (a # r) = map_option (append (take (rune_len (a # r)) (a # r))) (json_unquote (drop (rune_len (a # r)) (a # r)))"
  by (subst json_unquote.simps) simp

lemma unquote_rune:
  assumes "\<not> byte (hd s) < 0x80" "rune_len s \<noteq> 0"
  shows "json_unquote (take (rune_len s) s @ t) = map_option (append (take (rune_len s) s)) (json_unquote t)"
proof -
  let ?w = "take (rune_len s) s @ t"
  obtain a r where w: "?w = a # r" "0x80 \<le> byte a" using assms by (cases s; cases "rune_len s") (auto simp: rune_len_shape)
  have n: "rune_len ?w = rune_len s" by (rule rune_len_append [OF assms(2)])
  have "take (rune_len s) ?w = take (rune_len s) s" "drop (rune_len s) ?w = t" using rune_len_le [of s] by simp_all
  then show ?thesis using unquote_high [of a r] w n assms(2) by simp
qed

text \<open>How each character is written.\<close>

lemma escape_ascii_cases:
  assumes "byte c < 0x80"
  obtains e where "escape_ascii c = [CHR 0x5C, e]" "simple_escape e = Some c"
  | h where "escape_ascii c = unicode_escape h" "length h = 4" "list_all ishex h" "\<And>t. hex4 (h @ t) = Some (byte c, t)"
  | "escape_ascii c = [c]" "\<not> byte c < 0x20" "byte c \<noteq> 0x22" "byte c \<noteq> 0x5C"
proof -
  consider "byte c \<in> {8, 9, 10, 12, 13, 0x22, 0x5C}" | "byte c < 0x20 \<or> byte c \<in> {0x3C, 0x3E, 0x26}" "byte c \<notin> {8, 9, 10, 12, 13, 0x22, 0x5C}"
    | "\<not> byte c < 0x20" "byte c \<notin> {0x22, 0x5C, 0x3C, 0x3E, 0x26}" by auto
  then show thesis
  proof cases
    case 1
    then have "byte c \<in> byte ` {CHR 0x08, CHR 0x09, CHR 0x0A, CHR 0x0C, CHR 0x0D, CHR 0x22, CHR 0x5C}" by (simp add: byte_def)
    then have "c \<in> {CHR 0x08, CHR 0x09, CHR 0x0A, CHR 0x0C, CHR 0x0D, CHR 0x22, CHR 0x5C}" by (auto simp only: image_iff byte_eq_iff)
    then have "\<exists>e. escape_ascii c = [CHR 0x5C, e] \<and> simple_escape e = Some c"
      by (elim insertE emptyE) (simp_all add: escape_ascii_def simple_escape_def byte_def Let_def)
    with that(1) show ?thesis by blast
  next
    case 2
    let ?h = "[CHR ''0'', CHR ''0'', lower_hex (byte c div 16), lower_hex (byte c mod 16)]"
    have z: "ishex (CHR ''0'')" "hexval (CHR ''0'') = 0" by (simp_all add: ishex_def is_digit_def hexval_def byte_def)
    have "byte c div 16 < 16" "byte c mod 16 < 16" using assms by simp_all
    then have "list_all ishex ?h" "\<And>t. hex4 (?h @ t) = Some (byte c, t)"
      using lower_hex_props by (simp_all add: z hex4_def)
    moreover have "escape_ascii c = unicode_escape ?h" using 2 by (auto simp: escape_ascii_def unicode_escape_def Let_def)
    ultimately show ?thesis using that(2) [of ?h] by simp
  next
    case 3
    then show ?thesis by (intro that(3)) (auto simp: escape_ascii_def Let_def)
  qed
qed

lemma encode_rune_ascii: "byte c < 0x80 \<Longrightarrow> encode_rune (byte c) = [c]"
  by (simp add: encode_rune_def char_bytes_def byte_def)

lemma append_Cons_Nil: "append [c] = Cons c"
  by auto

lemma unquote_escape_ascii:
  assumes "byte c < 0x80"
  shows "json_unquote (escape_ascii c @ t) = map_option (Cons c) (json_unquote t)"
  using assms
proof (cases rule: escape_ascii_cases)
  case (2 h)
  have "json_unquote (unicode_escape h @ t) = map_option (append (encode_rune (byte c))) (json_unquote t)"
    using 2(4) assms by (intro unquote_unicode) simp_all
  then show ?thesis using 2(1) encode_rune_ascii [OF assms] append_Cons_Nil [of c] by simp
qed (use assms in \<open>simp_all add: unquote_simple unquote_plain\<close>)

lemma unquote_separators:
  "json_unquote (unicode_escape ''2028'' @ t) = map_option (append (char_bytes [0xE2, 0x80, 0xA8])) (json_unquote t)"
  "json_unquote (unicode_escape ''2029'' @ t) = map_option (append (char_bytes [0xE2, 0x80, 0xA9])) (json_unquote t)"
proof -
  have "hex4 (''2028'' @ t) = Some (0x2028, t)" "hex4 (''2029'' @ t) = Some (0x2029, t)"
    by (simp_all add: hex4_def ishex_def hexval_def is_digit_def byte_def)
  moreover have "encode_rune 0x2028 = char_bytes [0xE2, 0x80, 0xA8]" "encode_rune 0x2029 = char_bytes [0xE2, 0x80, 0xA9]"
    by (simp_all only: encode_rune_def) simp_all
  ultimately show
    "json_unquote (unicode_escape ''2028'' @ t) = map_option (append (char_bytes [0xE2, 0x80, 0xA8])) (json_unquote t)"
    "json_unquote (unicode_escape ''2029'' @ t) = map_option (append (char_bytes [0xE2, 0x80, 0xA9])) (json_unquote t)"
    using unquote_unicode [of "''2028''" t "0x2028"] unquote_unicode [of "''2029''" t "0x2029"] by simp_all
qed

lemma unquote_escape:
  "utf8_ValidString s \<Longrightarrow> json_unquote (json_escape s) = Some s"
proof (induction s rule: json_escape.induct)
  case (1 s)
  show ?case
  proof (cases s)
    case (Cons c r)
    have v: "rune_len s \<noteq> 0" "utf8_ValidString (drop (rune_len s) s)"
      using "1.prems" Cons by (subst (asm) utf8_ValidString.simps, simp split: if_splits)+
    show ?thesis
    proof (cases "byte c < 0x80")
      case True
      then have "rune_len s = 1" using Cons by (simp add: rune_len_shape)
      then show ?thesis using "1.IH"(1) [OF Cons True] v Cons True
        by (subst json_escape.simps) (simp add: unquote_escape_ascii)
    next
      case False
      let ?n = "rune_len s"
      have ih: "json_unquote (json_escape (drop ?n s)) = Some (drop ?n s)"
        using "1.IH"(3-5) [OF Cons False v(1)] v(2) by blast
      have "json_unquote (take ?n s @ t) = map_option (append (take ?n s)) (json_unquote t)" for t
        by (rule unquote_rune) (use Cons False v(1) in simp_all)
      then have "json_unquote (json_escape s) = map_option (append (take ?n s)) (json_unquote (json_escape (drop ?n s)))"
        using Cons False v(1) by (subst json_escape.simps) (auto simp: unquote_separators)
      with ih show ?thesis by simp
    qed
  qed (subst json_escape.simps, simp)
qed

section \<open>Printed values are scanned back\<close>

definition scannable :: "string \<Rightarrow> bool" where
  "scannable raw \<longleftrightarrow> (\<forall>rest. scan_string (raw @ CHR 0x22 # rest) = Some (raw, rest))"

definition scan_chunk :: "string \<Rightarrow> bool" where
  "scan_chunk w \<longleftrightarrow> (\<forall>t. scan_string (w @ t) = map_option (\<lambda>(raw, rest). (w @ raw, rest)) (scan_string t))"

lemma scannable_Nil: "scannable []"
  by (simp add: scannable_def byte_def)

lemma scannable_append: "scan_chunk w \<Longrightarrow> scannable r \<Longrightarrow> scannable (w @ r)"
  by (simp add: scannable_def scan_chunk_def)

lemma scan_chunk_plain: "\<forall>c\<in>set w. \<not> byte c < 0x20 \<and> byte c \<noteq> 0x22 \<and> byte c \<noteq> 0x5C \<Longrightarrow> scan_chunk w"
proof (induction w)
  case Nil
  then show ?case by (simp add: scan_chunk_def case_prod_unfold option.map_ident)
next
  case (Cons c w)
  then show ?case by (simp add: scan_chunk_def option.map_comp comp_def case_prod_unfold)
qed

lemma scan_chunk_simple: "simple_escape e \<noteq> None \<Longrightarrow> scan_chunk [CHR 0x5C, e]"
  by (simp add: scan_chunk_def byte_def)

lemma scan_chunk_unicode: "length h = 4 \<Longrightarrow> list_all ishex h \<Longrightarrow> scan_chunk (unicode_escape h)"
  by (auto simp: scan_chunk_def unicode_escape_def byte_def simple_escape_def length_Suc_conv numeral_eq_Suc)

lemma scan_chunk_ascii: "byte c < 0x80 \<Longrightarrow> scan_chunk (escape_ascii c)"
  by (erule escape_ascii_cases) (auto intro: scan_chunk_simple scan_chunk_unicode scan_chunk_plain)

lemma scan_chunk_high: "\<forall>c\<in>set w. 0x80 \<le> byte c \<Longrightarrow> scan_chunk w"
  by (rule scan_chunk_plain) fastforce

lemma scannable_escape: "scannable (json_escape s)"
proof (induction s rule: json_escape.induct)
  case (1 s)
  show ?case
  proof (cases s)
    case (Cons c r)
    show ?thesis
    proof (cases "byte c < 0x80")
      case True
      then show ?thesis using "1.IH"(1) [OF Cons True] Cons
        by (subst json_escape.simps) (simp add: scannable_append scan_chunk_ascii)
    next
      case False
      have hex: "scan_chunk (unicode_escape ''fffd'')" "scan_chunk (unicode_escape ''2028'')" "scan_chunk (unicode_escape ''2029'')"
        by (rule scan_chunk_unicode; simp add: ishex_def is_digit_def in_range_def byte_def)+
      have "scan_chunk (take (rune_len s) s)" using False Cons by (intro scan_chunk_high rune_bytes_high) simp
      moreover have "scannable (json_escape (drop (rune_len s) s))" if "rune_len s \<noteq> 0"
        using "1.IH"(3-5) [OF Cons False that] by blast
      ultimately show ?thesis using "1.IH"(2) [OF Cons False] Cons False hex
        by (subst json_escape.simps) (auto intro: scannable_append)
    qed
  qed (subst json_escape.simps, simp add: scannable_Nil)
qed

text \<open>Numbers are written without sign, fraction and exponent.\<close>

definition plain_number :: "string \<Rightarrow> bool" where
  "plain_number raw \<longleftrightarrow> raw \<noteq> [] \<and> list_all is_digit raw \<and> (hd raw = CHR ''0'' \<longrightarrow> raw = ''0'')"

definition follows :: "string \<Rightarrow> bool" where
  "follows r \<longleftrightarrow> r = [] \<or> hd r \<in> {CHR '','', CHR '']'', CHR ''}''}"

lemma Itoa_head: "0 < n \<Longrightarrow> hd (Itoa n) \<noteq> CHR ''0''"
proof (induction n rule: less_induct)
  case (less n)
  show ?case
  proof (cases "n < 10")
    case True
    then have "byte (hd (Itoa n)) = 48 + n" by (subst Itoa.simps) (simp add: byte_digit_char)
    then show ?thesis using less.prems by (auto simp: byte_def)
  next
    case False
    then have "hd (Itoa (n div 10)) \<noteq> CHR ''0''" by (intro less.IH) simp_all
    then show ?thesis using False by (subst Itoa.simps) (simp add: hd_append)
  qed
qed

lemma plain_number_Itoa: "plain_number (Itoa n)"
proof -
  have "Itoa 0 = ''0''" by code_simp
  then show ?thesis using Itoa_digits [of n] Itoa_head [of n] by (cases "n = 0") (auto simp: plain_number_def)
qed

lemma scan_digits_all:
  assumes "raw \<noteq> []" "list_all is_digit raw" "r = [] \<or> \<not> is_digit (hd r)"
  shows "scan_digits (raw @ r) = Some (raw, r)"
proof -
  have "takeWhile is_digit (raw @ r) = raw" "dropWhile is_digit (raw @ r) = r"
    using assms(2,3) by (cases r; auto simp: list_all_iff takeWhile_append dropWhile_append)+
  then show ?thesis using assms(1) by (simp add: scan_digits_def)
qed

lemma scan_number_plain:
  assumes "plain_number raw" "follows r"
  shows "scan_number (raw @ r) = Some (raw, r)"
proof -
  obtain c t where raw: "raw = c # t" "is_digit c" using assms(1) by (cases raw) (auto simp: plain_number_def)
  have c: "c \<noteq> CHR ''-''" using raw(2) by (auto simp: is_digit_def byte_def)
  have r: "r = [] \<or> \<not> is_digit (hd r)" using assms(2) by (auto simp: follows_def is_digit_def byte_def)
  have "scan_int (raw @ r) = Some (raw, r)"
  proof (cases "c = CHR ''0''")
    case True
    then show ?thesis using assms(1) raw by (simp add: plain_number_def scan_int_def)
  next
    case False
    then show ?thesis using scan_digits_all [OF _ _ r, of raw] assms(1) raw by (simp add: plain_number_def scan_int_def)
  qed
  moreover have "scan_fraction r = Some ([], r)" "scan_exponent r = Some ([], r)"
    using assms(2) by (auto simp: follows_def scan_fraction_def scan_exponent_def split: list.splits)
  ultimately show ?thesis using raw c by (simp add: scan_number_def)
qed

text \<open>The values that printing and scanning preserve, nested at most \<open>depth\<close> deep.\<close>

fun json_ok :: "nat \<Rightarrow> json \<Rightarrow> bool" where
  "json_ok depth (JStr raw) = scannable raw"
| "json_ok depth (JNum raw) = plain_number raw"
| "json_ok depth (JArr js) = (case depth of 0 \<Rightarrow> False | Suc d \<Rightarrow> list_all (json_ok d) js)"
| "json_ok depth (JObj ms) = (case depth of 0 \<Rightarrow> False | Suc d \<Rightarrow> list_all (\<lambda>m. scannable (fst m) \<and> json_ok d (snd m)) ms)"
| "json_ok depth j = True"

lemma skip_ws_Cons: "byte c \<notin> {0x20, 0x09, 0x0A, 0x0D} \<Longrightarrow> skip_ws (c # r) = c # r"
  by (simp add: skip_ws_def)

lemma parse_items_commas:
  assumes "\<And>x r. x \<in> set xs \<Longrightarrow> follows r \<Longrightarrow> p (f x @ r) = Some (x, r)"
    "xs \<noteq> []" "length xs \<le> n" "close \<in> {CHR '']'', CHR ''}''}"
  shows "parse_items n p close (commas (map f xs) @ close # r) = Some (xs, r)"
  using assms(1-3)
proof (induction xs arbitrary: n)
  case (Cons x xs)
  obtain m where n: "n = Suc m" using Cons.prems(3) by (cases n) auto
  have close: "follows (close # r)" "skip_ws (close # r) = close # r" "close \<noteq> CHR '',''"
    using assms(4) by (auto simp: follows_def skip_ws_def byte_def)
  show ?case
  proof (cases xs)
    case Nil
    then show ?thesis using Cons.prems(1) [of x] close by (simp add: n)
  next
    case (Cons y ys)
    have "parse_items m p close (commas (map f xs) @ close # r) = Some (xs, r)"
      by (rule Cons.IH) (use Cons.prems Cons n in auto)
    moreover have "skip_ws (CHR '','' # t) = CHR '','' # t" "follows (CHR '','' # t)" for t
      by (simp_all add: skip_ws_def byte_def follows_def)
    ultimately show ?thesis using Cons.prems(1) [of x] Cons close(3) by (simp add: n)
  qed
qed simp

lemma length_commas: "length xs \<le> Suc (length (commas xs))"
  by (induction xs rule: commas.induct) auto

lemma commas_hd: "xs \<noteq> [] \<Longrightarrow> hd xs \<noteq> [] \<Longrightarrow> \<exists>t. commas xs = hd (hd xs) # t"
  by (cases xs rule: commas.cases) (auto simp: neq_Nil_conv)

lemma parse_list_commas:
  assumes "\<And>x r. x \<in> set xs \<Longrightarrow> follows r \<Longrightarrow> p (f x @ r) = Some (x, r)" "close \<in> {CHR '']'', CHR ''}''}"
    "\<And>x. x \<in> set xs \<Longrightarrow> f x \<noteq> [] \<and> byte (hd (f x)) \<notin> {0x20, 0x09, 0x0A, 0x0D} \<and> hd (f x) \<noteq> close"
  shows "parse_list p close (commas (map f xs) @ close # r) = Some (xs, r)"
proof (cases xs)
  case Nil
  then show ?thesis using assms(2) by (auto simp: parse_list_def skip_ws_def byte_def)
next
  case (Cons x ys)
  let ?t = "commas (map f xs) @ close # r"
  obtain t where t: "commas (map f xs) = hd (f x) # t" using commas_hd [of "map f xs"] assms(3) [of x] Cons by auto
  have "skip_ws ?t = ?t" "hd (f x) \<noteq> close" using assms(3) [of x] Cons t by (auto simp: skip_ws_Cons)
  moreover have "length xs \<le> length ?t" using length_commas [of "map f xs"] by simp
  then have "parse_items (length ?t) p close ?t = Some (xs, r)"
    using assms(1,2) Cons by (intro parse_items_commas) auto
  ultimately show ?thesis using t by (simp add: parse_list_def)
qed

lemma json_text_start:
  "json_ok d j \<Longrightarrow> json_text j \<noteq> [] \<and> byte (hd (json_text j)) \<notin> {0x20, 0x09, 0x0A, 0x0D} \<and>
     hd (json_text j) \<notin> {CHR '']'', CHR ''}''}"
  by (cases j) (auto simp: quoted_def byte_def plain_number_def list_all_iff is_digit_def neq_Nil_conv)

lemma parse_member_text:
  assumes "scannable k" "\<And>r. follows r \<Longrightarrow> p (json_text v @ r) = Some (v, r)" "follows r"
  shows "parse_member p (quoted k @ '':'' @ json_text v @ r) = Some ((k, v), r)"
  using assms by (simp add: parse_member_def quoted_def skip_ws_Cons byte_def scannable_def)

lemma parse_with_scalar:
  assumes "json_ok 0 j" "follows r"
  shows "parse_with inner (json_text j @ r) = Some (j, r)"
proof (cases j)
  case (JNum raw)
  then obtain c t where raw: "raw = c # t" "is_digit c" using assms(1) by (cases raw) (auto simp: plain_number_def)
  have c: "byte c \<notin> {0x20, 0x09, 0x0A, 0x0D, 0x22}" "c \<notin> {CHR ''{'', CHR ''['', CHR ''n'', CHR ''t'', CHR ''f''}"
    using raw(2) by (auto simp: is_digit_def byte_def)
  then show ?thesis using scan_number_plain [of raw r] assms JNum raw(1)
    by (simp add: parse_with_def skip_ws_Cons HasPrefix_def)
qed (use assms in \<open>simp_all add: parse_with_def quoted_def skip_ws_Cons byte_def scannable_def HasPrefix_def\<close>)

theorem parse_text: "json_ok d j \<Longrightarrow> follows r \<Longrightarrow> parse_value d (json_text j @ r) = Some (j, r)"
proof (induction d arbitrary: j r)
  case 0
  then show ?case by (simp add: parse_with_scalar)
next
  case (Suc d)
  show ?case
  proof (cases j)
    case (JArr js)
    have "parse_list (parse_value d) (CHR '']'') (commas (map json_text js) @ CHR '']'' # r) = Some (js, r)"
      using Suc.prems(1) JArr json_text_start [of d] by (intro parse_list_commas Suc.IH) (auto simp: list_all_iff)
    then show ?thesis using JArr by (simp add: parse_with_def skip_ws_Cons byte_def)
  next
    case (JObj ms)
    let ?f = "\<lambda>m. quoted (fst m) @ '':'' @ json_text (snd m)"
    have "parse_list (parse_member (parse_value d)) (CHR ''}'') (commas (map ?f ms) @ CHR ''}'' # r) = Some (ms, r)"
    proof (rule parse_list_commas)
      show "parse_member (parse_value d) (?f m @ r) = Some (m, r)" if "m \<in> set ms" "follows r" for m r
        using parse_member_text [of "fst m" "parse_value d" "snd m" r] Suc.IH [of "snd m"] Suc.prems(1) JObj that
        by (auto simp: list_all_iff)
    qed (simp_all add: quoted_def byte_def)
    then show ?thesis using JObj by (simp add: parse_with_def skip_ws_Cons byte_def)
  qed (use Suc.prems parse_with_scalar [of j r] in simp_all)
qed

corollary decode_value_text: "json_ok maxNestingDepth j \<Longrightarrow> decode_value (json_text j) = Some (j, [])"
  using parse_text [of maxNestingDepth j "[]"] by (simp add: decode_value_def follows_def)

lemma json_ok_mono: "json_ok d j \<Longrightarrow> d \<le> e \<Longrightarrow> json_ok e j"
proof (induction d arbitrary: j e)
  case 0
  then show ?case by (cases j) simp_all
next
  case (Suc d)
  then obtain f where e: "e = Suc f" "d \<le> f" by (cases e) auto
  show ?case
  proof (cases j)
    case (JArr js)
    then show ?thesis using Suc.prems(1) e by (auto simp: list_all_iff intro: Suc.IH)
  next
    case (JObj ms)
    then show ?thesis using Suc.prems(1) e by (auto simp: list_all_iff intro: Suc.IH)
  qed (use Suc.prems in simp_all)
qed

end
