(* ===== verification/Go_Base64.thy ===== *)
theory Go_Base64
  imports Go_Strings
begin

text \<open>\<open>base64.StdEncoding\<close>: the decoder skips line breaks and ignores the bits that padding leaves over.\<close>

definition b64_char :: "nat \<Rightarrow> char" where
  "b64_char n =
     char_of (if n < 26 then 65 + n else if n < 52 then 71 + n else if n < 62 then n - 4 else if n = 62 then 43 else 47)"

definition b64_val :: "char \<Rightarrow> nat option" where
  "b64_val c =
     (let b = byte c in
      if 65 \<le> b \<and> b \<le> 90 then Some (b - 65)
      else if 97 \<le> b \<and> b \<le> 122 then Some (b - 71)
      else if is_digit c then Some (b + 4)
      else if b = 43 then Some 62 else if b = 47 then Some 63 else None)"

fun base64_Encode :: "string \<Rightarrow> string" where
  "base64_Encode (x # y # z # r) =
     b64_char (byte x div 4) # b64_char (byte x mod 4 * 16 + byte y div 16) #
     b64_char (byte y mod 16 * 4 + byte z div 64) # b64_char (byte z mod 64) # base64_Encode r"
| "base64_Encode [x, y] =
     [b64_char (byte x div 4), b64_char (byte x mod 4 * 16 + byte y div 16), b64_char (byte y mod 16 * 4), CHR ''='']"
| "base64_Encode [x] = [b64_char (byte x div 4), b64_char (byte x mod 4 * 16), CHR ''='', CHR ''='']"
| "base64_Encode [] = []"

definition b64_bytes :: "nat \<Rightarrow> nat \<Rightarrow> nat \<Rightarrow> nat \<Rightarrow> string" where
  "b64_bytes a b c d = map char_of [a * 4 + b div 16, b mod 16 * 16 + c div 4, c mod 4 * 64 + d]"

fun b64_groups :: "string \<Rightarrow> string option" where
  "b64_groups [] = Some []"
| "b64_groups (w # x # y # z # r) =
     (case (b64_val w, b64_val x) of
        (Some a, Some b) \<Rightarrow>
          if y = CHR ''='' then if z = CHR ''='' \<and> r = [] then Some (take 1 (b64_bytes a b 0 0)) else None
          else (case b64_val y of
             None \<Rightarrow> None
           | Some c \<Rightarrow>
               if z = CHR ''='' then if r = [] then Some (take 2 (b64_bytes a b c 0)) else None
               else (case b64_val z of
                  None \<Rightarrow> None
                | Some d \<Rightarrow> map_option (append (b64_bytes a b c d)) (b64_groups r)))
      | _ \<Rightarrow> None)"
| "b64_groups _ = None"

definition base64_Decode :: "string \<Rightarrow> string option" where
  "base64_Decode s = b64_groups (filter (\<lambda>c. byte c \<noteq> 10 \<and> byte c \<noteq> 13) s)"

lemma byte_b64_char:
  "n < 64 \<Longrightarrow> byte (b64_char n) =
     (if n < 26 then 65 + n else if n < 52 then 71 + n else if n < 62 then n - 4 else if n = 62 then 43 else 47)"
  by (simp add: b64_char_def byte_def)

lemma b64_val_char [simp]: "n < 64 \<Longrightarrow> b64_val (b64_char n) = Some n"
  by (auto simp: b64_val_def byte_b64_char Let_def is_digit_def)

lemma b64_char_plain:
  assumes "n < 64"
  shows "b64_char n \<noteq> CHR ''=''" "byte (b64_char n) \<noteq> 10" "byte (b64_char n) \<noteq> 13"
    "byte (b64_char n) < 0x80" "byte (b64_char n) \<noteq> 0x22" "byte (b64_char n) \<noteq> 0x5C" "\<not> byte (b64_char n) < 0x20"
proof -
  note b = byte_b64_char [OF assms]
  have "byte (b64_char n) \<noteq> byte (CHR ''='')" using assms unfolding b by (auto simp: byte_def)
  then show "b64_char n \<noteq> CHR ''=''" by auto
qed (use assms in \<open>auto simp: byte_b64_char\<close>)

lemma byte_bound: "byte c < 256"
  by (simp add: byte_def)

lemma sextet_bounds [simp]:
  "byte x div 4 < 64" "byte x mod 4 * 16 + byte y div 16 < 64" "byte y mod 16 * 4 + byte z div 64 < 64"
  "byte z mod 64 < 64" "byte x mod 4 * 16 < 64" "byte y mod 16 * 4 < 64"
proof -
  show "byte x mod 4 * 16 + byte y div 16 < 64" "byte y mod 16 * 4 + byte z div 64 < 64"
    using byte_bound [of y] byte_bound [of z] mod_less_divisor [of 4 "byte x"] mod_less_divisor [of 16 "byte y"] by linarith+
  show "byte x mod 4 * 16 < 64" "byte y mod 16 * 4 < 64" "byte z mod 64 < 64"
    using mod_less_divisor [of 4 "byte x"] mod_less_divisor [of 16 "byte y"] by simp_all
  show "byte x div 4 < 64" using byte_bound [of x] by (simp add: less_mult_imp_div_less)
qed

lemma char_of_byte [simp]: "char_of (byte c) = c"
  by (simp add: byte_def)

lemma b64_bytes_sextets:
  "b64_bytes (byte x div 4) (byte x mod 4 * 16 + byte y div 16) (byte y mod 16 * 4 + byte z div 64) (byte z mod 64) = [x, y, z]"
proof -
  have "byte y div 16 < 16" "byte z div 64 < 4" using byte_bound [of y] byte_bound [of z] by (simp_all add: less_mult_imp_div_less)
  then have "byte x div 4 * 4 + (byte x mod 4 * 16 + byte y div 16) div 16 = byte x"
    "(byte x mod 4 * 16 + byte y div 16) mod 16 * 16 + (byte y mod 16 * 4 + byte z div 64) div 4 = byte y"
    "(byte y mod 16 * 4 + byte z div 64) mod 4 * 64 + byte z mod 64 = byte z"
    by (simp_all add: mult.commute)
  then show ?thesis unfolding b64_bytes_def by simp
qed

lemma zero_byte: "byte (CHR 0x00) = 0"
  by (simp add: byte_def)

lemma b64_groups_Encode: "b64_groups (base64_Encode s) = Some s"
proof (induction s rule: base64_Encode.induct)
  case (2 x y)
  then show ?case using b64_bytes_sextets [of x y "CHR 0x00"] by (simp add: b64_char_plain zero_byte)
next
  case (3 x)
  then show ?case using b64_bytes_sextets [of x "CHR 0x00" "CHR 0x00"] by (simp add: zero_byte)
qed (simp_all add: b64_char_plain b64_bytes_sextets)

lemma base64_Encode_plain:
  "c \<in> set (base64_Encode s) \<Longrightarrow> byte c \<noteq> 10 \<and> byte c \<noteq> 13 \<and> byte c < 0x80 \<and> byte c \<noteq> 0x22 \<and> byte c \<noteq> 0x5C \<and> \<not> byte c < 0x20"
proof (induction s rule: base64_Encode.induct)
  case (1 x y z r)
  then show ?case by (auto simp: b64_char_plain)
qed (auto simp: b64_char_plain byte_def [of "CHR ''=''"])

theorem base64_Decode_Encode: "base64_Decode (base64_Encode s) = Some s"
proof -
  have "filter (\<lambda>c. byte c \<noteq> 10 \<and> byte c \<noteq> 13) (base64_Encode s) = base64_Encode s"
    using base64_Encode_plain by (auto simp: filter_id_conv)
  then show ?thesis by (simp add: base64_Decode_def b64_groups_Encode)
qed

end
