(* ===== verification/Go_Unmarshal.thy ===== *)
theory Go_Unmarshal
  imports Go_Json Go_Base64 Go_Time
begin

text \<open>
  How the JSON decoder stores a value in a variable of a Go type. A store function takes the JSON value and the
  old contents, because \<open>null\<close> leaves most variables as they are and a repeated key of an object is
  stored on top of the first. \<^const>\<open>None\<close> is a type error.
\<close>

type_synonym 'a store = "json \<Rightarrow> 'a \<Rightarrow> 'a option"
type_synonym 'a fields = "(string \<times> 'a store) list"

section \<open>Scalars\<close>

definition store_string :: "string store" where
  "store_string j old = (case j of JNull \<Rightarrow> Some old | JStr raw \<Rightarrow> json_unquote raw | _ \<Rightarrow> None)"

definition store_uint :: "'w::len word store" where
  "store_uint j old =
     (case j of
        JNull \<Rightarrow> Some old
      | JNum raw \<Rightarrow> map_option word_of_nat (ParseUint LENGTH('w) raw)
      | _ \<Rightarrow> None)"

text \<open>\<open>time.Time.UnmarshalJSON\<close> reads the text of the literal as it stands.\<close>

definition store_time :: "gtime store" where
  "store_time j old = (case j of JNull \<Rightarrow> Some old | JStr raw \<Rightarrow> time_Unmarshal raw | _ \<Rightarrow> None)"

section \<open>Slices and maps\<close>

text \<open>The elements are stored over those of the old slice, then over zero values.\<close>

fun store_elements :: "'a store \<Rightarrow> 'a \<Rightarrow> json list \<Rightarrow> 'a list \<Rightarrow> 'a list option" where
  "store_elements st zero [] old = Some []"
| "store_elements st zero (j # js) old =
     do { x \<leftarrow> st j (case old of [] \<Rightarrow> zero | y # _ \<Rightarrow> y);
          xs \<leftarrow> store_elements st zero js (case old of [] \<Rightarrow> [] | _ # ys \<Rightarrow> ys);
          Some (x # xs) }"

definition store_slice :: "'a store \<Rightarrow> 'a \<Rightarrow> 'a list store" where
  "store_slice st zero j old =
     (case j of JNull \<Rightarrow> Some [] | JArr js \<Rightarrow> store_elements st zero js old | _ \<Rightarrow> None)"

text \<open>A byte slice is a base64 string, but an array of numbers is accepted too.\<close>

definition store_bytes :: "string store" where
  "store_bytes j old =
     (case j of
        JNull \<Rightarrow> Some []
      | JStr raw \<Rightarrow> Option.bind (json_unquote raw) base64_Decode
      | JArr js \<Rightarrow> map_option (map (\<lambda>w :: 8 word. char_of (unat w)))
          (store_elements store_uint 0 js (map (\<lambda>c. word_of_nat (byte c)) old))
      | _ \<Rightarrow> None)"

fun store_entries :: "'v store \<Rightarrow> 'v \<Rightarrow> (string \<times> json) list \<Rightarrow> (string, 'v) fmap \<Rightarrow> (string, 'v) fmap option" where
  "store_entries st zero [] m = Some m"
| "store_entries st zero ((raw, j) # ms) m =
     do { k \<leftarrow> json_unquote raw; v \<leftarrow> st j zero; store_entries st zero ms (fmupd k v m) }"

definition store_map :: "'v store \<Rightarrow> 'v \<Rightarrow> (string, 'v) fmap option store" where
  "store_map st zero j old =
     (case j of JNull \<Rightarrow> Some None | JObj ms \<Rightarrow> map_option Some (store_entries st zero ms (entries old)) | _ \<Rightarrow> None)"

section \<open>Structs\<close>

text \<open>Keys match field names up to case, where the Kelvin sign and the long s fold to ASCII letters.\<close>

definition fold_char :: "char \<Rightarrow> char" where
  "fold_char c = (if in_range 97 122 c then char_of (byte c - 32) else c)"

fun fold_name :: "string \<Rightarrow> string" where
  "fold_name (a # b # c # s) =
     (if byte a = 226 \<and> byte b = 132 \<and> byte c = 170 then CHR ''K'' # fold_name s
      else if byte a = 197 \<and> byte b = 191 then CHR ''S'' # fold_name (c # s)
      else fold_char a # fold_name (b # c # s))"
| "fold_name [a, b] = (if byte a = 197 \<and> byte b = 191 then [CHR ''S''] else [fold_char a, fold_char b])"
| "fold_name [a] = [fold_char a]"
| "fold_name [] = []"

definition find_field :: "'a fields \<Rightarrow> string \<Rightarrow> 'a store option" where
  "find_field fs key =
     (case map_of fs key of
        Some st \<Rightarrow> Some st
      | None \<Rightarrow> map_option snd (find (\<lambda>f. fold_name (fst f) = fold_name key) fs))"

text \<open>\<open>strict\<close> is \<open>DisallowUnknownFields\<close>.\<close>

fun store_members :: "bool \<Rightarrow> 'a fields \<Rightarrow> (string \<times> json) list \<Rightarrow> 'a \<Rightarrow> 'a option" where
  "store_members strict fs [] x = Some x"
| "store_members strict fs ((raw, j) # ms) x =
     do { key \<leftarrow> json_unquote raw;
          x \<leftarrow> (case find_field fs key of None \<Rightarrow> if strict then None else Some x | Some st \<Rightarrow> st j x);
          store_members strict fs ms x }"

definition store_struct :: "bool \<Rightarrow> 'a fields \<Rightarrow> 'a store" where
  "store_struct strict fs j old =
     (case j of JNull \<Rightarrow> Some old | JObj ms \<Rightarrow> store_members strict fs ms old | _ \<Rightarrow> None)"

text \<open>A field of a struct, with its accessor and its update.\<close>

definition field :: "string \<Rightarrow> ('a \<Rightarrow> 'b) \<Rightarrow> (('b \<Rightarrow> 'b) \<Rightarrow> 'a \<Rightarrow> 'a) \<Rightarrow> 'b store \<Rightarrow> string \<times> 'a store" where
  "field name get upd st = (name, \<lambda>j x. map_option (\<lambda>v. upd (\<lambda>_. v) x) (st j (get x)))"

section \<open>Values of Go types as JSON\<close>

definition json_str :: "string \<Rightarrow> json" where
  "json_str s = JStr (json_escape s)"

definition json_uint :: "'w::len word \<Rightarrow> json" where
  "json_uint w = JNum (Itoa (unat w))"

definition json_time :: "gtime \<Rightarrow> json option" where
  "json_time t = map_option JStr (time_Marshal t)"

definition json_bytes :: "string \<Rightarrow> json" where
  "json_bytes s = JStr (base64_Encode s)"

text \<open>A string field with \<open>omitempty\<close>.\<close>

definition omit_str :: "string \<Rightarrow> string \<Rightarrow> (string \<times> json) list" where
  "omit_str name s = (if s = [] then [] else [(name, json_str s)])"

section \<open>Stored values are read back\<close>

lemma store_string_str [simp]: "utf8_ValidString s \<Longrightarrow> store_string (json_str s) old = Some s"
  by (simp add: store_string_def json_str_def unquote_escape)

lemma store_uint_uint [simp]: "store_uint (json_uint w) old = Some w"
  using unsigned_less [of w, where ?'a = nat]
  by (simp add: store_uint_def json_uint_def ParseUint_Itoa)

lemma store_time_time: "json_time t = Some j \<Longrightarrow> tm_loc t = UTC \<Longrightarrow> store_time j old = Some t"
  by (auto simp: json_time_def store_time_def time_Unmarshal_Marshal)

definition plain_key :: "string \<Rightarrow> bool" where
  "plain_key s \<longleftrightarrow> list_all (\<lambda>c. byte c < 0x80 \<and> byte c \<noteq> 0x22 \<and> byte c \<noteq> 0x5C \<and> \<not> byte c < 0x20) s"

lemma unquote_plain_key: "plain_key s \<Longrightarrow> json_unquote s = Some s"
  by (induction s) (simp_all add: plain_key_def unquote_plain)

lemma scannable_plain_key: "plain_key s \<Longrightarrow> scannable s"
  using scannable_append [OF scan_chunk_plain scannable_Nil, of s] by (simp add: plain_key_def list_all_iff)

lemma store_bytes_bytes [simp]: "store_bytes (json_bytes s) old = Some s"
proof -
  have "plain_key (base64_Encode s)" using base64_Encode_plain by (auto simp: plain_key_def list_all_iff)
  then show ?thesis by (simp add: store_bytes_def json_bytes_def unquote_plain_key base64_Decode_Encode)
qed

lemma store_elements_map:
  "(\<And>x old. x \<in> set xs \<Longrightarrow> st (f x) old = Some x) \<Longrightarrow> store_elements st zero (map f xs) old = Some xs"
  by (induction xs arbitrary: old) simp_all

lemma store_slice_map:
  "(\<And>x old. x \<in> set xs \<Longrightarrow> st (f x) old = Some x) \<Longrightarrow> store_slice st zero (JArr (map f xs)) old = Some xs"
  by (simp add: store_slice_def store_elements_map)

lemma store_entries_map:
  "(\<And>k old. k \<in> set ks \<Longrightarrow> json_unquote (f k) = Some k \<and> st (g k) zero = Some (h k)) \<Longrightarrow>
   store_entries st zero (map (\<lambda>k. (f k, g k)) ks) m = Some (fold (\<lambda>k. fmupd k (h k)) ks m)"
  by (induction ks arbitrary: m) simp_all

lemma store_members_append:
  "store_members strict fs (ms @ ms') x = Option.bind (store_members strict fs ms x) (store_members strict fs ms')"
proof (induction ms arbitrary: x)
  case (Cons m ms)
  have "store_members strict fs (ms @ ms') = (\<lambda>x. Option.bind (store_members strict fs ms x) (store_members strict fs ms'))"
    by (rule ext) (rule Cons.IH)
  then show ?case by (cases m) (simp add: bind_assoc del: if_split)
qed simp

end
