(* ===== verification/Codec.thy ===== *)
theory Codec
  imports Reducer Go_Unmarshal
begin

text \<open>
  The stored form of events and snapshots (\<open>internal/state/codec.go\<close> and \<open>snapshot.go\<close>): JSON objects with
  the field names of the struct tags. Decoding is strict about unknown fields and trailing data and
  validates what it has read. In a map of parameters the empty list stands for an empty slice.
\<close>

section \<open>Structs as JSON\<close>

definition actor_json :: "Actor \<Rightarrow> json" where
  "actor_json a = JObj ((''type'', json_str (actor_Type a)) # omit_str ''id'' (actor_ID a))"

definition metadata_json :: "EventMetadata \<Rightarrow> json option" where
  "metadata_json m = do {
     occurred \<leftarrow> json_time (OccurredAt m);
     Some (JObj [(''schema_version'', json_uint (meta_SchemaVersion m)), (''event_id'', json_str (EventID m)),
       (''occurred_at'', occurred), (''actor'', actor_json (meta_Actor m))]) }"

definition topic_json :: "Topic \<Rightarrow> json option" where
  "topic_json t = do {
     registered \<leftarrow> json_time (RegisteredAt t);
     Some (JObj ([(''id'', json_str (topic_ID t)), (''canonical_url'', json_str (CanonicalURL t)),
       (''content_destination'', json_str (ContentDestination t)), (''content_type'', json_str (topic_ContentType t)),
       (''status'', json_str (topic_Status t)), (''registered_at'', registered)] @
       omit_str ''registered_by'' (RegisteredBy t) @ [(''revision'', json_uint (topic_Revision t))])) }"

definition parameters_json :: "parameters \<Rightarrow> (string \<times> json) list" where
  "parameters_json ps =
     (if entries ps = fmempty then []
      else [(''parameters'', JObj (map (\<lambda>k. (json_escape k, JArr (map json_str (the (mget ps k))))) (sorted_keys ps)))])"

definition subscription_json :: "Subscription \<Rightarrow> json option" where
  "subscription_json b = do {
     started \<leftarrow> json_time (LeaseStartedAt b);
     Some (JObj ([(''id'', json_str (sub_ID b)), (''topic_id'', json_str (sub_TopicID b)),
       (''topic_url'', json_str (TopicURL b)), (''callback_url'', json_str (CallbackURL b))] @
       (if SecretCiphertext b = [] then [] else [(''secret_ciphertext'', json_bytes (SecretCiphertext b))]) @
       omit_str ''secret_key_id'' (SecretKeyID b) @ [(''lease_started_at'', started)] @
       omit_str ''effective_lease_seconds'' (EffectiveLeaseSeconds b) @
       [(''server_id'', json_str (sub_ServerID b)), (''consumer_id'', json_str (sub_ConsumerID b))] @
       parameters_json (Parameters b) @ [(''status'', json_str (sub_Status b))] @
       omit_str ''stale_reason'' (StaleReason b) @ [(''revision'', json_uint (sub_Revision b))])) }"

fun event_members :: "event \<Rightarrow> (string \<times> json) list option" where
  "event_members (TopicRegistered _ t) = do { j \<leftarrow> topic_json t; Some [(''topic'', j)] }"
| "event_members (TopicDeregistered _ k) = Some [(''topic_id'', json_str k)]"
| "event_members (SubscriptionVerified _ b) = do { j \<leftarrow> subscription_json b; Some [(''subscription'', j)] }"
| "event_members (SubscriptionUnsubscribed _ k) = Some [(''subscription_id'', json_str k)]"
| "event_members (SubscriptionStaleEvent _ k reason) =
     Some [(''subscription_id'', json_str k), (''reason'', json_str reason)]"
| "event_members (SubscriptionReactivated _ k) = Some [(''subscription_id'', json_str k)]"
| "event_members (SubscriptionRemovedEvent _ k cause) =
     Some [(''subscription_id'', json_str k), (''cause'', json_str cause)]"

definition event_json :: "event \<Rightarrow> json option" where
  "event_json e = do {
     meta \<leftarrow> metadata_json (event_Metadata e);
     members \<leftarrow> event_members e;
     Some (JObj ((''type'', json_str (eventType e)) # (''meta'', meta) # members)) }"

definition EncodeEvent :: "event option \<Rightarrow> string result" where
  "EncodeEvent ev =
     (case validateEvent ev of
        Some err \<Rightarrow> Inl err
      | None \<Rightarrow> (case event_json (the ev) of None \<Rightarrow> Inl (Error ''json'') | Some j \<Rightarrow> Inr (json_text j)))"

section \<open>Decoding\<close>

text \<open>\<open>requireEOF\<close>: anything but white space after the value is an error.\<close>

definition requireEOF :: "string \<Rightarrow> goerr option" where
  "requireEOF rest = (if skip_ws rest = [] then None else Some (Error ''trailing JSON value''))"

definition decodeStrict :: "'a fields \<Rightarrow> 'a \<Rightarrow> string \<Rightarrow> 'a result" where
  "decodeStrict fs zero data =
     (case decode_value data of
        None \<Rightarrow> Inl (Error ''json'')
      | Some (j, rest) \<Rightarrow>
          (case store_struct True fs j zero of
             None \<Rightarrow> Inl (Error ''json'')
           | Some x \<Rightarrow> (case requireEOF rest of Some err \<Rightarrow> Inl err | None \<Rightarrow> Inr x)))"

definition actor_fields :: "Actor fields" where
  "actor_fields = [field ''type'' actor_Type actor_Type_update store_string, field ''id'' actor_ID actor_ID_update store_string]"

definition metadata_fields :: "EventMetadata fields" where
  "metadata_fields =
     [field ''schema_version'' meta_SchemaVersion meta_SchemaVersion_update store_uint,
      field ''event_id'' EventID EventID_update store_string,
      field ''occurred_at'' OccurredAt OccurredAt_update store_time,
      field ''actor'' meta_Actor meta_Actor_update (store_struct True actor_fields)]"

definition topic_fields :: "Topic fields" where
  "topic_fields =
     [field ''id'' topic_ID topic_ID_update store_string,
      field ''canonical_url'' CanonicalURL CanonicalURL_update store_string,
      field ''content_destination'' ContentDestination ContentDestination_update store_string,
      field ''content_type'' topic_ContentType topic_ContentType_update store_string,
      field ''status'' topic_Status topic_Status_update store_string,
      field ''registered_at'' RegisteredAt RegisteredAt_update store_time,
      field ''registered_by'' RegisteredBy RegisteredBy_update store_string,
      field ''revision'' topic_Revision topic_Revision_update store_uint]"

definition subscription_fields :: "Subscription fields" where
  "subscription_fields =
     [field ''id'' sub_ID sub_ID_update store_string,
      field ''topic_id'' sub_TopicID sub_TopicID_update store_string,
      field ''topic_url'' TopicURL TopicURL_update store_string,
      field ''callback_url'' CallbackURL CallbackURL_update store_string,
      field ''secret_ciphertext'' SecretCiphertext SecretCiphertext_update store_bytes,
      field ''secret_key_id'' SecretKeyID SecretKeyID_update store_string,
      field ''lease_started_at'' LeaseStartedAt LeaseStartedAt_update store_time,
      field ''effective_lease_seconds'' EffectiveLeaseSeconds EffectiveLeaseSeconds_update store_string,
      field ''server_id'' sub_ServerID sub_ServerID_update store_string,
      field ''consumer_id'' sub_ConsumerID sub_ConsumerID_update store_string,
      field ''parameters'' Parameters Parameters_update (store_map (store_slice store_string []) []),
      field ''status'' sub_Status sub_Status_update store_string,
      field ''stale_reason'' StaleReason StaleReason_update store_string,
      field ''revision'' sub_Revision sub_Revision_update store_uint]"

text \<open>The variables the decoder fills; each kind of event has some of these fields.\<close>

record wire_event =
  wire_Type :: string
  wire_Meta :: EventMetadata
  wire_Topic :: Topic
  wire_TopicID :: string
  wire_Subscription :: Subscription
  wire_SubscriptionID :: string
  wire_Reason :: string
  wire_Cause :: string

definition zero_metadata :: EventMetadata where
  "zero_metadata = \<lparr>meta_SchemaVersion = 0, EventID = [], OccurredAt = zero_time, meta_Actor = \<lparr>actor_Type = [], actor_ID = []\<rparr>\<rparr>"

definition zero_wire :: wire_event where
  "zero_wire = \<lparr>wire_Type = [], wire_Meta = zero_metadata, wire_Topic = zero_Topic, wire_TopicID = [],
     wire_Subscription = zero_Subscription, wire_SubscriptionID = [], wire_Reason = [], wire_Cause = []\<rparr>"

definition type_field :: "string \<times> wire_event store" where
  "type_field = field ''type'' wire_Type wire_Type_update store_string"

definition meta_field :: "string \<times> wire_event store" where
  "meta_field = field ''meta'' wire_Meta wire_Meta_update (store_struct True metadata_fields)"

definition subscription_id_field :: "string \<times> wire_event store" where
  "subscription_id_field = field ''subscription_id'' wire_SubscriptionID wire_SubscriptionID_update store_string"

text \<open>By type: the further fields of the event, and the event made of them.\<close>

definition event_wires :: "(string \<times> wire_event fields \<times> (wire_event \<Rightarrow> event)) list" where
  "event_wires =
     [(''topic_registered'', [field ''topic'' wire_Topic wire_Topic_update (store_struct True topic_fields)],
         \<lambda>w. TopicRegistered (wire_Meta w) (wire_Topic w)),
      (''topic_deregistered'', [field ''topic_id'' wire_TopicID wire_TopicID_update store_string],
         \<lambda>w. TopicDeregistered (wire_Meta w) (wire_TopicID w)),
      (''subscription_verified'',
         [field ''subscription'' wire_Subscription wire_Subscription_update (store_struct True subscription_fields)],
         \<lambda>w. SubscriptionVerified (wire_Meta w) (wire_Subscription w)),
      (''subscription_unsubscribed'', [subscription_id_field],
         \<lambda>w. SubscriptionUnsubscribed (wire_Meta w) (wire_SubscriptionID w)),
      (''subscription_stale'', [subscription_id_field, field ''reason'' wire_Reason wire_Reason_update store_string],
         \<lambda>w. SubscriptionStaleEvent (wire_Meta w) (wire_SubscriptionID w) (wire_Reason w)),
      (''subscription_reactivated'', [subscription_id_field],
         \<lambda>w. SubscriptionReactivated (wire_Meta w) (wire_SubscriptionID w)),
      (''subscription_removed'', [subscription_id_field, field ''cause'' wire_Cause wire_Cause_update store_string],
         \<lambda>w. SubscriptionRemovedEvent (wire_Meta w) (wire_SubscriptionID w) (wire_Cause w))]"

definition DecodeEvent :: "string \<Rightarrow> event result" where
  "DecodeEvent data =
     (case Option.bind (decode_value data) (\<lambda>(j, _). store_struct False [type_field] j zero_wire) of
        None \<Rightarrow> Inl (Wrap ''decode event header'' (Error ''json''))
      | Some header \<Rightarrow>
          (case map_of event_wires (wire_Type header) of
             None \<Rightarrow> Inl (Error ''unknown state event type'')
           | Some (fs, mk) \<Rightarrow>
               (case decodeStrict (type_field # meta_field # fs) zero_wire data of
                  Inl err \<Rightarrow> Inl (Wrap ''decode event'' err)
                | Inr wire \<Rightarrow>
                    (case validateEvent (Some (mk wire)) of Some err \<Rightarrow> Inl err | None \<Rightarrow> Inr (mk wire)))))"

section \<open>What is stored as it is\<close>

text \<open>Values whose stored form loses nothing: strings are UTF-8 and times are in UTC, and a map of parameters
  that is empty is nil.\<close>

definition portable_metadata :: "EventMetadata \<Rightarrow> bool" where
  "portable_metadata m \<longleftrightarrow>
     list_all utf8_ValidString [EventID m, actor_Type (meta_Actor m), actor_ID (meta_Actor m)] \<and> tm_loc (OccurredAt m) = UTC"

definition portable_topic :: "Topic \<Rightarrow> bool" where
  "portable_topic t \<longleftrightarrow>
     list_all utf8_ValidString [topic_ID t, CanonicalURL t, ContentDestination t, topic_ContentType t, topic_Status t, RegisteredBy t] \<and>
     tm_loc (RegisteredAt t) = UTC"

definition portable_parameters :: "parameters \<Rightarrow> bool" where
  "portable_parameters ps \<longleftrightarrow>
     ps \<noteq> Some fmempty \<and> range_all (\<lambda>k vs. utf8_ValidString k \<and> list_all utf8_ValidString vs) ps"

definition portable_subscription :: "Subscription \<Rightarrow> bool" where
  "portable_subscription b \<longleftrightarrow>
     list_all utf8_ValidString [sub_ID b, sub_TopicID b, TopicURL b, CallbackURL b, SecretKeyID b, EffectiveLeaseSeconds b,
       sub_ServerID b, sub_ConsumerID b, sub_Status b, StaleReason b] \<and>
     tm_loc (LeaseStartedAt b) = UTC \<and> portable_parameters (Parameters b)"

fun portable_event :: "event \<Rightarrow> bool" where
  "portable_event (TopicRegistered m t) = (portable_metadata m \<and> portable_topic t)"
| "portable_event (TopicDeregistered m k) = (portable_metadata m \<and> utf8_ValidString k)"
| "portable_event (SubscriptionVerified m b) = (portable_metadata m \<and> portable_subscription b)"
| "portable_event (SubscriptionUnsubscribed m k) = (portable_metadata m \<and> utf8_ValidString k)"
| "portable_event (SubscriptionStaleEvent m k r) = (portable_metadata m \<and> utf8_ValidString k \<and> utf8_ValidString r)"
| "portable_event (SubscriptionReactivated m k) = (portable_metadata m \<and> utf8_ValidString k)"
| "portable_event (SubscriptionRemovedEvent m k c) = (portable_metadata m \<and> utf8_ValidString k \<and> utf8_ValidString c)"

section \<open>Structs are read back\<close>

lemma store_members_key:
  "plain_key name \<Longrightarrow> find_field fs name = Some st \<Longrightarrow>
   store_members strict fs ((name, j) # ms) x = Option.bind (st j x) (store_members strict fs ms)"
  by (simp add: unquote_plain_key)

lemma omit_str_store:
  assumes "plain_key name" "find_field fs name = Some (snd (field name get upd store_string))"
    "utf8_ValidString s" "upd (\<lambda>_. []) x = x"
  shows "store_members strict fs (omit_str name s) x = Some (upd (\<lambda>_. s) x)"
  using assms by (simp add: omit_str_def unquote_plain_key field_def)

lemma find_field_map: "map_of fs name = Some st \<Longrightarrow> find_field fs name = Some st"
  by (simp add: find_field_def)

lemma store_struct_JObj: "store_struct strict fs (JObj ms) old = store_members strict fs ms old"
  by (simp add: store_struct_def)

lemmas keys = plain_key_def byte_def
lemmas read_back = store_members_append find_field_map field_def unquote_plain_key

lemma actor_read: 
  assumes "list_all utf8_ValidString [actor_Type a, actor_ID a]"
  shows "store_struct True actor_fields (actor_json a) \<lparr>actor_Type = [], actor_ID = []\<rparr> = Some a"
  using assms
  by (simp add: store_struct_JObj actor_json_def actor_fields_def omit_str_def field_def find_field_map unquote_plain_key keys)

lemma metadata_read:
  assumes "metadata_json m = Some j" "portable_metadata m"
  shows "store_struct True metadata_fields j zero_metadata = Some m"
proof -
  obtain occurred where "json_time (OccurredAt m) = Some occurred" using assms(1) by (auto simp: metadata_json_def split: bind_splits)
  then show ?thesis using assms actor_read [of "meta_Actor m"] store_time_time [of "OccurredAt m" occurred]
    by (auto simp: store_struct_JObj metadata_json_def metadata_fields_def portable_metadata_def zero_metadata_def read_back keys)
qed

lemma topic_read:
  assumes "topic_json t = Some j" "portable_topic t"
  shows "store_struct True topic_fields j zero_Topic = Some t"
proof -
  obtain registered where "json_time (RegisteredAt t) = Some registered" using assms(1) by (auto simp: topic_json_def split: bind_splits)
  then show ?thesis using assms store_time_time [of "RegisteredAt t" registered]
    by (auto simp: store_struct_JObj topic_json_def topic_fields_def portable_topic_def zero_Topic_def omit_str_def read_back keys)
qed

lemma parameters_read:
  assumes "portable_parameters ps"
  shows "store_members True subscription_fields (parameters_json ps) (b\<lparr>Parameters := None\<rparr>) = Some (b\<lparr>Parameters := ps\<rparr>)"
proof (cases "entries ps = fmempty")
  case True
  then have "ps = None" using assms by (cases ps) (auto simp: portable_parameters_def entries_def)
  with True show ?thesis by (simp add: parameters_json_def)
next
  case False
  let ?st = "store_slice store_string []" and ?g = "\<lambda>k. JArr (map json_str (the (mget ps k)))"
  have "json_unquote (json_escape k) = Some k \<and> ?st (?g k) [] = Some (the (mget ps k))" if k: "k \<in> set (sorted_keys ps)" for k
  proof -
    obtain vs where "mget ps k = Some vs" using range_order_mget [OF range_order_sorted_keys [of ps], of k] k by (cases "mget ps k") simp_all
    then have "utf8_ValidString k" "\<forall>v\<in>set vs. utf8_ValidString v"
      using assms by (auto simp: portable_parameters_def range_all_iff list_all_iff)
    then show ?thesis using \<open>mget ps k = Some vs\<close> by (simp add: unquote_escape store_slice_map)
  qed
  then have "store_entries ?st [] (map (\<lambda>k. (json_escape k, ?g k)) (sorted_keys ps)) fmempty =
      Some (fold (\<lambda>k. fmupd k (the (mget ps k))) (sorted_keys ps) fmempty)"
    by (rule store_entries_map)
  also have "fold (\<lambda>k. fmupd k (the (mget ps k))) (sorted_keys ps) fmempty = entries ps"
    using range_order_sorted_keys [of ps] unfolding mget_def range_order_def by (intro fold_fmupd_all) simp
  finally have e: "store_entries ?st [] (map (\<lambda>k. (json_escape k, ?g k)) (sorted_keys ps)) (entries None) = Some (entries ps)"
    by (simp add: entries_def)
  have ps: "Some (entries ps) = ps" using False by (cases ps) (auto simp: entries_def)
  have "store_map ?st [] (JObj (map (\<lambda>k. (json_escape k, ?g k)) (sorted_keys ps))) None = Some ps"
    by (simp only: store_map_def json.case e option.map(2)) (simp only: ps)
  moreover have "find_field subscription_fields ''parameters'' = Some (snd (field ''parameters'' Parameters Parameters_update (store_map ?st [])))"
    by (rule find_field_map) (simp add: subscription_fields_def field_def)
  moreover have "plain_key ''parameters''" by (simp add: keys)
  ultimately show ?thesis using False by (simp add: parameters_json_def store_members_key field_def del: store_members.simps(2))
qed

lemma subscription_omitted:
  assumes "portable_subscription b"
  shows "SecretKeyID x = [] \<Longrightarrow> store_members True subscription_fields (omit_str ''secret_key_id'' (SecretKeyID b)) x =
           Some (x\<lparr>SecretKeyID := SecretKeyID b\<rparr>)"
    "EffectiveLeaseSeconds x = [] \<Longrightarrow>
       store_members True subscription_fields (omit_str ''effective_lease_seconds'' (EffectiveLeaseSeconds b)) x =
         Some (x\<lparr>EffectiveLeaseSeconds := EffectiveLeaseSeconds b\<rparr>)"
    "StaleReason x = [] \<Longrightarrow> store_members True subscription_fields (omit_str ''stale_reason'' (StaleReason b)) x =
       Some (x\<lparr>StaleReason := StaleReason b\<rparr>)"
    "SecretCiphertext x = [] \<Longrightarrow>
       store_members True subscription_fields
         (if SecretCiphertext b = [] then [] else [(''secret_ciphertext'', json_bytes (SecretCiphertext b))]) x =
         Some (x\<lparr>SecretCiphertext := SecretCiphertext b\<rparr>)"
    "Parameters x = None \<Longrightarrow> store_members True subscription_fields (parameters_json (Parameters b)) x =
       Some (x\<lparr>Parameters := Parameters b\<rparr>)"
proof -
  show "Parameters x = None \<Longrightarrow> store_members True subscription_fields (parameters_json (Parameters b)) x =
       Some (x\<lparr>Parameters := Parameters b\<rparr>)"
    using parameters_read [of "Parameters b" x] assms by (cases x) (simp add: portable_subscription_def)
qed (cases x, use assms in \<open>simp add: portable_subscription_def omit_str_def subscription_fields_def read_back keys\<close>)+

lemma subscription_read:
  assumes "subscription_json b = Some j" "portable_subscription b"
  shows "store_struct True subscription_fields j zero_Subscription = Some b"
proof -
  obtain started where t: "json_time (LeaseStartedAt b) = Some started"
    using assms(1) by (auto simp: subscription_json_def split: bind_splits)
  have str: "store_members True subscription_fields [(''id'', json_str (sub_ID b)), (''topic_id'', json_str (sub_TopicID b)),
       (''topic_url'', json_str (TopicURL b)), (''callback_url'', json_str (CallbackURL b))] x =
       Some (x\<lparr>sub_ID := sub_ID b, sub_TopicID := sub_TopicID b, TopicURL := TopicURL b, CallbackURL := CallbackURL b\<rparr>)"
    "store_members True subscription_fields [(''lease_started_at'', started)] x = Some (x\<lparr>LeaseStartedAt := LeaseStartedAt b\<rparr>)"
    "store_members True subscription_fields [(''server_id'', json_str (sub_ServerID b)), (''consumer_id'', json_str (sub_ConsumerID b))] x =
       Some (x\<lparr>sub_ServerID := sub_ServerID b, sub_ConsumerID := sub_ConsumerID b\<rparr>)"
    "store_members True subscription_fields [(''status'', json_str (sub_Status b))] x = Some (x\<lparr>sub_Status := sub_Status b\<rparr>)"
    "store_members True subscription_fields [(''revision'', json_uint (sub_Revision b))] x = Some (x\<lparr>sub_Revision := sub_Revision b\<rparr>)" for x
    using assms(2) store_time_time [OF t] by (simp_all add: portable_subscription_def subscription_fields_def read_back keys)
  have "store_struct True subscription_fields j zero_Subscription =
      Some (zero_Subscription\<lparr>sub_ID := sub_ID b, sub_TopicID := sub_TopicID b, TopicURL := TopicURL b, CallbackURL := CallbackURL b,
        SecretCiphertext := SecretCiphertext b, SecretKeyID := SecretKeyID b, LeaseStartedAt := LeaseStartedAt b,
        EffectiveLeaseSeconds := EffectiveLeaseSeconds b, sub_ServerID := sub_ServerID b, sub_ConsumerID := sub_ConsumerID b,
        Parameters := Parameters b, sub_Status := sub_Status b, StaleReason := StaleReason b, sub_Revision := sub_Revision b\<rparr>)"
    using assms(1) unfolding subscription_json_def t Option.bind.simps option.inject
    by (auto simp only: store_struct_JObj store_members_append Option.bind.simps str subscription_omitted [OF assms(2)]
        zero_Subscription_def Subscription.simps)
  then show ?thesis by (simp add: zero_Subscription_def)
qed

section \<open>The text is well formed\<close>

lemma plain_key_append [simp]: "plain_key (s @ t) \<longleftrightarrow> plain_key s \<and> plain_key t"
  by (simp add: plain_key_def)

lemma plain_key_digits: "list_all is_digit s \<Longrightarrow> plain_key s"
  by (auto simp: plain_key_def list_all_iff is_digit_def)

lemma plain_key_appendInt: "plain_key (appendInt w n)"
proof -
  have "plain_key (replicate k (CHR ''0''))" for k by (induction k) (simp_all add: keys)
  then show ?thesis using plain_key_digits [of "Itoa (nat \<bar>n\<bar>)"] Itoa_digits by (simp add: appendInt_def Let_def keys)
qed

lemma plain_key_trim: "plain_key s \<Longrightarrow> plain_key (trim_zeros s)"
  using trim_zeros_split [of s] by (metis plain_key_append)

lemma plain_key_Cons:
  "plain_key (c # s) \<longleftrightarrow> byte c < 0x80 \<and> byte c \<noteq> 0x22 \<and> byte c \<noteq> 0x5C \<and> \<not> byte c < 0x20 \<and> plain_key s" "plain_key []"
  by (auto simp: plain_key_def)

lemma plain_key_time:
  assumes "time_Marshal t = Some s"
  shows "plain_key s"
proof -
  have "s = format_RFC3339Nano t" using assms by (simp add: time_Marshal_def Let_def split: if_splits)
  moreover have "plain_key (fraction n)" "plain_key (format_zone z)" for n z
    using plain_key_trim [OF plain_key_appendInt]
    by (simp_all add: fraction_def format_zone_def Let_def plain_key_appendInt plain_key_Cons byte_def)
  ultimately show ?thesis
    by (simp add: format_RFC3339Nano_def Let_def plain_key_appendInt plain_key_Cons byte_def split: prod.splits)
qed

lemma json_ok_str: "json_ok d (json_str s)"
  by (simp add: json_str_def scannable_escape)

lemma json_ok_uint: "json_ok d (json_uint w)"
  by (simp add: json_uint_def plain_number_Itoa)

lemma json_ok_time: "json_time t = Some j \<Longrightarrow> json_ok d j"
  by (auto simp: json_time_def dest!: plain_key_time intro: scannable_plain_key)

lemma json_ok_bytes: "json_ok d (json_bytes s)"
  using base64_Encode_plain by (auto simp: json_bytes_def plain_key_def list_all_iff intro!: scannable_plain_key)

lemmas json_ok_scalars = json_ok_str json_ok_uint json_ok_time json_ok_bytes

definition members_ok :: "nat \<Rightarrow> (string \<times> json) list \<Rightarrow> bool" where
  "members_ok d ms \<longleftrightarrow> list_all (\<lambda>m. scannable (fst m) \<and> json_ok d (snd m)) ms"

lemma members_ok_simps:
  "members_ok d []" "members_ok d (ms @ ms') \<longleftrightarrow> members_ok d ms \<and> members_ok d ms'"
  "plain_key k \<Longrightarrow> members_ok d ((k, j) # ms) \<longleftrightarrow> json_ok d j \<and> members_ok d ms"
  "plain_key k \<Longrightarrow> members_ok d (omit_str k s)"
  by (simp_all add: members_ok_def scannable_plain_key omit_str_def json_ok_str)

lemma json_ok_JObj: "json_ok (Suc d) (JObj ms) \<longleftrightarrow> members_ok d ms"
  by (simp add: members_ok_def)

lemma parameters_ok: "members_ok (Suc (Suc d)) (parameters_json ps)"
  by (auto simp: parameters_json_def members_ok_def list_all_iff json_ok_str scannable_escape intro!: scannable_plain_key)
    (simp add: keys)

lemma structs_ok:
  "metadata_json m = Some j \<Longrightarrow> json_ok (Suc (Suc d)) j"
  "topic_json t = Some j \<Longrightarrow> json_ok (Suc d) j"
  "subscription_json b = Some j \<Longrightarrow> json_ok (Suc (Suc (Suc d))) j"
proof -
  show "metadata_json m = Some j \<Longrightarrow> json_ok (Suc (Suc d)) j"
    by (auto simp: metadata_json_def actor_json_def json_ok_JObj members_ok_simps json_ok_scalars keys simp del: json_ok.simps(4) split: bind_splits)
  show "topic_json t = Some j \<Longrightarrow> json_ok (Suc d) j"
    by (auto simp: topic_json_def json_ok_JObj members_ok_simps json_ok_scalars keys simp del: json_ok.simps(4) split: bind_splits)
  show "subscription_json b = Some j \<Longrightarrow> json_ok (Suc (Suc (Suc d))) j"
    by (auto simp: subscription_json_def json_ok_JObj members_ok_simps json_ok_scalars parameters_ok keys simp del: json_ok.simps(4) split: bind_splits)
qed

section \<open>Events are read back\<close>

lemma eventType_utf8: "utf8_ValidString (eventType e)"
  by (cases e) (simp_all, code_simp+)

lemma event_json_ok:
  assumes "event_json e = Some j"
  shows "json_ok maxNestingDepth j"
proof -
  have "json_ok (Suc (Suc (Suc (Suc 0)))) j"
    using assms
    by (cases e) (auto simp: event_json_def json_ok_JObj members_ok_simps json_ok_scalars structs_ok keys
        simp del: json_ok.simps(4) split: bind_splits)
  then show ?thesis by (rule json_ok_mono) (simp add: maxNestingDepth_def)
qed

lemma header_read:
  assumes "utf8_ValidString ty" "list_all (\<lambda>m. plain_key (fst m) \<and> fold_name (fst m) \<noteq> fold_name ''type'') ms"
  shows "store_struct False [type_field] (JObj ((''type'', json_str ty) # ms)) zero_wire = Some (zero_wire\<lparr>wire_Type := ty\<rparr>)"
proof -
  have "store_members False [type_field] ms x = Some x" for x
    using assms(2)
  proof (induction ms)
    case (Cons m ms)
    have "find_field [type_field] (fst m) = None"
      using Cons.prems by (auto simp: find_field_def type_field_def field_def)
    with Cons show ?case by (cases m) (simp add: unquote_plain_key)
  qed simp
  then show ?thesis using assms(1)
    by (simp add: store_struct_JObj type_field_def field_def find_field_map unquote_plain_key keys)
qed

lemma decodeStrict_text:
  assumes "json_ok maxNestingDepth j" "store_struct True fs j zero = Some x"
  shows "decodeStrict fs zero (json_text j) = Inr x"
  using assms by (simp add: decodeStrict_def decode_value_text requireEOF_def skip_ws_def)

lemma meta_read:
  assumes "metadata_json m = Some j" "portable_metadata m" "map_of fs ''meta'' = Some (snd meta_field)"
    "map_of fs ''type'' = Some (snd type_field)" "utf8_ValidString ty"
  shows "store_struct True fs (JObj ((''type'', json_str ty) # (''meta'', j) # ms)) zero_wire =
           store_members True fs ms (zero_wire\<lparr>wire_Type := ty, wire_Meta := m\<rparr>)"
  using assms metadata_read [OF assms(1,2)]
  by (simp add: store_struct_JObj find_field_map meta_field_def type_field_def field_def unquote_plain_key keys zero_wire_def)

lemma members_read:
  assumes "event_members e = Some ms" "portable_event e"
  shows "\<exists>fs mk w. map_of event_wires (eventType e) = Some (fs, mk) \<and>
           store_members True (type_field # meta_field # fs) ms (zero_wire\<lparr>wire_Type := ty, wire_Meta := event_Metadata e\<rparr>) = Some w \<and>
           mk w = e"
proof (cases e)
  case (TopicRegistered m t)
  then obtain j where j: "topic_json t = Some j" "ms = [(''topic'', j)]" using assms(1) by (auto split: bind_splits)
  have "store_struct True topic_fields j zero_Topic = Some t" using topic_read [OF j(1)] assms(2) TopicRegistered by simp
  then show ?thesis using TopicRegistered j(2)
    by (simp add: event_wires_def find_field_map field_def type_field_def meta_field_def unquote_plain_key keys zero_wire_def)
next
  case (SubscriptionVerified m b)
  then obtain j where j: "subscription_json b = Some j" "ms = [(''subscription'', j)]" using assms(1) by (auto split: bind_splits)
  have "store_struct True subscription_fields j zero_Subscription = Some b" using subscription_read [OF j(1)] assms(2) SubscriptionVerified by simp
  then show ?thesis using SubscriptionVerified j(2)
    by (simp add: event_wires_def find_field_map field_def type_field_def meta_field_def unquote_plain_key keys zero_wire_def)
qed (use assms in \<open>auto simp: event_wires_def find_field_map field_def type_field_def meta_field_def subscription_id_field_def
      unquote_plain_key keys zero_wire_def\<close>)

lemma event_members_plain:
  "event_members e = Some ms \<Longrightarrow> list_all (\<lambda>m. plain_key (fst m) \<and> fold_name (fst m) \<noteq> fold_name ''type'') ((''meta'', j) # ms)"
  by (cases e) (auto simp: keys fold_char_def in_range_def split: bind_splits)

lemma DecodeEvent_roundtrip:
  assumes "EncodeEvent (Some e) = Inr data" "portable_event e"
  shows "DecodeEvent data = Inr e"
proof -
  from assms(1) obtain j where j: "validateEvent (Some e) = None" "event_json e = Some j" "data = json_text j"
    by (auto simp: EncodeEvent_def split: option.splits)
  obtain meta ms where m: "metadata_json (event_Metadata e) = Some meta" "event_members e = Some ms"
    "j = JObj ((''type'', json_str (eventType e)) # (''meta'', meta) # ms)"
    using j(2) by (auto simp: event_json_def split: bind_splits)
  have header: "store_struct False [type_field] j zero_wire = Some (zero_wire\<lparr>wire_Type := eventType e\<rparr>)"
    unfolding m(3) by (rule header_read [OF eventType_utf8 event_members_plain [OF m(2)]])
  from members_read [OF m(2) assms(2), of "eventType e"] obtain fs mk w where w: "map_of event_wires (eventType e) = Some (fs, mk)"
    "store_members True (type_field # meta_field # fs) ms (zero_wire\<lparr>wire_Type := eventType e, wire_Meta := event_Metadata e\<rparr>) = Some w"
    "mk w = e" by blast
  have p: "portable_metadata (event_Metadata e)" using assms(2) by (cases e) simp_all
  have "map_of (type_field # meta_field # fs) ''meta'' = Some (snd meta_field)" "map_of (type_field # meta_field # fs) ''type'' = Some (snd type_field)"
    by (simp_all add: type_field_def meta_field_def field_def)
  from meta_read [OF m(1) p this eventType_utf8 [of e], of ms] w(2)
  have "decodeStrict (type_field # meta_field # fs) zero_wire data = Inr w"
    unfolding j(3) by (intro decodeStrict_text event_json_ok [OF j(2)]) (simp add: m(3))
  then show ?thesis
    using header w(1,3) j(1) decode_value_text [OF event_json_ok [OF j(2)]] by (simp add: DecodeEvent_def j(3))
qed

section \<open>Snapshots\<close>

record snapshot_wire =
  sw_SchemaVersion :: "16 word"
  sw_Revision :: "64 word"
  sw_Topics :: "Topic list"
  sw_Subscriptions :: "Subscription list"

text \<open>A slice that was only appended to is nil when it is empty.\<close>

definition json_slice :: "('a \<Rightarrow> json option) \<Rightarrow> 'a list \<Rightarrow> json option" where
  "json_slice f xs = (if xs = [] then Some JNull else map_option JArr (those (map f xs)))"

definition snapshot_json :: "snapshot_wire \<Rightarrow> json option" where
  "snapshot_json w = do {
     topics \<leftarrow> json_slice topic_json (sw_Topics w);
     subscriptions \<leftarrow> json_slice subscription_json (sw_Subscriptions w);
     Some (JObj [(''schema_version'', json_uint (sw_SchemaVersion w)), (''revision'', json_uint (sw_Revision w)),
       (''topics'', topics), (''subscriptions'', subscriptions)]) }"

definition map_values :: "(string, 'v) fmap option \<Rightarrow> 'v list" where
  "map_values m = map (\<lambda>k. the (mget m k)) (sorted_keys m)"

definition snapshot_wire_of :: "Snapshot \<Rightarrow> snapshot_wire" where
  "snapshot_wire_of s =
     \<lparr>sw_SchemaVersion = SchemaVersion, sw_Revision = snap_Revision s,
      sw_Topics = sort_key topic_ID (map_values (Topics s)),
      sw_Subscriptions = sort_key sub_ID (map cloneSubscription (map_values (Subscriptions s)))\<rparr>"

definition EncodeSnapshot :: "Snapshot \<Rightarrow> string result" where
  "EncodeSnapshot s =
     (case validateSnapshot s of
        Some err \<Rightarrow> Inl err
      | None \<Rightarrow> (case snapshot_json (snapshot_wire_of s) of None \<Rightarrow> Inl (Error ''json'') | Some j \<Rightarrow> Inr (json_text j)))"

definition snapshot_fields :: "snapshot_wire fields" where
  "snapshot_fields =
     [field ''schema_version'' sw_SchemaVersion sw_SchemaVersion_update store_uint,
      field ''revision'' sw_Revision sw_Revision_update store_uint,
      field ''topics'' sw_Topics sw_Topics_update (store_slice (store_struct True topic_fields) zero_Topic),
      field ''subscriptions'' sw_Subscriptions sw_Subscriptions_update
        (store_slice (store_struct True subscription_fields) zero_Subscription)]"

fun add_topics :: "Topic list \<Rightarrow> Snapshot \<Rightarrow> Snapshot result" where
  "add_topics [] s = Inr s"
| "add_topics (t # ts) s =
     (if mget (Topics s) (topic_ID t) \<noteq> None then Inl (Error ''duplicate topic'')
      else add_topics ts (put_topic s (topic_ID t) t))"

fun add_subscriptions :: "Subscription list \<Rightarrow> Snapshot \<Rightarrow> Snapshot result" where
  "add_subscriptions [] s = Inr s"
| "add_subscriptions (b # bs) s =
     (if mget (Subscriptions s) (sub_ID b) \<noteq> None then Inl (Error ''duplicate subscription'')
      else add_subscriptions bs (put_subscription s (sub_ID b) (cloneSubscription b)))"

definition DecodeSnapshot :: "string \<Rightarrow> Snapshot result" where
  "DecodeSnapshot data =
     (case decodeStrict snapshot_fields \<lparr>sw_SchemaVersion = 0, sw_Revision = 0, sw_Topics = [], sw_Subscriptions = []\<rparr> data of
        Inl err \<Rightarrow> Inl (Wrap ''decode snapshot'' err)
      | Inr wire \<Rightarrow>
          (case add_topics (sw_Topics wire) (EmptySnapshot\<lparr>snap_SchemaVersion := sw_SchemaVersion wire, snap_Revision := sw_Revision wire\<rparr>) of
             Inl err \<Rightarrow> Inl err
           | Inr s \<Rightarrow>
               (case add_subscriptions (sw_Subscriptions wire) s of
                  Inl err \<Rightarrow> Inl err
                | Inr s \<Rightarrow> (case validateSnapshot s of Some err \<Rightarrow> Inl err | None \<Rightarrow> Inr s))))"

section \<open>Snapshots are read back\<close>

definition portable_snapshot :: "Snapshot \<Rightarrow> bool" where
  "portable_snapshot s \<longleftrightarrow>
     range_all (\<lambda>_. portable_topic) (Topics s) \<and> range_all (\<lambda>_. portable_subscription) (Subscriptions s)"

lemma those_map_Some: "those (map f xs) = Some ys \<longleftrightarrow> list_all2 (\<lambda>x y. f x = Some y) xs ys"
  by (induction xs arbitrary: ys) (auto simp: list_all2_Cons1 split: option.splits)

lemma json_slice_read:
  assumes "json_slice f xs = Some j" "\<And>x y. x \<in> set xs \<Longrightarrow> f x = Some y \<Longrightarrow> st y zero = Some x"
  shows "store_slice st zero j [] = Some xs"
proof (cases "xs = []")
  case False
  then obtain ys where ys: "j = JArr ys" "list_all2 (\<lambda>x y. f x = Some y) xs ys"
    using assms(1) by (auto simp: json_slice_def those_map_Some)
  have "store_elements st zero ys [] = Some xs"
    using ys(2) assms(2)
  proof (induction rule: list_all2_induct)
    case (Cons x xs y ys)
    then have "st y zero = Some x" "store_elements st zero ys [] = Some xs" by simp_all
    then show ?case by simp
  qed simp
  then show ?thesis by (simp add: ys(1) store_slice_def)
qed (use assms(1) in \<open>simp add: json_slice_def store_slice_def\<close>)

lemma json_slice_ok:
  assumes "json_slice f xs = Some j" "\<And>x y. f x = Some y \<Longrightarrow> json_ok d y"
  shows "json_ok (Suc d) j"
proof (cases "xs = []")
  case False
  then obtain ys where ys: "j = JArr ys" "list_all2 (\<lambda>x y. f x = Some y) xs ys"
    using assms(1) by (auto simp: json_slice_def those_map_Some)
  have "list_all (json_ok d) ys" using ys(2) by (induction rule: list_all2_induct) (simp_all add: assms(2))
  then show ?thesis by (simp add: ys(1))
qed (use assms(1) in \<open>simp add: json_slice_def\<close>)

lemma map_values_key:
  assumes "range_all (\<lambda>k v. f v = k) m" "k \<in> set (sorted_keys m)"
  shows "f (the (mget m k)) = k"
  using range_order_mget [OF range_order_sorted_keys [of m], of k] assms by (auto simp: range_all_iff)

lemma map_values_sorted:
  assumes "range_all (\<lambda>k v. f v = k) m"
  shows "map f (map_values m) = sorted_keys m" "sort_key f (map_values m) = map_values m"
proof -
  show m: "map f (map_values m) = sorted_keys m"
    unfolding map_values_def map_map comp_def by (rule map_idI) (rule map_values_key [OF assms])
  have "sorted (map f (map_values m))" unfolding m by (simp add: sorted_keys_def sorted_list_of_fset.rep_eq)
  then show "sort_key f (map_values m) = map_values m" by (rule sort_key_id_if_sorted)
qed

lemma add_topics_distinct:
  assumes "distinct (map topic_ID ts)" "\<forall>t\<in>set ts. mget (Topics s) (topic_ID t) = None" "Topics s \<noteq> None"
  shows "add_topics ts s = Inr (s\<lparr>Topics := Some (fold (\<lambda>t. fmupd (topic_ID t) t) ts (entries (Topics s)))\<rparr>)"
  using assms
proof (induction ts arbitrary: s)
  case (Cons t ts)
  have "add_topics ts (put_topic s (topic_ID t) t) =
      Inr ((put_topic s (topic_ID t) t)\<lparr>Topics :=
        Some (fold (\<lambda>t. fmupd (topic_ID t) t) ts (entries (Topics (put_topic s (topic_ID t) t))))\<rparr>)"
    using Cons.prems by (intro Cons.IH) (auto simp: put_topic_def mput_def mget_def entries_def)
  then show ?case using Cons.prems(2) by (simp add: put_topic_def mput_def entries_def)
qed (auto simp: entries_def)

lemma add_subscriptions_distinct:
  assumes "distinct (map sub_ID bs)" "\<forall>b\<in>set bs. mget (Subscriptions s) (sub_ID b) = None" "Subscriptions s \<noteq> None"
  shows "add_subscriptions bs s = Inr (s\<lparr>Subscriptions := Some (fold (\<lambda>b. fmupd (sub_ID b) b) bs (entries (Subscriptions s)))\<rparr>)"
  using assms
proof (induction bs arbitrary: s)
  case (Cons b bs)
  have "add_subscriptions bs (put_subscription s (sub_ID b) b) =
      Inr ((put_subscription s (sub_ID b) b)\<lparr>Subscriptions :=
        Some (fold (\<lambda>b. fmupd (sub_ID b) b) bs (entries (Subscriptions (put_subscription s (sub_ID b) b))))\<rparr>)"
    using Cons.prems by (intro Cons.IH) (auto simp: put_subscription_def mput_def mget_def entries_def)
  then show ?case using Cons.prems(2) by (simp add: put_subscription_def mput_def entries_def)
qed (auto simp: entries_def)

lemma fold_map_values:
  assumes "range_all (\<lambda>k v. f v = k) m" "m \<noteq> None"
  shows "Some (fold (\<lambda>v. fmupd (f v) v) (map_values m) fmempty) = m"
proof -
  have "fold (\<lambda>v. fmupd (f v) v) (map_values m) fmempty = fold (\<lambda>k. fmupd k (the (mget m k))) (sorted_keys m) fmempty"
    unfolding map_values_def fold_map comp_def
    by (rule fold_cong [OF refl refl]) (simp only: map_values_key [OF assms(1)])
  also have "\<dots> = entries m"
    using range_order_sorted_keys [of m] unfolding mget_def range_order_def by (intro fold_fmupd_all) simp
  finally show ?thesis using assms(2) by (cases m) (simp_all add: entries_def)
qed

lemma valid_snapshot_keys:
  assumes "valid_snapshot s"
  shows "range_all (\<lambda>k v. topic_ID v = k) (Topics s)" "range_all (\<lambda>k v. sub_ID v = k) (Subscriptions s)"
    "Topics s \<noteq> None" "Subscriptions s \<noteq> None" "snap_SchemaVersion s = SchemaVersion"
  using assms by (auto simp: valid_snapshot_iff range_all_iff topic_ok_def subscription_ok_def)

lemma map_values_mget: "v \<in> set (map_values m) \<Longrightarrow> \<exists>k. mget m k = Some v"
  unfolding map_values_def set_map
proof (erule imageE)
  fix k assume "v = the (mget m k)" "k \<in> set (sorted_keys m)"
  then show ?thesis using range_order_mget [OF range_order_sorted_keys [of m], of k] by (cases "mget m k") auto
qed

lemma snapshot_wire_valid:
  assumes "valid_snapshot s"
  shows "snapshot_wire_of s = \<lparr>sw_SchemaVersion = SchemaVersion, sw_Revision = snap_Revision s,
      sw_Topics = map_values (Topics s), sw_Subscriptions = map_values (Subscriptions s)\<rparr>"
proof -
  have "map cloneSubscription bs = bs" for bs by (simp add: map_idI)
  then show ?thesis using map_values_sorted(2) [OF valid_snapshot_keys(1) [OF assms]] map_values_sorted(2) [OF valid_snapshot_keys(2) [OF assms]]
    by (simp add: snapshot_wire_of_def)
qed

lemma snapshot_read:
  assumes "snapshot_json w = Some j" "\<forall>t\<in>set (sw_Topics w). portable_topic t" "\<forall>b\<in>set (sw_Subscriptions w). portable_subscription b"
  shows "store_struct True snapshot_fields j \<lparr>sw_SchemaVersion = 0, sw_Revision = 0, sw_Topics = [], sw_Subscriptions = []\<rparr> = Some w"
    "json_ok maxNestingDepth j"
proof -
  obtain ts bs where j: "json_slice topic_json (sw_Topics w) = Some ts" "json_slice subscription_json (sw_Subscriptions w) = Some bs"
    "j = JObj [(''schema_version'', json_uint (sw_SchemaVersion w)), (''revision'', json_uint (sw_Revision w)),
       (''topics'', ts), (''subscriptions'', bs)]"
    using assms(1) by (auto simp: snapshot_json_def split: bind_splits)
  have "store_slice (store_struct True topic_fields) zero_Topic ts [] = Some (sw_Topics w)"
    by (rule json_slice_read [OF j(1)]) (use assms(2) topic_read in blast)
  moreover have "store_slice (store_struct True subscription_fields) zero_Subscription bs [] = Some (sw_Subscriptions w)"
    by (rule json_slice_read [OF j(2)]) (use assms(3) subscription_read in blast)
  ultimately show "store_struct True snapshot_fields j \<lparr>sw_SchemaVersion = 0, sw_Revision = 0, sw_Topics = [], sw_Subscriptions = []\<rparr> = Some w"
    by (simp add: j(3) store_struct_JObj snapshot_fields_def find_field_map field_def unquote_plain_key keys)
  have "json_ok (Suc (Suc (Suc (Suc 0)))) ts" "json_ok (Suc (Suc (Suc (Suc 0)))) bs"
    using json_slice_ok [OF j(1), of 3] json_slice_ok [OF j(2), of 3] structs_ok(2) [of _ _ 2] structs_ok(3) [of _ _ 0]
    by (simp_all add: numeral_eq_Suc)
  then have "json_ok (Suc (Suc (Suc (Suc (Suc 0))))) j"
    by (simp add: j(3) json_ok_JObj members_ok_simps json_ok_scalars keys del: json_ok.simps(4))
  then show "json_ok maxNestingDepth j" by (rule json_ok_mono) (simp add: maxNestingDepth_def)
qed

lemma DecodeSnapshot_roundtrip:
  assumes "EncodeSnapshot s = Inr data" "portable_snapshot s"
  shows "DecodeSnapshot data = Inr s"
proof -
  from assms(1) obtain j where v: "valid_snapshot s" and j: "snapshot_json (snapshot_wire_of s) = Some j" "data = json_text j"
    by (auto simp: EncodeSnapshot_def split: option.splits)
  note k = valid_snapshot_keys [OF v] and w = snapshot_wire_valid [OF v]
  have p: "\<forall>t\<in>set (sw_Topics (snapshot_wire_of s)). portable_topic t" "\<forall>b\<in>set (sw_Subscriptions (snapshot_wire_of s)). portable_subscription b"
    using assms(2) unfolding w portable_snapshot_def range_all_iff by (auto dest: map_values_mget)
  have d: "decodeStrict snapshot_fields \<lparr>sw_SchemaVersion = 0, sw_Revision = 0, sw_Topics = [], sw_Subscriptions = []\<rparr> data =
      Inr (snapshot_wire_of s)"
    unfolding j(2) using snapshot_read [OF j(1) p] by (intro decodeStrict_text)
  have ids: "distinct (map topic_ID (map_values (Topics s)))" "distinct (map sub_ID (map_values (Subscriptions s)))"
    using map_values_sorted(1) [OF k(1)] map_values_sorted(1) [OF k(2)] range_order_sorted_keys
    unfolding range_order_def by metis+
  let ?s0 = "\<lparr>snap_SchemaVersion = SchemaVersion, snap_Revision = snap_Revision s, Topics = Some fmempty, Subscriptions = Some fmempty\<rparr>"
  have "add_topics (map_values (Topics s)) ?s0 = Inr (?s0\<lparr>Topics := Topics s\<rparr>)"
    using add_topics_distinct [OF ids(1), of ?s0] fold_map_values [OF k(1,3)] by (simp add: mget_def entries_def)
  moreover have "add_subscriptions (map_values (Subscriptions s)) (?s0\<lparr>Topics := Topics s\<rparr>) =
      Inr (?s0\<lparr>Topics := Topics s, Subscriptions := Subscriptions s\<rparr>)"
    using add_subscriptions_distinct [OF ids(2), of "?s0\<lparr>Topics := Topics s\<rparr>"] fold_map_values [OF k(2,4)]
    by (simp add: mget_def entries_def)
  moreover have "?s0\<lparr>Topics := Topics s, Subscriptions := Subscriptions s\<rparr> = s" using k(5) by simp
  ultimately show ?thesis using d v by (simp add: DecodeSnapshot_def w EmptySnapshot_def)
qed

lemma sample_time: "\<exists>j. json_time \<lparr>tm_ns = 1, tm_loc = UTC\<rparr> = Some j"
proof -
  have "time_Marshal \<lparr>tm_ns = 1, tm_loc = UTC\<rparr> \<noteq> None" by code_simp
  then show ?thesis by (auto simp: json_time_def)
qed

lemma sample_portable: "portable_metadata sample_meta" "portable_topic sample_topic" "portable_subscription sample_subscription"
proof -
  have "utf8_ValidString s" if "s \<in> set [''event'', ''system'', ''t'', ''https://hub/t'', ''d'', ''application/json'', ''active'', ''p'', ''s'',
      ''https://cb'', ''h'', ''c'', []]" for s
  proof -
    have "list_all utf8_ValidString [''event'', ''system'', ''t'', ''https://hub/t'', ''d'', ''application/json'', ''active'', ''p'', ''s'',
      ''https://cb'', ''h'', ''c'', []]" by code_simp
    then show ?thesis using that by (simp only: list_all_iff)
  qed
  then show "portable_metadata sample_meta" "portable_topic sample_topic" "portable_subscription sample_subscription"
    by (simp_all add: portable_metadata_def portable_topic_def portable_subscription_def portable_parameters_def range_all_iff
        mget_def entries_def sample_meta_def sample_topic_def sample_subscription_def)
qed



lemma sample_snapshot_encodes: "\<exists>data. EncodeSnapshot sample_verified = Inr data" "portable_snapshot sample_verified"
proof -
  have v: "valid_snapshot sample_verified" by (rule valid_sample)
  have m: "map_values (Topics sample_verified) = [sample_topic]" "map_values (Subscriptions sample_verified) = [sample_subscription]"
    by (simp_all add: map_values_def sorted_keys_def sorted_list_of_fset.rep_eq entries_def mget_def sample_verified_def)
  obtain j where "snapshot_json (snapshot_wire_of sample_verified) = Some j"
    using sample_time unfolding snapshot_wire_valid [OF v] m
    by (auto simp: snapshot_json_def json_slice_def topic_json_def subscription_json_def sample_topic_def sample_subscription_def)
  with v show "\<exists>data. EncodeSnapshot sample_verified = Inr data" by (simp add: EncodeSnapshot_def)
  show "portable_snapshot sample_verified"
    by (auto simp: portable_snapshot_def range_all_iff mget_def entries_def sample_verified_def sample_portable split: if_splits)
qed

text \<open>A snapshot that can be stored is read back as it was: \<open>DecodeSnapshot\<close> rebuilds the maps from
  the sorted lists, finds no duplicate and accepts the result.\<close>

theorem DecodeSnapshot_EncodeSnapshot:
  assumes "EncodeSnapshot s = Inr data" "portable_snapshot s"
  shows "DecodeSnapshot data = Inr s"
  using assms by (rule DecodeSnapshot_roundtrip)

theorem DecodeSnapshot_EncodeSnapshot_witness:
  "\<exists>data. EncodeSnapshot sample_verified = Inr data \<and> DecodeSnapshot data = Inr sample_verified"
  using sample_snapshot_encodes DecodeSnapshot_EncodeSnapshot by blast

end
