(* ===== verification/Store_Interface.thy ===== *)
theory Store_Interface
  imports Consumer_Contract
begin

text \<open>
  The interfaces \<open>Producer\<close>, \<open>Administrator\<close> and \<open>Consumer\<close> of \<open>messagestore/contracts.go\<close> as the state
  store and the services call them, over a world \<open>'w\<close> that holds what is stored and a consumer \<open>'c\<close>. The
  locale \<open>replay_provider\<close> is what a client that reads one destination to its end relies on; the
  in-memory store is shown to satisfy it.
\<close>

record ('w, 'c) provider =
  pv_EnsureDestination :: "DestinationSpec \<Rightarrow> 'w \<Rightarrow> 'w \<times> goerr option"
  pv_Send :: "Destination \<Rightarrow> Message \<Rightarrow> 'w \<Rightarrow> 'w \<times> goerr option"
  pv_OpenConsumer :: "ConsumerSpec \<Rightarrow> 'w \<Rightarrow> 'w \<times> 'c result"
  pv_CaughtUp :: "'w \<times> 'c \<Rightarrow> ('w \<times> 'c) \<times> bool result"
  pv_Receive :: "int \<Rightarrow> 'w \<times> 'c \<Rightarrow> ('w \<times> 'c) \<times> ReceiveBatch result"
  pv_Ack :: "Receipt \<Rightarrow> 'w \<times> 'c \<Rightarrow> ('w \<times> 'c) \<times> goerr option"
  pv_Close :: "ClosureIntent \<Rightarrow> 'w \<times> 'c \<Rightarrow> ('w \<times> 'c) \<times> goerr option"

text \<open>\<open>inflight x batch rest\<close>: the messages \<open>batch\<close> have been handed out and wait for their acknowledgement,
  then come the messages \<open>rest\<close>.\<close>

locale replay_provider =
  fixes pv :: "('w, 'c) provider"
    and inflight :: "'w \<times> 'c \<Rightarrow> ReceivedMessage list \<Rightarrow> ReceivedMessage list \<Rightarrow> bool"
    and dest :: "'c \<Rightarrow> Destination"
    and sent :: "'w \<Rightarrow> Destination \<Rightarrow> Message list"
    and backlog :: "'w \<Rightarrow> Destination \<Rightarrow> ConsumerID \<Rightarrow> ReceivedMessage list"
    and good :: "'w \<Rightarrow> bool"
    and usable :: "Destination \<Rightarrow> bool"
  assumes caught_up: "inflight x [] rest \<Longrightarrow> pv_CaughtUp pv x = (x, Inr (rest = []))"
    and receive: "inflight x [] rest \<Longrightarrow> 1 \<le> n \<Longrightarrow>
          \<exists>x' b. pv_Receive pv n x = (x', Inr b) \<and> Messages b = take (nat n) rest \<and>
            CaughtUp b = (drop (nat n) rest = []) \<and> inflight x' (take (nat n) rest) (drop (nat n) rest) \<and>
            fst x' = fst x \<and> dest (snd x') = dest (snd x)"
    and ack: "inflight x (m # ms) rest \<Longrightarrow>
          \<exists>x'. pv_Ack pv (rcv_Receipt m) x = (x', None) \<and> inflight x' ms rest \<and>
            sent (fst x') = sent (fst x) \<and> dest (snd x') = dest (snd x) \<and> (good (fst x) \<longrightarrow> good (fst x')) \<and>
            (\<forall>d k. usable d \<and> d \<noteq> dest (snd x) \<longrightarrow> backlog (fst x') d k = backlog (fst x) d k)"
    and send: "good w \<Longrightarrow> \<exists>w'. pv_Send pv d msg w = (w', None) \<and> good w' \<and> sent w' = (sent w)(d := sent w d @ [msg])"
    and send_other: "inflight (w, c) batch rest \<Longrightarrow> pv_Send pv d msg w = (w', None) \<Longrightarrow> d \<noteq> dest c \<Longrightarrow> inflight (w', c) batch rest"
    and ensure: "good w \<Longrightarrow> usable (dst_Name spec) \<Longrightarrow>
          \<exists>w'. pv_EnsureDestination pv spec w = (w', None) \<and> good w' \<and> sent w' = sent w \<and> backlog w' = backlog w"
    and open_earliest: "good w \<Longrightarrow> usable d \<Longrightarrow> k \<noteq> [] \<Longrightarrow> length (sent w d) < 2 ^ 63 \<Longrightarrow>
          \<exists>c. pv_OpenConsumer pv \<lparr>spec_ID = k, spec_Destination = d, spec_StartPosition = StartEarliest, spec_Subscription = None\<rparr> w =
                (w, Inr c) \<and> dest c = d \<and> inflight (w, c) [] (backlog w d k)"
    and close: "inflight x batch rest \<Longrightarrow> good (fst x) \<Longrightarrow>
          \<exists>x'. pv_Close pv intent x = (x', None) \<and> sent (fst x') = sent (fst x) \<and> good (fst x') \<and>
            (\<forall>d k. usable d \<and> d \<noteq> dest (snd x) \<longrightarrow> backlog (fst x') d k = backlog (fst x) d k)"

end
