(* ===== verification/Memory_Provider.thy ===== *)
theory Memory_Provider
  imports Memory_Store Store_Interface
begin

text \<open>The in-memory store as a provider of the interfaces, and that it replays a destination to its end.\<close>

definition memory_provider :: "(Store, memory_consumer) provider" where
  "memory_provider =
     \<lparr>pv_EnsureDestination = (\<lambda>spec s. memory_EnsureDestination s spec),
      pv_Send = (\<lambda>d m s. (memory_Send s d m, None)),
      pv_OpenConsumer = (\<lambda>spec s. memory_OpenConsumer s spec),
      pv_CaughtUp = (\<lambda>x. (x, memory_CaughtUp x)),
      pv_Receive = memory_Receive (),
      pv_Ack = memory_Ack (),
      pv_Close = (\<lambda>intent x. (memory_Close intent x, None))\<rparr>"

definition memory_usable :: "Destination \<Rightarrow> bool" where
  "memory_usable d \<longleftrightarrow> d \<noteq> [] \<and> CHR 0x00 \<notin> set d"

abbreviation progress_key :: "Destination \<Rightarrow> ConsumerID \<Rightarrow> string" where
  "progress_key d k \<equiv> d @ [CHR 0x00] @ k"

definition memory_good :: "Store \<Rightarrow> bool" where
  "memory_good s \<longleftrightarrow>
     (\<forall>d k. memory_usable d \<longrightarrow> 0 \<le> position_of s (progress_key d k) \<and> position_of s (progress_key d k) \<le> int (length (stored s d)))"

definition memory_dest :: "memory_consumer \<Rightarrow> Destination" where
  "memory_dest c = meta_Destination (mc_metadata c)"

definition memory_inflight :: "memory \<Rightarrow> ReceivedMessage list \<Rightarrow> ReceivedMessage list \<Rightarrow> bool" where
  "memory_inflight x batch rest \<longleftrightarrow>
     memory_inv x \<and> memory_pend x = batch @ rest \<and> mc_observed (snd x) = position x + int (length batch) \<and>
     \<not> mc_closed (snd x) \<and> memory_usable (memory_dest (snd x)) \<and>
     mc_key (snd x) = progress_key (memory_dest (snd x)) (meta_ID (mc_metadata (snd x)))"

definition memory_backlog :: "Store \<Rightarrow> Destination \<Rightarrow> ConsumerID \<Rightarrow> ReceivedMessage list" where
  "memory_backlog s d k =
     map (\<lambda>i. \<lparr>rcv_Message = stored s d ! i, rcv_Receipt = \<lparr>rcpt_Consumer = k, rcpt_Value = Itoa i\<rparr>\<rparr>)
       [nat (position_of s (progress_key d k)) ..< length (stored s d)]"

lemma progress_key_inject: "memory_usable d \<Longrightarrow> memory_usable d' \<Longrightarrow> progress_key d k = progress_key d' k' \<longleftrightarrow> d = d' \<and> k = k'"
proof
  assume u: "memory_usable d" "memory_usable d'" and eq: "progress_key d k = progress_key d' k'"
  have tw: "takeWhile (\<lambda>c. c \<noteq> CHR 0x00) (progress_key a b) = a" if "memory_usable a" for a b
    using that by (subst takeWhile_append2) (auto simp: memory_usable_def)
  have "d = d'" using tw [OF u(1), of k] tw [OF u(2), of k'] eq by simp
  then show "d = d' \<and> k = k'" using eq by simp
qed simp

lemma length_memory_pend: "memory_inv x \<Longrightarrow> int (length (memory_pend x)) = int (length (available x)) - position x"
  unfolding memory_pend_def memory_inv_def length_map length_upt by linarith

lemma memory_pend_Nil: "memory_inv x \<Longrightarrow> memory_pend x = [] \<longleftrightarrow> int (length (available x)) \<le> position x"
  using length_memory_pend [of x] by (cases "memory_pend x") auto

lemma memory_receive_take:
  assumes "memory_inflight x [] rest" "1 \<le> n"
  shows "\<exists>x' b. memory_Receive () n x = (x', Inr b) \<and> Messages b = take (nat n) rest \<and>
    CaughtUp b = (drop (nat n) rest = []) \<and> memory_inflight x' (take (nat n) rest) (drop (nat n) rest) \<and>
    fst x' = fst x \<and> memory_dest (snd x') = memory_dest (snd x)"
proof -
  have inv: "memory_inv x" and p: "memory_pend x = rest" and c: "\<not> mc_closed (snd x)" using assms(1) by (simp_all add: memory_inflight_def)
  let ?last = "min (position x + n) (int (length (available x)))"
  let ?x = "(fst x, (snd x)\<lparr>mc_observed := ?last\<rparr>)"
  have len: "int (length rest) = int (length (available x)) - position x" using length_memory_pend [OF inv] p by simp
  have le: "position x \<le> ?last" using inv assms(2) by (auto simp: memory_inv_def)
  obtain b where b: "memory_Receive () n x = (?x, Inr b)" "CaughtUp b = (?last = int (length (available x)))"
    using c assms(2) le by (simp add: memory_Receive_def Let_def)
  have x': "memory_inv ?x" "memory_pend ?x = rest"
    using inv p by (simp_all add: memory_inv_def memory_pend_def)
  have "Messages b = take (nat n) rest" using memory.receive_batch [OF inv b(1)] x'(2) by simp
  moreover have "CaughtUp b = (drop (nat n) rest = [])" using b(2) len assms(2) by (simp add: min_def) linarith
  moreover have "int (length (take (nat n) rest)) = ?last - position x" using len assms(2) by (simp add: min_def) linarith
  ultimately show ?thesis
    using b(1) x' assms(1) by (auto simp: memory_inflight_def memory_dest_def)
qed

lemma memory_ack_next:
  assumes "memory_inflight x (m # ms) rest"
  shows "\<exists>x'. memory_Ack () (rcv_Receipt m) x = (x', None) \<and> memory_inflight x' ms rest \<and>
    stored (fst x') = stored (fst x) \<and> memory_dest (snd x') = memory_dest (snd x) \<and> (memory_good (fst x) \<longrightarrow> memory_good (fst x')) \<and>
    (\<forall>d k. memory_usable d \<and> d \<noteq> memory_dest (snd x) \<longrightarrow> memory_backlog (fst x') d k = memory_backlog (fst x) d k)"
proof -
  have inv: "memory_inv x" and p: "memory_pend x = m # ms @ rest" and c: "\<not> mc_closed (snd x)"
    using assms by (simp_all add: memory_inflight_def)
  let ?i = "nat (position x)"
  let ?x = "((fst x)\<lparr>store_progress := mput (store_progress (fst x)) (mc_key (snd x)) (position x + 1)\<rparr>, snd x)"
  have lt: "?i < length (available x)" using p memory_pend_Nil [OF inv] inv by (auto simp: memory_inv_def)
  have m: "m = received x ?i" using p lt by (simp add: memory_pend_def upt_conv_Cons)
  have known: "memory_known x (rcv_Receipt m)" using lt by (auto simp: m received_def memory_known_def)
  have "ParseInt 64 (Itoa ?i) = Some (position x)" using inv lt by (simp add: ParseInt_Itoa memory_inv_def)
  then have a: "memory_Ack () (rcv_Receipt m) x = (?x, None)"
    using c by (simp add: memory_Ack_def m received_def)
  have "memory_inv ?x" using memory.ack_keeps [OF inv known a] by blast
  moreover have "memory_pend ?x = ms @ rest" using memory.ack_first [OF inv known a] p by auto
  ultimately have "memory_inflight ?x ms rest"
    using assms by (simp add: memory_inflight_def position_advance)
  moreover have "memory_backlog (fst ?x) d k = memory_backlog (fst x) d k" if "memory_usable d" "d \<noteq> memory_dest (snd x)" for d k
    using progress_key_inject [OF that(1), of "memory_dest (snd x)" k] that assms
    by (simp add: memory_inflight_def memory_backlog_def position_of_def)
  moreover have "memory_good (fst ?x)" if g: "memory_good (fst x)"
    unfolding memory_good_def
  proof (intro allI impI)
    fix d k assume u: "memory_usable d"
    have u': "memory_usable (memory_dest (snd x))" "mc_key (snd x) = progress_key (memory_dest (snd x)) (meta_ID (mc_metadata (snd x)))"
      using assms by (simp_all add: memory_inflight_def)
    show "0 \<le> position_of (fst ?x) (progress_key d k) \<and> position_of (fst ?x) (progress_key d k) \<le> int (length (stored (fst ?x) d))"
    proof (cases "progress_key d k = mc_key (snd x)")
      case True
      then have "d = memory_dest (snd x)" using progress_key_inject [OF u u'(1)] u'(2) by simp
      then show ?thesis using True lt inv by (simp add: position_of_def memory_dest_def memory_inv_def)
    next
      case False
      then show ?thesis using g u by (simp add: memory_good_def position_of_def)
    qed
  qed
  ultimately show ?thesis using a by (simp add: fun_eq_iff)
qed

lemma memory_open:
  assumes "memory_good s" "memory_usable d" "k \<noteq> []" "length (stored s d) < 2 ^ 63"
  shows "\<exists>c. memory_OpenConsumer s \<lparr>spec_ID = k, spec_Destination = d, spec_StartPosition = StartEarliest, spec_Subscription = None\<rparr> =
    (s, Inr c) \<and> memory_dest c = d \<and> memory_inflight (s, c) [] (memory_backlog s d k)"
proof -
  let ?c = "\<lparr>mc_metadata = \<lparr>meta_ID = k, meta_Destination = d, meta_StartPosition = StartEarliest\<rparr>, mc_key = progress_key d k,
    mc_observed = position_of s (progress_key d k), mc_closed = False\<rparr>"
  have "memory_OpenConsumer s \<lparr>spec_ID = k, spec_Destination = d, spec_StartPosition = StartEarliest, spec_Subscription = None\<rparr> = (s, Inr ?c)"
    using assms(2,3) by (simp add: memory_OpenConsumer_def memory_usable_def Let_def)
  moreover have "memory_inflight (s, ?c) [] (memory_backlog s d k)"
    using assms(1,2,4) by (simp add: memory_inflight_def memory_inv_def memory_pend_def memory_backlog_def memory_dest_def
        memory_good_def received_def)
  ultimately show ?thesis by (auto simp: memory_dest_def)
qed

lemma stored_Send [simp]: "stored (memory_Send s d m) = (stored s)(d := stored s d @ [m])"
  by (auto simp: fun_eq_iff stored_def memory_Send_def)

lemma position_Send [simp]: "position_of (memory_Send s d m) k = position_of s k"
  by (simp add: position_of_def memory_Send_def)

lemma memory_good_Send: "memory_good s \<Longrightarrow> memory_good (memory_Send s d m)"
  unfolding memory_good_def stored_Send position_Send fun_upd_apply
proof (intro allI impI)
  fix d' k assume "\<forall>d k. memory_usable d \<longrightarrow> 0 \<le> position_of s (progress_key d k) \<and> position_of s (progress_key d k) \<le> int (length (stored s d))"
    "memory_usable d'"
  then have "0 \<le> position_of s (progress_key d' k)" "position_of s (progress_key d' k) \<le> int (length (stored s d'))" by blast+
  then show "0 \<le> position_of s (progress_key d' k) \<and>
      position_of s (progress_key d' k) \<le> int (length (if d' = d then stored s d @ [m] else stored s d'))" by auto
qed

lemma memory_inflight_Send:
  assumes "memory_inflight (s, c) batch rest" "d \<noteq> memory_dest c"
  shows "memory_inflight (memory_Send s d m, c) batch rest"
proof -
  have a: "available (memory_Send s d m, c) = available (s, c)" using assms(2) by (simp add: memory_dest_def)
  then have "received (memory_Send s d m, c) = received (s, c)" by (intro received_cong) simp_all
  then have "memory_pend (memory_Send s d m, c) = memory_pend (s, c)" "memory_inv (memory_Send s d m, c) = memory_inv (s, c)"
    unfolding memory_pend_def memory_inv_def a by simp_all
  then show ?thesis using assms(1) by (simp add: memory_inflight_def)
qed

lemma memory_close:
  assumes "memory_inflight x batch rest" "memory_good (fst x)"
  shows "stored (fst (memory_Close intent x)) = stored (fst x)" "memory_good (fst (memory_Close intent x))"
    "memory_usable d \<Longrightarrow> d \<noteq> memory_dest (snd x) \<Longrightarrow> memory_backlog (fst (memory_Close intent x)) d k = memory_backlog (fst x) d k"
proof -
  show "memory_backlog (fst (memory_Close intent x)) d k = memory_backlog (fst x) d k" if "memory_usable d" "d \<noteq> memory_dest (snd x)"
    using progress_key_inject [OF that(1), of "memory_dest (snd x)" k] that assms(1)
    by (simp add: memory_inflight_def memory_backlog_def position_of_def memory_Close_def mget_def entries_def)
  show st: "stored (fst (memory_Close intent x)) = stored (fst x)" by (simp add: memory_Close_def fun_eq_iff)
  have "position_of (fst (memory_Close intent x)) k = position_of (fst x) k \<or> position_of (fst (memory_Close intent x)) k = 0" for k
    by (simp add: memory_Close_def position_of_def mget_Some entries_def mget_def)
  then show "memory_good (fst (memory_Close intent x))"
    using assms(2) unfolding memory_good_def st by (metis of_nat_0_le_iff order_refl)
qed

lemma memory_ensure:
  assumes "dst_Name spec \<noteq> []"
  shows "\<exists>s'. memory_EnsureDestination s spec = (s', None) \<and> stored s' = stored s \<and> position_of s' = position_of s"
  using assms by (auto simp: memory_EnsureDestination_def stored_def position_of_def fun_eq_iff split: option.splits)

interpretation memory_replay: replay_provider memory_provider memory_inflight memory_dest stored memory_backlog memory_good memory_usable
proof
  fix x :: memory and rest
  show "pv_CaughtUp memory_provider x = (x, Inr (rest = []))" if "memory_inflight x [] rest"
    using that memory_pend_Nil [of x] by (auto simp: memory_provider_def memory_CaughtUp_def memory_inflight_def)
next
  fix w and d msg
  show "\<exists>w'. pv_Send memory_provider d msg w = (w', None) \<and> memory_good w' \<and> stored w' = (stored w)(d := stored w d @ [msg])"
    if "memory_good w"
    using memory_good_Send [OF that] by (simp add: memory_provider_def)
next
  fix w spec
  show "\<exists>w'. pv_EnsureDestination memory_provider spec w = (w', None) \<and> memory_good w' \<and> stored w' = stored w \<and> memory_backlog w' = memory_backlog w"
    if "memory_good w" "memory_usable (dst_Name spec)"
    using memory_ensure [of spec w] that by (fastforce simp: memory_provider_def memory_usable_def memory_good_def memory_backlog_def)
next
  fix x :: memory and batch rest intent
  show "\<exists>x'. pv_Close memory_provider intent x = (x', None) \<and> stored (fst x') = stored (fst x) \<and> memory_good (fst x') \<and>
      (\<forall>d k. memory_usable d \<and> d \<noteq> memory_dest (snd x) \<longrightarrow> memory_backlog (fst x') d k = memory_backlog (fst x) d k)"
    if "memory_inflight x batch rest" "memory_good (fst x)"
    using memory_close [OF that] by (simp add: memory_provider_def)
next
  fix x :: memory and rest and n :: int
  show "\<exists>x' b. pv_Receive memory_provider n x = (x', Inr b) \<and> Messages b = take (nat n) rest \<and>
      CaughtUp b = (drop (nat n) rest = []) \<and> memory_inflight x' (take (nat n) rest) (drop (nat n) rest) \<and>
      fst x' = fst x \<and> memory_dest (snd x') = memory_dest (snd x)"
    if "memory_inflight x [] rest" "1 \<le> n"
    unfolding memory_provider_def provider.simps using that by (rule memory_receive_take)
next
  fix x :: memory and m ms rest
  show "\<exists>x'. pv_Ack memory_provider (rcv_Receipt m) x = (x', None) \<and> memory_inflight x' ms rest \<and>
      stored (fst x') = stored (fst x) \<and> memory_dest (snd x') = memory_dest (snd x) \<and> (memory_good (fst x) \<longrightarrow> memory_good (fst x')) \<and>
      (\<forall>d k. memory_usable d \<and> d \<noteq> memory_dest (snd x) \<longrightarrow> memory_backlog (fst x') d k = memory_backlog (fst x) d k)"
    if "memory_inflight x (m # ms) rest"
    unfolding memory_provider_def provider.simps using that by (rule memory_ack_next)
qed (simp_all add: memory_provider_def memory_open, auto simp: memory_inflight_Send)

end
