(* ===== verification/State_Store.thy ===== *)
theory State_Store
  imports Codec Layout Memory_Provider
begin

text \<open>
  The state store over a message store (\<open>internal/persistence/statestore/messagestore.go\<close>): events and
  snapshots as messages of two destinations. The loop that loads the latest snapshot is a partial
  function: \<^const>\<open>None\<close> is a loop that does not end.
\<close>

abbreviation EventContentType :: string where
  "EventContentType \<equiv> ''application/vnd.websubhub.state-event+json; version=1''"
abbreviation SnapshotContentType :: string where
  "SnapshotContentType \<equiv> ''application/vnd.websubhub.state-snapshot+json; version=1''"
abbreviation snapshotConsumerID :: ConsumerID where
  "snapshotConsumerID \<equiv> ''state-snapshot-loader''"

record StateOptions =
  so_EventsDestination :: Destination
  so_SnapshotsDestination :: Destination
  so_EventsRetention :: duration
  so_SnapshotsRetention :: duration
  so_SnapshotLoadBatch :: int

definition hour :: duration where
  "hour = 3600000000000"

definition DefaultOptions :: StateOptions where
  "DefaultOptions =
     \<lparr>so_EventsDestination = StateEventsDestination, so_SnapshotsDestination = StateSnapshotsDestination,
      so_EventsRetention = 7 * 24 * hour, so_SnapshotsRetention = 30 * 24 * hour, so_SnapshotLoadBatch = 100\<rparr>"

definition validate_options :: "StateOptions \<Rightarrow> goerr option" where
  "validate_options opts =
     (if so_EventsDestination opts = [] \<or> so_SnapshotsDestination opts = []
      then Some (Error ''state event and snapshot destinations are required'')
      else if so_EventsDestination opts = so_SnapshotsDestination opts
      then Some (Error ''state event and snapshot destinations must be different'')
      else if so_EventsRetention opts \<le> 0 \<or> so_SnapshotsRetention opts \<le> 0
      then Some (Error ''state event and snapshot retention must be positive'')
      else if so_SnapshotLoadBatch opts < 1 then Some (Error ''snapshot load batch must be positive'')
      else None)"

text \<open>\<open>New\<close>; the provider stands for producer and administrator, \<^const>\<open>None\<close> when one of them is nil.\<close>

definition statestore_New :: "('w, 'c) provider option \<Rightarrow> StateOptions \<Rightarrow> (('w, 'c) provider \<times> StateOptions) result" where
  "statestore_New pv opts =
     (case pv of
        None \<Rightarrow> Inl (Error ''producer and administrator are required'')
      | Some p \<Rightarrow> (case validate_options opts of Some err \<Rightarrow> Inl err | None \<Rightarrow> Inr (p, opts)))"

definition Initialize :: "('w, 'c) provider \<Rightarrow> StateOptions \<Rightarrow> 'w \<Rightarrow> 'w \<times> goerr option" where
  "Initialize pv opts w =
     (case pv_EnsureDestination pv \<lparr>dst_Name = so_EventsDestination opts, Compacted = False,
             Retention = so_EventsRetention opts, Partitions = 1\<rparr> w of
        (w, Some err) \<Rightarrow> (w, Some (Wrap ''ensure state events destination'' err))
      | (w, None) \<Rightarrow>
          (case pv_EnsureDestination pv \<lparr>dst_Name = so_SnapshotsDestination opts, Compacted = True,
                  Retention = so_SnapshotsRetention opts, Partitions = 1\<rparr> w of
             (w, Some err) \<Rightarrow> (w, Some (Wrap ''ensure state snapshots destination'' err))
           | (w, None) \<Rightarrow> (w, None)))"

definition event_message :: "event \<Rightarrow> string \<Rightarrow> Message" where
  "event_message e body =
     \<lparr>msg_ID = EventID (event_Metadata e), Body = body, ContentType = EventContentType, Metadata = None, StorageError = []\<rparr>"

definition Append :: "('w, 'c) provider \<Rightarrow> StateOptions \<Rightarrow> event option \<Rightarrow> 'w \<Rightarrow> 'w \<times> goerr option" where
  "Append pv opts ev w =
     (case EncodeEvent ev of
        Inl err \<Rightarrow> (w, Some err)
      | Inr body \<Rightarrow> pv_Send pv (so_EventsDestination opts) (event_message (the ev) body) w)"

definition OpenEvents :: "('w, 'c) provider \<Rightarrow> StateOptions \<Rightarrow> ConsumerID \<Rightarrow> StartPosition \<Rightarrow> 'w \<Rightarrow> 'w \<times> 'c result" where
  "OpenEvents pv opts k start w =
     pv_OpenConsumer pv \<lparr>spec_ID = k, spec_Destination = so_EventsDestination opts, spec_StartPosition = start,
       spec_Subscription = None\<rparr> w"

definition snapshot_message :: "Snapshot \<Rightarrow> string \<Rightarrow> Message" where
  "snapshot_message s body =
     \<lparr>msg_ID = ''snapshot-'' @ appendInt 20 (uint (snap_Revision s)), Body = body, ContentType = SnapshotContentType,
      Metadata = None, StorageError = []\<rparr>"

definition SaveSnapshot :: "('w, 'c) provider \<Rightarrow> StateOptions \<Rightarrow> Snapshot \<Rightarrow> 'w \<Rightarrow> 'w \<times> goerr option" where
  "SaveSnapshot pv opts s w =
     (case EncodeSnapshot s of
        Inl err \<Rightarrow> (w, Some err)
      | Inr body \<Rightarrow> pv_Send pv (so_SnapshotsDestination opts) (snapshot_message s body) w)"

section \<open>Loading the latest snapshot\<close>

definition stored_snapshot :: "Message \<Rightarrow> Snapshot result" where
  "stored_snapshot m =
     (if StorageError m \<noteq> [] then Inl (Error ''stored snapshot is malformed'')
      else if ContentType m \<noteq> SnapshotContentType then Inl (Error ''stored snapshot has content type'')
      else case DecodeSnapshot (Body m) of
          Inl err \<Rightarrow> Inl (Wrap ''decode stored snapshot'' err)
        | Inr s \<Rightarrow> Inr s)"

definition newer_snapshot :: "Snapshot \<Rightarrow> Snapshot \<Rightarrow> Snapshot" where
  "newer_snapshot current s = (if snap_Revision current < snap_Revision s then s else current)"

fun load_batch :: "('w, 'c) provider \<Rightarrow> ReceivedMessage list \<Rightarrow> Snapshot \<Rightarrow> 'w \<times> 'c \<Rightarrow> ('w \<times> 'c) \<times> Snapshot result" where
  "load_batch pv [] result x = (x, Inr result)"
| "load_batch pv (m # ms) result x =
     (case stored_snapshot (rcv_Message m) of
        Inl err \<Rightarrow> (x, Inl err)
      | Inr s \<Rightarrow>
          (case pv_Ack pv (rcv_Receipt m) x of
             (x, Some err) \<Rightarrow> (x, Inl (Wrap ''acknowledge snapshot'' err))
           | (x, None) \<Rightarrow> load_batch pv ms (newer_snapshot result s) x))"

partial_function (option) load_loop ::
  "('w, 'c) provider \<Rightarrow> int \<Rightarrow> Snapshot \<Rightarrow> 'w \<times> 'c \<Rightarrow> (('w \<times> 'c) \<times> Snapshot result) option" where
  "load_loop pv n result x =
     (case pv_CaughtUp pv x of
        (x, Inl err) \<Rightarrow> Some (x, Inl (Wrap ''check snapshot replay boundary'' err))
      | (x, Inr caughtUp) \<Rightarrow>
          if caughtUp then Some (x, Inr result)
          else (case pv_Receive pv n x of
             (x, Inl err) \<Rightarrow> Some (x, Inl (Wrap ''receive snapshots'' err))
           | (x, Inr b) \<Rightarrow>
               (case load_batch pv (Messages b) result x of
                  (x, Inl err) \<Rightarrow> Some (x, Inl err)
                | (x, Inr result) \<Rightarrow> load_loop pv n result x)))"

text \<open>The deferred close reports its error only when there is no other.\<close>

definition LoadSnapshot :: "('w, 'c) provider \<Rightarrow> StateOptions \<Rightarrow> 'w \<Rightarrow> ('w \<times> Snapshot result) option" where
  "LoadSnapshot pv opts w =
     (case pv_OpenConsumer pv \<lparr>spec_ID = snapshotConsumerID, spec_Destination = so_SnapshotsDestination opts,
             spec_StartPosition = StartEarliest, spec_Subscription = None\<rparr> w of
        (w, Inl err) \<Rightarrow> Some (w, Inl err)
      | (w, Inr c) \<Rightarrow>
          map_option (\<lambda>(x, res).
            case pv_Close pv ClosePermanent x of
              (x, err) \<Rightarrow> (fst x,
                case (res, err) of
                  (Inr _, Some e) \<Rightarrow> Inl (Wrap ''close snapshot reader'' e)
                | _ \<Rightarrow> res))
            (load_loop pv (so_SnapshotLoadBatch opts) EmptySnapshot (w, c)))"

section \<open>Consuming events\<close>

record EventRecord =
  er_Event :: event
  er_Receipt :: Receipt

record EventBatch =
  eb_Records :: "EventRecord list"
  eb_CaughtUp :: bool

definition stored_event :: "Message \<Rightarrow> event result" where
  "stored_event m =
     (if StorageError m \<noteq> [] then Inl (Error ''stored state event is malformed'')
      else if ContentType m \<noteq> EventContentType then Inl (Error ''stored state event has content type'')
      else case DecodeEvent (Body m) of
          Inl err \<Rightarrow> Inl (Wrap ''decode stored state event'' err)
        | Inr e \<Rightarrow> if EventID (event_Metadata e) \<noteq> msg_ID m then Inl (Error ''stored state event ID mismatch'') else Inr e)"

fun event_records :: "ReceivedMessage list \<Rightarrow> EventRecord list result" where
  "event_records [] = Inr []"
| "event_records (m # ms) =
     (case stored_event (rcv_Message m) of
        Inl err \<Rightarrow> Inl err
      | Inr e \<Rightarrow>
          (case event_records ms of
             Inl err \<Rightarrow> Inl err
           | Inr rs \<Rightarrow> Inr (\<lparr>er_Event = e, er_Receipt = rcv_Receipt m\<rparr> # rs)))"

definition eventConsumer_Receive :: "('w, 'c) provider \<Rightarrow> int \<Rightarrow> 'w \<times> 'c \<Rightarrow> ('w \<times> 'c) \<times> EventBatch result" where
  "eventConsumer_Receive pv n x =
     (case pv_Receive pv n x of
        (x, Inl err) \<Rightarrow> (x, Inl err)
      | (x, Inr b) \<Rightarrow>
          (x, case event_records (Messages b) of
                Inl err \<Rightarrow> Inl err
              | Inr rs \<Rightarrow> Inr \<lparr>eb_Records = rs, eb_CaughtUp = CaughtUp b\<rparr>))"

section \<open>Stored values are read back\<close>

lemma stored_event_message:
  assumes "EncodeEvent (Some e) = Inr body" "portable_event e"
  shows "stored_event (event_message e body) = Inr e"
  using DecodeEvent_roundtrip [OF assms] by (simp add: stored_event_def event_message_def)

lemma stored_snapshot_message:
  assumes "EncodeSnapshot s = Inr body" "portable_snapshot s"
  shows "stored_snapshot (snapshot_message s body) = Inr s"
  using DecodeSnapshot_roundtrip [OF assms] by (simp add: stored_snapshot_def snapshot_message_def)

text \<open>The newest of the snapshots that a list of messages holds.\<close>

fun newest :: "Snapshot \<Rightarrow> Message list \<Rightarrow> Snapshot result" where
  "newest result [] = Inr result"
| "newest result (m # ms) =
     (case stored_snapshot m of Inl err \<Rightarrow> Inl err | Inr s \<Rightarrow> newest (newer_snapshot result s) ms)"

lemma newest_append: "newest r (ms @ ms') = (case newest r ms of Inl err \<Rightarrow> Inl err | Inr r' \<Rightarrow> newest r' ms')"
  by (induction ms arbitrary: r) (simp_all split: sum.split)

context replay_provider
begin

abbreviation keeps :: "'w \<times> 'c \<Rightarrow> 'w \<times> 'c \<Rightarrow> bool" where
  "keeps x x' \<equiv> sent (fst x') = sent (fst x) \<and> (good (fst x) \<longrightarrow> good (fst x')) \<and> dest (snd x') = dest (snd x) \<and>
     (\<forall>d k. usable d \<and> d \<noteq> dest (snd x) \<longrightarrow> backlog (fst x') d k = backlog (fst x) d k)"

lemma load_batch_newest:
  "inflight x ms rest \<Longrightarrow>
   \<exists>x'. load_batch pv ms result x = (x', newest result (map rcv_Message ms)) \<and> keeps x x' \<and>
     (\<exists>ms'. inflight x' ms' rest) \<and> ((\<exists>s. newest result (map rcv_Message ms) = Inr s) \<longrightarrow> inflight x' [] rest)"
proof (induction ms arbitrary: x result)
  case (Cons m ms)
  show ?case
  proof (cases "stored_snapshot (rcv_Message m)")
    case (Inl err)
    then show ?thesis using Cons.prems by auto
  next
    case (Inr s)
    obtain y where y: "pv_Ack pv (rcv_Receipt m) x = (y, None)" "inflight y ms rest" "keeps x y"
      using ack [OF Cons.prems] by blast
    obtain z where "load_batch pv ms (newer_snapshot result s) y = (z, newest (newer_snapshot result s) (map rcv_Message ms))" "keeps y z"
      "\<exists>ms'. inflight z ms' rest" "(\<exists>s'. newest (newer_snapshot result s) (map rcv_Message ms) = Inr s') \<longrightarrow> inflight z [] rest"
      using Cons.IH [OF y(2)] by blast
    then show ?thesis using y(1,3) Inr by (intro exI [of _ z]) simp
  qed
qed auto

lemma load_loop_newest:
  assumes "inflight x [] rest" "1 \<le> n"
  shows "\<exists>x'. load_loop pv n result x = Some (x', newest result (map rcv_Message rest)) \<and> keeps x x' \<and>
    (\<exists>ms rest'. inflight x' ms rest')"
  using assms(1)
proof (induction "length rest" arbitrary: x rest result rule: less_induct)
  case less
  show ?case
  proof (cases "rest = []")
    case True
    then show ?thesis using caught_up [OF less.prems] less.prems by (subst load_loop.simps) auto
  next
    case False
    let ?b = "take (nat n) rest" and ?r = "drop (nat n) rest"
    obtain y b where y: "pv_Receive pv n x = (y, Inr b)" "Messages b = ?b" "inflight y ?b ?r" "fst y = fst x" "dest (snd y) = dest (snd x)"
      using receive [OF less.prems assms(2)] by blast
    obtain z where z: "load_batch pv ?b result y = (z, newest result (map rcv_Message ?b))" "keeps y z" "\<exists>ms'. inflight z ms' ?r"
      "(\<exists>s. newest result (map rcv_Message ?b) = Inr s) \<longrightarrow> inflight z [] ?r"
      using load_batch_newest [OF y(3)] by blast
    have split: "newest result (map rcv_Message rest) =
        (case newest result (map rcv_Message ?b) of Inl err \<Rightarrow> Inl err | Inr r' \<Rightarrow> newest r' (map rcv_Message ?r))"
      by (metis append_take_drop_id map_append newest_append)
    have step: "load_loop pv n result x =
        (case newest result (map rcv_Message ?b) of
           Inl err \<Rightarrow> Some (z, Inl err) | Inr r' \<Rightarrow> load_loop pv n r' z)"
      using caught_up [OF less.prems] False y z(1) by (subst load_loop.simps) (simp split: sum.split)
    have xz: "keeps x z" using z(2) y(4,5) by simp
    show ?thesis
    proof (cases "newest result (map rcv_Message ?b)")
      case (Inl err)
      then show ?thesis using step split z(3) xz by (intro exI [of _ z]) auto
    next
      case (Inr r')
      have lt: "length ?r < length rest" and i: "inflight z [] ?r" using False assms(2) z(4) Inr by auto
      obtain x' where "load_loop pv n r' z = Some (x', newest r' (map rcv_Message ?r))" "keeps z x'" "\<exists>ms rest'. inflight x' ms rest'"
        using less.hyps [OF lt i] by blast
      then show ?thesis using step split Inr xz by (intro exI [of _ x']) simp
    qed
  qed
qed

lemma LoadSnapshot_newest:
  assumes "good w" "usable (so_SnapshotsDestination opts)" "1 \<le> so_SnapshotLoadBatch opts"
    "length (sent w (so_SnapshotsDestination opts)) < 2 ^ 63"
  shows "\<exists>w'. LoadSnapshot pv opts w =
    Some (w', newest EmptySnapshot (map rcv_Message (backlog w (so_SnapshotsDestination opts) snapshotConsumerID))) \<and>
    sent w' = sent w \<and> good w' \<and> (\<forall>d k. usable d \<and> d \<noteq> so_SnapshotsDestination opts \<longrightarrow> backlog w' d k = backlog w d k)"
proof -
  let ?d = "so_SnapshotsDestination opts" and ?n = "so_SnapshotLoadBatch opts"
  have "snapshotConsumerID \<noteq> []" by simp
  from open_earliest [OF assms(1,2) this assms(4)] obtain c where
    c: "pv_OpenConsumer pv \<lparr>spec_ID = snapshotConsumerID, spec_Destination = ?d, spec_StartPosition = StartEarliest, spec_Subscription = None\<rparr> w =
      (w, Inr c)" "inflight (w, c) [] (backlog w ?d snapshotConsumerID)" "dest c = ?d" by blast
  let ?res = "newest EmptySnapshot (map rcv_Message (backlog w ?d snapshotConsumerID))"
  obtain x where x: "load_loop pv ?n EmptySnapshot (w, c) = Some (x, ?res)" "keeps (w, c) x" "\<exists>ms rest. inflight x ms rest"
    using load_loop_newest [OF c(2) assms(3), of EmptySnapshot] by blast
  have "good (fst x)" using x(2) assms(1) by simp
  then obtain y where y: "pv_Close pv ClosePermanent x = (y, None)" "sent (fst y) = sent (fst x)" "good (fst y)"
      "\<forall>d k. usable d \<and> d \<noteq> dest (snd x) \<longrightarrow> backlog (fst y) d k = backlog (fst x) d k"
    using close x(3) by blast
  have "LoadSnapshot pv opts w = Some (fst y, ?res)"
    using c(1) x(1) y(1) by (simp add: LoadSnapshot_def split: sum.splits)
  then show ?thesis using x(2) y(2-4) c(3) by simp
qed

end

section \<open>Properties\<close>

lemma newest_max:
  assumes "\<forall>m\<in>set ms. stored_snapshot m = Inr (f m)"
  shows "\<exists>s. newest r ms = Inr s \<and> s \<in> insert r (f ` set ms) \<and> snap_Revision r \<le> snap_Revision s \<and>
    (\<forall>m\<in>set ms. snap_Revision (f m) \<le> snap_Revision s)"
  using assms
proof (induction ms arbitrary: r)
  case (Cons m ms)
  let ?r = "newer_snapshot r (f m)"
  have r: "?r \<in> {r, f m}" "snap_Revision r \<le> snap_Revision ?r" "snap_Revision (f m) \<le> snap_Revision ?r"
    by (auto simp: newer_snapshot_def)
  obtain s where "newest ?r ms = Inr s" "s \<in> insert ?r (f ` set ms)" "snap_Revision ?r \<le> snap_Revision s"
    "\<forall>m\<in>set ms. snap_Revision (f m) \<le> snap_Revision s"
    using Cons.IH [of ?r] Cons.prems by auto
  with r Cons.prems show ?case by (auto intro: order_trans)
qed simp

definition unread :: "Store \<Rightarrow> Destination \<Rightarrow> ConsumerID \<Rightarrow> bool" where
  "unread w d k \<longleftrightarrow> position_of w (progress_key d k) = 0"

lemma unread_backlog: "unread w d k \<Longrightarrow> map rcv_Message (memory_backlog w d k) = stored w d"
  by (simp add: unread_def memory_backlog_def comp_def map_nth)

lemma unread_Send [simp]: "unread (memory_Send w d m) d' k = unread w d' k"
  by (simp add: unread_def)


definition sample_store :: Store where
  "sample_store = memory_Send (memory_New \<lparr>Provider = ''memory'', Statuses = None\<rparr>) StateSnapshotsDestination
     (snapshot_message sample_verified (projr (EncodeSnapshot sample_verified)))"

lemma default_options:
  "validate_options DefaultOptions = None" "memory_usable (so_SnapshotsDestination DefaultOptions)"
  "memory_usable (so_EventsDestination DefaultOptions)"
  by (simp_all add: DefaultOptions_def validate_options_def memory_usable_def hour_def)

lemma memory_New_good: "memory_good (memory_New caps)" "stored (memory_New caps) d = []" "unread (memory_New caps) d k"
  by (simp_all add: memory_New_def memory_good_def position_of_def stored_def unread_def mget_Some)

lemma sample_store_snapshots:
  "stored sample_store StateSnapshotsDestination = [snapshot_message sample_verified (projr (EncodeSnapshot sample_verified))]"
  "memory_good sample_store" "unread sample_store StateSnapshotsDestination snapshotConsumerID"
  using memory_New_good by (simp_all add: sample_store_def memory_good_Send)


end
