(* ===== verification/Storable.thy ===== *)
theory Storable
  imports Codec
begin

text \<open>
  States and events that survive storage: encoding succeeds and decoding gives the same value back. The
  reducer keeps the state storable when the events are.
\<close>

definition topic_storable :: "Topic \<Rightarrow> bool" where
  "topic_storable t \<longleftrightarrow> portable_topic t \<and> json_time (RegisteredAt t) \<noteq> None"

definition subscription_storable :: "Subscription \<Rightarrow> bool" where
  "subscription_storable b \<longleftrightarrow> portable_subscription b \<and> json_time (LeaseStartedAt b) \<noteq> None"

definition snapshot_storable :: "Snapshot \<Rightarrow> bool" where
  "snapshot_storable s \<longleftrightarrow>
     range_all (\<lambda>_. topic_storable) (Topics s) \<and> range_all (\<lambda>_. subscription_storable) (Subscriptions s)"

definition event_storable :: "event \<Rightarrow> bool" where
  "event_storable e \<longleftrightarrow> portable_event e \<and> (\<exists>body. EncodeEvent (Some e) = Inr body)"

lemma topic_storable_json: "topic_storable t \<Longrightarrow> \<exists>j. topic_json t = Some j"
  by (auto simp: topic_storable_def topic_json_def)

lemma subscription_storable_json: "subscription_storable b \<Longrightarrow> \<exists>j. subscription_json b = Some j"
  by (auto simp: subscription_storable_def subscription_json_def)

lemma those_total: "(\<And>x. x \<in> set xs \<Longrightarrow> \<exists>y. f x = Some y) \<Longrightarrow> \<exists>ys. those (map f xs) = Some ys"
proof (induction xs)
  case (Cons x xs)
  then obtain y ys where "f x = Some y" "those (map f xs) = Some ys" by (meson list.set_intros)
  then show ?case by simp
qed simp

lemma json_slice_total: "(\<And>x. x \<in> set xs \<Longrightarrow> \<exists>y. f x = Some y) \<Longrightarrow> \<exists>j. json_slice f xs = Some j"
  using those_total [of xs f] by (auto simp: json_slice_def)

lemma storable_encodes:
  assumes "valid_snapshot s" "snapshot_storable s"
  shows "\<exists>body. EncodeSnapshot s = Inr body" "portable_snapshot s"
proof -
  have "\<exists>j. json_slice topic_json (map_values (Topics s)) = Some j"
    "\<exists>j. json_slice subscription_json (map_values (Subscriptions s)) = Some j"
    using assms(2)
    by (auto simp: snapshot_storable_def range_all_iff intro!: json_slice_total topic_storable_json subscription_storable_json
        dest!: map_values_mget)
  then have "\<exists>j. snapshot_json (snapshot_wire_of s) = Some j"
    unfolding snapshot_wire_valid [OF assms(1)] by (auto simp: snapshot_json_def)
  then show "\<exists>body. EncodeSnapshot s = Inr body" using assms(1) by (auto simp: EncodeSnapshot_def)
  show "portable_snapshot s"
    using assms(2) by (auto simp: snapshot_storable_def portable_snapshot_def range_all_iff topic_storable_def subscription_storable_def)
qed

text \<open>Changes of status, reason and revision do not matter.\<close>

lemma utf8_statuses: "utf8_ValidString ''active''" "utf8_ValidString ''inactive''" "utf8_ValidString ''stale''" "utf8_ValidString ''removed''"
  by code_simp+

lemma storable_updates [simp]:
  "topic_storable (t\<lparr>topic_Revision := r\<rparr>) = topic_storable t"
  "subscription_storable (b\<lparr>sub_Revision := r\<rparr>) = subscription_storable b"
  "topic_storable t \<Longrightarrow> topic_storable (t\<lparr>topic_Status := TopicActive\<rparr>)"
  "topic_storable t \<Longrightarrow> topic_storable (t\<lparr>topic_Status := TopicInactive\<rparr>)"
  "subscription_storable b \<Longrightarrow> subscription_storable (b\<lparr>sub_Status := SubscriptionActive, StaleReason := []\<rparr>)"
  "subscription_storable b \<Longrightarrow> subscription_storable (b\<lparr>sub_Status := SubscriptionRemoved, StaleReason := []\<rparr>)"
  "subscription_storable b \<Longrightarrow> utf8_ValidString reason \<Longrightarrow> subscription_storable (b\<lparr>sub_Status := SubscriptionStale, StaleReason := reason\<rparr>)"
  by (simp_all add: topic_storable_def subscription_storable_def portable_topic_def portable_subscription_def utf8_statuses)

lemma snapshot_storable_put:
  "snapshot_storable s \<Longrightarrow> topic_storable t \<Longrightarrow> snapshot_storable ((put_topic s k t)\<lparr>snap_Revision := r\<rparr>)"
  "snapshot_storable s \<Longrightarrow> subscription_storable b \<Longrightarrow> snapshot_storable ((put_subscription s k b)\<lparr>snap_Revision := r\<rparr>)"
  by (auto simp: snapshot_storable_def intro!: range_all_mput dest: range_allD)

lemma event_storable_entities:
  "event_storable (TopicRegistered m t) \<Longrightarrow> topic_storable t"
  "event_storable (SubscriptionVerified m b) \<Longrightarrow> subscription_storable b"
  by (auto simp: event_storable_def EncodeEvent_def event_json_def topic_json_def subscription_json_def topic_storable_def
      subscription_storable_def split: option.splits bind_splits)

lemma apply_event_storable:
  assumes "apply_event s e = Inr (n, True)" "snapshot_storable s" "event_storable e"
  shows "(\<exists>k t. event_topic e = Some k \<and> n = put_topic s k t \<and> topic_storable t) \<or>
         (\<exists>k b. event_subscription e = Some k \<and> n = put_subscription s k b \<and> subscription_storable b)"
proof -
  have stored: "topic_storable t" if "mget (Topics s) k = Some t" for k t
    using that assms(2) by (auto simp: snapshot_storable_def dest: range_allD)
  have stored': "subscription_storable b" if "mget (Subscriptions s) k = Some b" for k b
    using that assms(2) by (auto simp: snapshot_storable_def dest: range_allD)
  show ?thesis
  proof (cases e)
    case (TopicRegistered m t)
    with assms(1,3) event_storable_entities(1) [of m t] show ?thesis
      by (auto simp: invalid_transition_def Let_def split: if_splits option.splits)
  next
    case (SubscriptionVerified m b)
    with assms(1,3) event_storable_entities(2) [of m b] show ?thesis
      by (auto simp: invalid_transition_def Let_def verified_value_def split: if_splits option.splits sum.splits)
  next
    case (SubscriptionStaleEvent m k r)
    then have "utf8_ValidString r" using assms(3) by (simp add: event_storable_def)
    with SubscriptionStaleEvent assms(1) stored' show ?thesis
      by (auto simp: invalid_transition_def split: if_splits option.splits)
  qed (use assms(1) stored stored' in \<open>auto simp: removeSubscription_def invalid_transition_def split: if_splits option.splits\<close>)
qed

lemma reducer_step_storable:
  assumes "reducer_step s e = Inr (s', c)" "snapshot_storable s" "event_storable e"
  shows "snapshot_storable s'"
  using assms(1) unfolding reducer_step_def
proof (cases rule: Reducer_ApplyE)
  case (changed n)
  from apply_event_storable [OF changed(4) assms(2,3)] show ?thesis
    using changed(5) assms(2) by (auto simp: stampRevision_shape snapshot_storable_put)
qed (use assms(2) in simp)

lemma EmptySnapshot_storable: "snapshot_storable EmptySnapshot"
  by (simp add: snapshot_storable_def EmptySnapshot_def range_all_iff mget_Some)

end
