(* ===== verification/Consolidator.thy ===== *)
theory Consolidator
  imports State_Store Storable Go_Url
begin

text \<open>
  The state consolidator (\<open>internal/consolidator/service.go\<close>): it replays the event log through the reducer,
  publishes every new snapshot before it acknowledges the event, and stops consuming for good at the
  first failure. Locks only serialise the operations; each of them runs with the consumer lock held
  and is one step of the model. \<open>ctx\<close> is what \<open>ctx.Err()\<close> answers where the code asks.
\<close>

section \<open>The service\<close>

record 'c Service =
  sv_snapshot :: Snapshot
  sv_consumer :: "'c option"
  sv_initialized :: bool
  sv_consumerActive :: bool
  sv_validSnapshot :: bool
  sv_caughtUp :: bool

type_synonym ('w, 'c) running = "'c Service \<times> 'w"

definition consolidator_New :: "'c Service" where
  "consolidator_New = \<lparr>sv_snapshot = EmptySnapshot, sv_consumer = None, sv_initialized = False,
     sv_consumerActive = False, sv_validSnapshot = False, sv_caughtUp = False\<rparr>"

definition service_fail :: "'c Service \<Rightarrow> 'c Service" where
  "service_fail sv = sv\<lparr>sv_consumerActive := False, sv_caughtUp := False\<rparr>"

definition service_Ready :: "'c Service \<Rightarrow> bool" where
  "service_Ready sv = (sv_initialized sv \<and> sv_consumerActive sv \<and> sv_validSnapshot sv \<and> sv_caughtUp sv)"

text \<open>The loop over the records of a batch; \<open>current\<close> is its local variable.\<close>

fun consume_records ::
  "('w, 'c) provider \<Rightarrow> StateOptions \<Rightarrow> EventRecord list \<Rightarrow> Snapshot \<Rightarrow> 'c Service \<Rightarrow> 'w \<times> 'c \<Rightarrow>
   'c Service \<times> ('w \<times> 'c) \<times> goerr option" where
  "consume_records pv opts [] current sv x = (sv, x, None)"
| "consume_records pv opts (r # rs) current sv x =
     (case Reducer_Apply current (Some (er_Event r)) of
        Inl err \<Rightarrow> (service_fail sv, x, Some (Wrap ''reduce state event'' err))
      | Inr (next1, changed) \<Rightarrow>
          (case (if changed then SaveSnapshot pv opts next1 (fst x) else (fst x, None)) of
             (w, Some err) \<Rightarrow> (service_fail sv, (w, snd x), Some (Wrap ''publish snapshot revision'' err))
           | (w, None) \<Rightarrow>
               let current' = (if changed then next1 else current);
                   sv' = (if changed then sv\<lparr>sv_snapshot := next1, sv_validSnapshot := True\<rparr> else sv)
               in (case pv_Ack pv (er_Receipt r) (w, snd x) of
                     (x, Some err) \<Rightarrow> (service_fail sv', x, Some (Wrap ''acknowledge state event'' err))
                   | (x, None) \<Rightarrow> consume_records pv opts rs current' sv' x)))"

definition consume ::
  "('w, 'c) provider \<Rightarrow> StateOptions \<Rightarrow> goerr option \<Rightarrow> int \<Rightarrow> ('w, 'c) running \<Rightarrow> ('w, 'c) running \<times> bool result" where
  "consume pv opts ctx n = (\<lambda>(sv, w).
     case (sv_consumerActive sv, sv_consumer sv) of
       (True, Some c) \<Rightarrow>
         (case pv_CaughtUp pv (w, c) of
            ((w, c), Inl err) \<Rightarrow>
              (case ctx of
                 Some e \<Rightarrow> ((sv\<lparr>sv_consumer := Some c\<rparr>, w), Inl e)
               | None \<Rightarrow> ((service_fail (sv\<lparr>sv_consumer := Some c\<rparr>), w), Inl (Wrap ''check state replay boundary'' err)))
          | ((w, c), Inr caughtUp) \<Rightarrow>
              if caughtUp then ((sv\<lparr>sv_consumer := Some c, sv_caughtUp := True\<rparr>, w), Inr True)
              else
                (case eventConsumer_Receive pv n (w, c) of
                   ((w, c), Inl err) \<Rightarrow>
                     (case ctx of
                        Some e \<Rightarrow> ((sv\<lparr>sv_consumer := Some c\<rparr>, w), Inl e)
                      | None \<Rightarrow> ((service_fail (sv\<lparr>sv_consumer := Some c\<rparr>), w), Inl (Wrap ''receive state events'' err)))
                 | ((w, c), Inr batch) \<Rightarrow>
                     (case consume_records pv opts (eb_Records batch) (sv_snapshot sv) sv (w, c) of
                        (sv, (w, c), Some err) \<Rightarrow> ((sv\<lparr>sv_consumer := Some c\<rparr>, w), Inl err)
                      | (sv, (w, c), None) \<Rightarrow>
                          let sv = sv\<lparr>sv_consumer := Some c\<rparr>
                          in ((if eb_CaughtUp batch then sv\<lparr>sv_caughtUp := True\<rparr> else sv, w), Inr (eb_CaughtUp batch)))))
     | _ \<Rightarrow> ((sv, w), Inl (Error ''state consumer is not active'')))"

text \<open>The loop of \<open>Refresh\<close> and of the end of \<open>Start\<close>.\<close>

partial_function (option) Refresh ::
  "('w, 'c) provider \<Rightarrow> StateOptions \<Rightarrow> goerr option \<Rightarrow> ('w, 'c) running \<Rightarrow> (('w, 'c) running \<times> goerr option) option" where
  "Refresh pv opts ctx st =
     (case consume pv opts ctx 100 st of
        (st, Inl err) \<Rightarrow> Some (st, Some err)
      | (st, Inr caughtUp) \<Rightarrow> if caughtUp then Some (st, None) else Refresh pv opts ctx st)"

definition service_Start ::
  "('w, 'c) provider \<Rightarrow> StateOptions \<Rightarrow> goerr option \<Rightarrow> ('w, 'c) running \<Rightarrow> (('w, 'c) running \<times> goerr option) option" where
  "service_Start pv opts ctx = (\<lambda>(sv, w).
     case Initialize pv opts w of
       (w, Some err) \<Rightarrow> Some ((sv, w), Some (Wrap ''initialize state store'' err))
     | (w, None) \<Rightarrow>
         Option.bind (LoadSnapshot pv opts w) (\<lambda>(w, res).
           case res of
             Inl err \<Rightarrow> Some ((sv, w), Some (Wrap ''load latest snapshot'' err))
           | Inr snapshot \<Rightarrow>
               (case EncodeSnapshot snapshot of
                  Inl err \<Rightarrow> Some ((sv, w), Some (Wrap ''validate initial snapshot'' err))
                | Inr _ \<Rightarrow>
                    (case OpenEvents pv opts ConsolidatorConsumerID StartEarliest w of
                       (w, Inl err) \<Rightarrow> Some ((sv, w), Some (Wrap ''open state consumer'' err))
                     | (w, Inr c) \<Rightarrow>
                         let sv = \<lparr>sv_snapshot = snapshot, sv_consumer = Some c, sv_initialized = True,
                             sv_consumerActive = True, sv_validSnapshot = True, sv_caughtUp = False\<rparr>
                         in (case SaveSnapshot pv opts snapshot w of
                               (w, Some err) \<Rightarrow> Some ((service_fail sv, w), Some (Wrap ''publish initial snapshot'' err))
                             | (w, None) \<Rightarrow> Refresh pv opts ctx (sv, w))))))"

text \<open>\<open>Snapshot\<close> copies the state by encoding and decoding it.\<close>

definition service_Snapshot :: "'c Service \<Rightarrow> Snapshot" where
  "service_Snapshot sv =
     (case EncodeSnapshot (sv_snapshot sv) of
        Inl _ \<Rightarrow> zero_Snapshot
      | Inr body \<Rightarrow> (case DecodeSnapshot body of Inl _ \<Rightarrow> zero_Snapshot | Inr s \<Rightarrow> s))"

definition service_Close :: "('w, 'c) provider \<Rightarrow> ('w, 'c) running \<Rightarrow> ('w, 'c) running \<times> goerr option" where
  "service_Close pv = (\<lambda>(sv, w).
     let sv' = sv\<lparr>sv_consumerActive := False, sv_caughtUp := False\<rparr>
     in case sv_consumer sv of
          None \<Rightarrow> ((sv', w), None)
        | Some c \<Rightarrow> (case pv_Close pv CloseTemporary (w, c) of ((w, c), err) \<Rightarrow> ((sv'\<lparr>sv_consumer := Some c\<rparr>, w), err)))"

record http_reply =
  rp_Status :: int
  rp_ContentType :: string
  rp_Revision :: string
  rp_Body :: string

definition http_error :: "int \<Rightarrow> string \<Rightarrow> http_reply" where
  "http_error status text = \<lparr>rp_Status = status, rp_ContentType = ''text/plain; charset=utf-8'', rp_Revision = [], rp_Body = text @ [CHR 0x0A]\<rparr>"

definition serveSnapshot ::
  "('w, 'c) provider \<Rightarrow> StateOptions \<Rightarrow> goerr option \<Rightarrow> string \<Rightarrow> ('w, 'c) running \<Rightarrow> (('w, 'c) running \<times> http_reply) option" where
  "serveSnapshot pv opts ctx meth st =
     (if meth \<noteq> ''GET'' then Some (st, http_error 405 ''method not allowed'')
      else if \<not> service_Ready (fst st) then Some (st, http_error 503 ''not ready'')
      else map_option (\<lambda>(st, err).
        if err \<noteq> None then (st, http_error 503 ''snapshot unavailable'')
        else let snapshot = service_Snapshot (fst st) in
          (case EncodeSnapshot snapshot of
             Inl _ \<Rightarrow> (st, http_error 503 ''snapshot unavailable'')
           | Inr body \<Rightarrow> (st, \<lparr>rp_Status = 200, rp_ContentType = SnapshotContentType,
               rp_Revision = Itoa (unat (snap_Revision snapshot)), rp_Body = body\<rparr>)))
        (Refresh pv opts ctx st))"

definition serveReady :: "'c Service \<Rightarrow> http_reply" where
  "serveReady sv =
     (if \<not> service_Ready sv then http_error 503 ''not ready''
      else \<lparr>rp_Status = 204, rp_ContentType = [], rp_Revision = [], rp_Body = []\<rparr>)"

section \<open>The client\<close>

text \<open>\<open>internal/consolidator/client.go\<close>. What the HTTP client answers is an argument: an error of the transport
  or a reply.\<close>

record consolidator_client =
  cl_endpoint :: string
  cl_maxBytes :: int

definition trim_slashes :: "string \<Rightarrow> string" where
  "trim_slashes s = rev (dropWhile (\<lambda>c. c = CHR ''/'') (rev s))"

definition NewClient :: "string \<Rightarrow> bool \<Rightarrow> int \<Rightarrow> consolidator_client result" where
  "NewClient endpoint given maxBytes =
     (case url_Parse endpoint of
        None \<Rightarrow> Inl (Error ''consolidator endpoint must be an absolute HTTP URL'')
      | Some parsed \<Rightarrow>
          if Host parsed = [] \<or> (Scheme parsed \<noteq> ''http'' \<and> Scheme parsed \<noteq> ''https'')
          then Inl (Error ''consolidator endpoint must be an absolute HTTP URL'')
          else if \<not> given then Inl (Error ''HTTP client is required'')
          else let limit = (if maxBytes = 0 then 2 ^ 24 else maxBytes)
            in if limit < 1 then Inl (Error ''snapshot response limit must be positive'')
               else Inr \<lparr>cl_endpoint = trim_slashes endpoint, cl_maxBytes = limit\<rparr>)"

definition client_Ready :: "http_reply result \<Rightarrow> goerr option" where
  "client_Ready reply =
     (case reply of
        Inl err \<Rightarrow> Some (Wrap ''request consolidator'' err)
      | Inr r \<Rightarrow> if rp_Status r \<noteq> 204 then Some (Error ''consolidator readiness returned HTTP'') else None)"

definition client_Snapshot :: "consolidator_client \<Rightarrow> http_reply result \<Rightarrow> Snapshot result" where
  "client_Snapshot cl reply =
     (case reply of
        Inl err \<Rightarrow> Inl (Wrap ''request consolidator'' err)
      | Inr r \<Rightarrow>
          if rp_Status r \<noteq> 200 then Inl (Error ''consolidator snapshot returned HTTP'')
          else case ParseMediaType (rp_ContentType r) of
              None \<Rightarrow> Inl (Error ''unexpected snapshot content type'')
            | Some (mediaType, _) \<Rightarrow>
                if mediaType \<noteq> ''application/vnd.websubhub.state-snapshot+json'' then Inl (Error ''unexpected snapshot content type'')
                else if cl_maxBytes cl < int (length (rp_Body r)) then Inl (Error ''consolidator snapshot exceeds configured limit'')
                else case DecodeSnapshot (rp_Body r) of
                    Inl err \<Rightarrow> Inl (Wrap ''decode consolidator snapshot'' err)
                  | Inr s \<Rightarrow> Inr s)"

section \<open>What the service computes\<close>

text \<open>The specification: reduce the events in order up to the first one that is rejected. The result is the
  state and the events that are left.\<close>

fun replay :: "Snapshot \<Rightarrow> event list \<Rightarrow> Snapshot \<times> event list" where
  "replay s [] = (s, [])"
| "replay s (e # es) = (case reducer_step s e of Inl _ \<Rightarrow> (s, e # es) | Inr (s', _) \<Rightarrow> replay s' es)"

lemma replay_append:
  "replay s (es @ es') = (case replay s es of (s', []) \<Rightarrow> replay s' es' | (s', left) \<Rightarrow> (s', left @ es'))"
  by (induction es arbitrary: s) (auto split: sum.splits prod.splits list.splits)

lemma replay_suffix: "replay s es = (s', left) \<Longrightarrow> \<exists>taken. es = taken @ left"
proof (induction es arbitrary: s)
  case (Cons e es)
  then show ?case by (fastforce split: sum.splits prod.splits intro: exI [of _ "[]"])
qed simp

definition holds_event :: "ReceivedMessage \<Rightarrow> event \<Rightarrow> bool" where
  "holds_event m e \<longleftrightarrow> stored_event (rcv_Message m) = Inr e"

definition event_record :: "ReceivedMessage \<Rightarrow> event \<Rightarrow> EventRecord" where
  "event_record m e = \<lparr>er_Event = e, er_Receipt = rcv_Receipt m\<rparr>"

lemma event_records_holds: "list_all2 holds_event ms es \<Longrightarrow> event_records ms = Inr (map2 event_record ms es)"
  by (induction rule: list_all2_induct) (simp_all add: holds_event_def event_record_def)

text \<open>A state that the service may hold with \<open>n\<close> events to come.\<close>

definition sound :: "nat \<Rightarrow> Snapshot \<Rightarrow> bool" where
  "sound n s \<longleftrightarrow> hub_invariant s \<and> snapshot_storable s \<and> revision_count s + n \<le> max_revision"

lemma sound_step:
  assumes "sound (Suc n) s" "event_storable e" "reducer_step s e = Inr (s', c)"
  shows "sound n s'" "\<not> c \<Longrightarrow> s' = s"
proof -
  have lt: "revision_count s < max_revision" using assms(1) by (simp add: sound_def)
  show "sound n s'"
    using hub_reducer.step_keeps [OF _ lt assms(3)] reducer_step_storable [OF assms(3) _ assms(2)] assms(1) by (auto simp: sound_def)
  show "\<not> c \<Longrightarrow> s' = s" using hub_reducer.unchanged assms(3) by auto
qed

lemma replay_sound:
  assumes "sound (length es + n) s" "\<forall>e\<in>set es. event_storable e" "replay s es = (s', left)"
  shows "sound (length left + n) s'"
  using assms
proof (induction es arbitrary: s)
  case (Cons e es)
  show ?case
  proof (cases "reducer_step s e")
    case (Inr r)
    then obtain s1 c where r: "reducer_step s e = Inr (s1, c)" by (cases r) auto
    then have "sound (length es + n) s1" using sound_step(1) [of "length es + n" s e s1 c] Cons.prems by simp
    then show ?thesis using Cons r by auto
  qed (use Cons.prems in auto)
qed simp

lemma sound_encodes: "sound n s \<Longrightarrow> \<exists>body. EncodeSnapshot s = Inr body \<and> stored_snapshot (snapshot_message s body) = Inr s"
  using storable_encodes [of s] stored_snapshot_message [of s] by (auto simp: sound_def hub_invariant_def)

lemma sound_mono: "sound n s \<Longrightarrow> m \<le> n \<Longrightarrow> sound m s"
  by (simp add: sound_def)

text \<open>The last snapshot that was published is the state.\<close>

definition published :: "StateOptions \<Rightarrow> (Destination \<Rightarrow> Message list) \<Rightarrow> Snapshot \<Rightarrow> bool" where
  "published opts log s \<longleftrightarrow>
     (let ms = log (so_SnapshotsDestination opts) in ms \<noteq> [] \<and> stored_snapshot (last ms) = Inr s)"

context replay_provider
begin

lemma save_publishes:
  assumes "sound n s" "good w" "inflight (w, c) batch rest" "dest c \<noteq> so_SnapshotsDestination opts"
  shows "\<exists>w'. SaveSnapshot pv opts s w = (w', None) \<and> good w' \<and> published opts (sent w') s \<and> inflight (w', c) batch rest"
proof -
  obtain body where b: "EncodeSnapshot s = Inr body" "stored_snapshot (snapshot_message s body) = Inr s"
    using sound_encodes [OF assms(1)] by blast
  obtain w' where w': "pv_Send pv (so_SnapshotsDestination opts) (snapshot_message s body) w = (w', None)" "good w'"
      "sent w' = (sent w)(so_SnapshotsDestination opts := sent w (so_SnapshotsDestination opts) @ [snapshot_message s body])"
    using send [OF assms(2)] by blast
  have "inflight (w', c) batch rest" using send_other [OF assms(3) w'(1)] assms(4) by metis
  then show ?thesis using b w' by (simp add: SaveSnapshot_def published_def)
qed

lemma consume_records_replay:
  assumes "list_all2 holds_event ms es" "\<forall>e\<in>set es. event_storable e" "sound (length es) s"
    "inflight (w, c) ms rest" "good w" "dest c \<noteq> so_SnapshotsDestination opts" "published opts (sent w) s" "sv_snapshot sv = s"
  shows "\<exists>sv' w' c' err. consume_records pv opts (map2 event_record ms es) s sv (w, c) = (sv', (w', c'), err) \<and>
    (case replay s es of (s', left) \<Rightarrow>
       sv_snapshot sv' = s' \<and> published opts (sent w') s' \<and> good w' \<and> dest c' = dest c \<and> sound (length left) s' \<and>
       inflight (w', c') (drop (length es - length left) ms) rest \<and> (err = None \<longleftrightarrow> left = []) \<and>
       sv_initialized sv' = sv_initialized sv \<and> (sv_validSnapshot sv \<longrightarrow> sv_validSnapshot sv') \<and>
       sv_consumerActive sv' = (left = [] \<and> sv_consumerActive sv))"
  using assms
proof (induction arbitrary: s sv w c rule: list_all2_induct)
  case (Cons m ms e es)
  show ?case
  proof (cases "reducer_step s e")
    case (Inl err)
    then show ?thesis using Cons.prems by (simp add: reducer_step_def event_record_def service_fail_def)
  next
    case (Inr r)
    then obtain s1 changed where r: "reducer_step s e = Inr (s1, changed)" by (cases r) auto
    note sound1 = sound_step [OF Cons.prems(2) [unfolded list.size add_Suc_right add_0_right] _ r]
    have e: "event_storable e" using Cons.prems(1) by simp
    let ?save = "if changed then SaveSnapshot pv opts s1 w else (w, None)"
    let ?sv = "if changed then sv\<lparr>sv_snapshot := s1, sv_validSnapshot := True\<rparr> else sv"
    obtain w1 where w1: "?save = (w1, None)" "good w1" "published opts (sent w1) s1" "inflight (w1, c) (m # ms) rest"
    proof (cases changed)
      case True
      then show thesis using save_publishes [OF sound1(1) [OF e] Cons.prems(4,3,5)] that by auto
    next
      case False
      then show thesis using sound1(2) [OF e] Cons.prems that by auto
    qed
    obtain w2 c2 where x: "pv_Ack pv (rcv_Receipt m) (w1, c) = ((w2, c2), None)" "inflight (w2, c2) ms rest" "sent w2 = sent w1"
        "dest c2 = dest c" "good w2"
      using ack [OF w1(4)] w1(2) by auto
    have sv: "sv_snapshot ?sv = s1" using sound1(2) [OF e] Cons.prems(7) by auto
    have step: "consume_records pv opts (map2 event_record (m # ms) (e # es)) s sv (w, c) =
        consume_records pv opts (map2 event_record ms es) s1 ?sv (w2, c2)"
      using r w1(1) x(1) sound1(2) [OF e] by (cases changed) (simp_all add: reducer_step_def event_record_def)
    have "sound (length es) s1" "dest c2 \<noteq> so_SnapshotsDestination opts" "published opts (sent w2) s1" "\<forall>e\<in>set es. event_storable e"
      using sound1(1) [OF e] Cons.prems x w1 by simp_all
    note ih = Cons.IH [OF this(4,1) x(2,5) this(2,3) sv]
    obtain s' left where rep: "replay s1 es = (s', left)" by fastforce
    have rep': "replay s (e # es) = (s', left)" using r rep by simp
    have "length left \<le> length es" using replay_suffix [OF rep] by auto
    then have drop: "drop (length (e # es) - length left) (m # ms) = drop (length es - length left) ms" by (simp add: Suc_diff_le)
    have flags: "sv_initialized ?sv = sv_initialized sv" "sv_validSnapshot sv \<longrightarrow> sv_validSnapshot ?sv"
      "sv_consumerActive ?sv = sv_consumerActive sv" by simp_all
    show ?thesis using ih unfolding step rep rep' drop prod.case x(4) flags(1,3) using flags(2) by blast
  qed
qed simp

text \<open>One turn: the next events are replayed up to the first that is rejected; the state is held and published, and what
  is left of the batch is still to be acknowledged.\<close>

lemma consume_replay:
  assumes "sv_consumerActive sv" "sv_initialized sv" "sv_validSnapshot sv" "sv_consumer sv = Some c"
    "inflight (w, c) [] rest" "list_all2 holds_event rest es" "\<forall>e\<in>set es. event_storable e" "sound (length es) (sv_snapshot sv)"
    "good w" "dest c \<noteq> so_SnapshotsDestination opts" "published opts (sent w) (sv_snapshot sv)" "1 \<le> n"
    "replay (sv_snapshot sv) (take (nat n) es) = (s1, left1)"
  shows "\<exists>sv' w' c' res. consume pv opts ctx n (sv, w) = ((sv', w'), res) \<and> sv_consumer sv' = Some c' \<and> dest c' = dest c \<and>
    good w' \<and> published opts (sent w') s1 \<and> sv_snapshot sv' = s1 \<and> sv_initialized sv' \<and> sv_validSnapshot sv' \<and>
    sv_consumerActive sv' = (left1 = []) \<and>
    (if left1 = [] then res = Inr (drop (nat n) es = []) \<and> (drop (nat n) es = [] \<longrightarrow> sv_caughtUp sv') \<and> inflight (w', c') [] (drop (nat n) rest)
     else (\<exists>err. res = Inl err) \<and> (\<exists>batch. inflight (w', c') batch (drop (nat n) rest) \<and> list_all2 holds_event batch left1))"
proof (cases "rest = []")
  case True
  then have "es = []" using assms(6) by simp
  then show ?thesis using assms caught_up [OF assms(5)] True by (auto simp: consume_def)
next
  case False
  let ?b = "take (nat n) rest" and ?r = "drop (nat n) rest" and ?e = "take (nat n) es" and ?f = "drop (nat n) es"
  have h: "list_all2 holds_event ?b ?e" "list_all2 holds_event ?r ?f" using assms(6) by (simp_all add: list_all2_takeI list_all2_dropI)
  have rf: "?r = [] \<longleftrightarrow> ?f = []" using list_all2_lengthD [OF h(2)] by auto
  obtain c1 b where y: "pv_Receive pv n (w, c) = ((w, c1), Inr b)" "Messages b = ?b" "CaughtUp b = (?r = [])" "inflight (w, c1) ?b ?r" "dest c1 = dest c"
    using receive [OF assms(5,12)] by auto
  have recv: "eventConsumer_Receive pv n (w, c) = ((w, c1), Inr \<lparr>eb_Records = map2 event_record ?b ?e, eb_CaughtUp = (?r = [])\<rparr>)"
    using y event_records_holds [OF h(1)] by (simp add: eventConsumer_Receive_def)
  have e: "\<forall>e\<in>set ?e. event_storable e" "sound (length ?e) (sv_snapshot sv)" "dest c1 \<noteq> so_SnapshotsDestination opts"
    using assms(7,10) y(5) sound_mono [OF assms(8)] by (auto dest: in_set_takeD)
  from consume_records_replay [OF h(1) e(1,2) y(4) assms(9) e(3) assms(11) refl] assms(1-3,13) y(5)
  obtain sv1 w1 c2 err where z: "consume_records pv opts (map2 event_record ?b ?e) (sv_snapshot sv) sv (w, c1) = (sv1, (w1, c2), err)"
    "sv_snapshot sv1 = s1" "published opts (sent w1) s1" "good w1" "dest c2 = dest c"
    "inflight (w1, c2) (drop (length ?e - length left1) ?b) ?r" "err = None \<longleftrightarrow> left1 = []"
    "sv_initialized sv1" "sv_validSnapshot sv1" "sv_consumerActive sv1 = (left1 = [])"
    by auto
  obtain taken where "?e = taken @ left1" using replay_suffix [OF assms(13)] by blast
  then have left: "drop (length ?e - length left1) ?e = left1" by simp
  have "list_all2 holds_event (drop (length ?e - length left1) ?b) left1" using list_all2_dropI [OF h(1), of "length ?e - length left1"] unfolding left .
  moreover have "left1 = [] \<Longrightarrow> drop (length ?e - length left1) ?b = []" using list_all2_lengthD [OF h(1)] by simp
  ultimately show ?thesis
    using assms(1,4) caught_up [OF assms(5)] False recv z rf by (cases err) (auto simp: consume_def Let_def)
qed

text \<open>The outcome of consuming to the end: the state that the specification computes is held and published,
  the events it leaves are still to be acknowledged, and the service is ready unless some are left.\<close>

lemma Refresh_replay:
  assumes "sv_consumerActive sv" "sv_initialized sv" "sv_validSnapshot sv" "sv_consumer sv = Some c"
    "inflight (w, c) [] rest" "list_all2 holds_event rest es" "\<forall>e\<in>set es. event_storable e" "sound (length es) (sv_snapshot sv)"
    "good w" "dest c \<noteq> so_SnapshotsDestination opts" "published opts (sent w) (sv_snapshot sv)"
    "replay (sv_snapshot sv) es = (s', left)"
  shows "\<exists>sv' w' c' err batch more. Refresh pv opts ctx (sv, w) = Some ((sv', w'), err) \<and>
    sv_snapshot sv' = s' \<and> published opts (sent w') s' \<and> sv_consumer sv' = Some c' \<and>
    inflight (w', c') batch more \<and> list_all2 holds_event (batch @ more) left \<and>
    (err = None \<longleftrightarrow> left = []) \<and> service_Ready sv' = (left = []) \<and> sv_consumerActive sv' = (left = [])"
  using assms
proof (induction "length es" arbitrary: sv w c rest es rule: less_induct)
  case less
  note p = less.prems
  let ?r = "drop (nat 100) rest" and ?f = "drop (nat 100) es"
  have one: "(1 :: int) \<le> 100" by simp
  obtain s1 left1 where r1: "replay (sv_snapshot sv) (take (nat 100) es) = (s1, left1)" by fastforce
  obtain sv1 w1 c1 res where z: "consume pv opts ctx 100 (sv, w) = ((sv1, w1), res)" "sv_consumer sv1 = Some c1" "dest c1 = dest c"
    "good w1" "published opts (sent w1) s1" "sv_snapshot sv1 = s1" "sv_initialized sv1" "sv_validSnapshot sv1" "sv_consumerActive sv1 = (left1 = [])"
    and out: "if left1 = [] then res = Inr (?f = []) \<and> (?f = [] \<longrightarrow> sv_caughtUp sv1) \<and> inflight (w1, c1) [] ?r
      else (\<exists>err. res = Inl err) \<and> (\<exists>batch. inflight (w1, c1) batch ?r \<and> list_all2 holds_event batch left1)"
    using consume_replay [OF p(1-11) one r1, of ctx] by blast
  have h: "list_all2 holds_event ?r ?f" using p(6) by (rule list_all2_dropI)
  have both: "replay (sv_snapshot sv) es = (case left1 of [] \<Rightarrow> replay s1 ?f | _ \<Rightarrow> (s1, left1 @ ?f))"
    using replay_append [of "sv_snapshot sv" "take (nat 100) es" ?f] r1 by (simp split: list.splits)
  consider (rejected) "left1 \<noteq> []" | (finished) "left1 = []" "?f = []" | (more) "left1 = []" "?f \<noteq> []" by blast
  then show ?case
  proof cases
    case rejected
    then have "s' = s1" "left = left1 @ ?f" using both p(12) by (auto split: list.splits)
    moreover obtain err batch where "res = Inl err" "inflight (w1, c1) batch ?r" "list_all2 holds_event batch left1" using out rejected by auto
    moreover have "list_all2 holds_event (batch @ ?r) (left1 @ ?f)" using calculation(5) h by (rule list_all2_appendI)
    ultimately show ?thesis using z rejected by (subst Refresh.simps) (auto simp: service_Ready_def)
  next
    case finished
    then have "s' = s1" "left = []" using both p(12) by simp_all
    then show ?thesis using z out finished h by (subst Refresh.simps) (auto simp: service_Ready_def)
  next
    case more
    then have "0 < length es" by (cases es) simp_all
    then have lt: "length ?f < length es" by simp
    have "length (take (nat 100) es) + length ?f = length es" by simp
    then have before: "sound (length (take (nat 100) es) + length ?f) (sv_snapshot sv)" using p(8) by simp
    have "\<forall>e\<in>set (take (nat 100) es). event_storable e" and st: "\<forall>e\<in>set ?f. event_storable e"
      using p(7) by (auto dest: in_set_takeD in_set_dropD)
    from replay_sound [OF before this(1) r1] more(1) z(6) have sd: "sound (length ?f) (sv_snapshot sv1)" by simp
    have step: "Refresh pv opts ctx (sv, w) = Refresh pv opts ctx (sv1, w1)" using z(1) out more by (subst Refresh.simps) simp
    have "sv_consumerActive sv1" "inflight (w1, c1) [] ?r" "dest c1 \<noteq> so_SnapshotsDestination opts"
        "published opts (sent w1) (sv_snapshot sv1)" "replay (sv_snapshot sv1) ?f = (s', left)"
      using z out more p(10,12) both by simp_all
    from less.hyps [OF lt this(1) z(7,8,2) this(2) h st sd z(4) this(3-5)] show ?thesis unfolding step .
  qed
qed

lemma Initialize_ok:
  assumes "good w" "usable (so_EventsDestination opts)" "usable (so_SnapshotsDestination opts)"
  shows "\<exists>w'. Initialize pv opts w = (w', None) \<and> good w' \<and> sent w' = sent w \<and> backlog w' = backlog w"
proof -
  obtain w1 where w1: "pv_EnsureDestination pv \<lparr>dst_Name = so_EventsDestination opts, Compacted = False,
      Retention = so_EventsRetention opts, Partitions = 1\<rparr> w = (w1, None)" "good w1" "sent w1 = sent w" "backlog w1 = backlog w"
    using ensure [OF assms(1), of "\<lparr>dst_Name = so_EventsDestination opts, Compacted = False, Retention = so_EventsRetention opts, Partitions = 1\<rparr>"]
      assms(2) by auto
  obtain w2 where "pv_EnsureDestination pv \<lparr>dst_Name = so_SnapshotsDestination opts, Compacted = True,
      Retention = so_SnapshotsRetention opts, Partitions = 1\<rparr> w1 = (w2, None)" "good w2" "sent w2 = sent w1" "backlog w2 = backlog w1"
    using ensure [OF w1(2), of "\<lparr>dst_Name = so_SnapshotsDestination opts, Compacted = True, Retention = so_SnapshotsRetention opts, Partitions = 1\<rparr>"]
      assms(3) by auto
  then show ?thesis using w1 by (simp add: Initialize_def)
qed

lemma Start_replay:
  assumes "good w" "usable (so_EventsDestination opts)" "usable (so_SnapshotsDestination opts)" "validate_options opts = None"
    "length (sent w (so_EventsDestination opts)) < 2 ^ 63" "length (sent w (so_SnapshotsDestination opts)) < 2 ^ 63"
    "newest EmptySnapshot (map rcv_Message (backlog w (so_SnapshotsDestination opts) snapshotConsumerID)) = Inr s"
    "list_all2 holds_event (backlog w (so_EventsDestination opts) ConsolidatorConsumerID) es"
    "\<forall>e\<in>set es. event_storable e" "sound (length es) s" "replay s es = (s', left)"
  shows "\<exists>sv' w' c' err batch more. service_Start pv opts ctx (sv, w) = Some ((sv', w'), err) \<and>
    sv_snapshot sv' = s' \<and> published opts (sent w') s' \<and> sv_consumer sv' = Some c' \<and>
    inflight (w', c') batch more \<and> list_all2 holds_event (batch @ more) left \<and>
    (err = None \<longleftrightarrow> left = []) \<and> service_Ready sv' = (left = []) \<and> sv_consumerActive sv' = (left = [])"
proof -
  let ?ev = "so_EventsDestination opts" and ?sn = "so_SnapshotsDestination opts"
  have opts: "1 \<le> so_SnapshotLoadBatch opts" "?ev \<noteq> ?sn" using assms(4) by (auto simp: validate_options_def split: if_splits)
  obtain w1 where w1: "Initialize pv opts w = (w1, None)" "good w1" "sent w1 = sent w" "backlog w1 = backlog w"
    using Initialize_ok [OF assms(1-3)] by blast
  have "length (sent w1 ?sn) < 2 ^ 63" using w1(3) assms(6) by simp
  from LoadSnapshot_newest [OF w1(2) assms(3) opts(1) this] w1(4) assms(7) obtain w2 where
    w2: "LoadSnapshot pv opts w1 = Some (w2, Inr s)" "sent w2 = sent w1" "good w2" "backlog w2 ?ev ConsolidatorConsumerID = backlog w ?ev ConsolidatorConsumerID"
    using assms(2) opts(2) by auto
  have "length (sent w2 ?ev) < 2 ^ 63" "ConsolidatorConsumerID \<noteq> []" using w1(3) w2(2) assms(5) by simp_all
  from open_earliest [OF w2(3) assms(2) this(2,1)] w2(4) obtain c where
    c: "OpenEvents pv opts ConsolidatorConsumerID StartEarliest w2 = (w2, Inr c)" "dest c = ?ev"
      "inflight (w2, c) [] (backlog w ?ev ConsolidatorConsumerID)" by (auto simp: OpenEvents_def)
  obtain body where body: "EncodeSnapshot s = Inr body" using sound_encodes [OF assms(10)] by blast
  have d: "dest c \<noteq> ?sn" using c(2) opts(2) by simp
  obtain w3 where w3: "SaveSnapshot pv opts s w2 = (w3, None)" "good w3" "published opts (sent w3) s"
      "inflight (w3, c) [] (backlog w ?ev ConsolidatorConsumerID)"
    using save_publishes [OF assms(10) w2(3) c(3) d] by blast
  let ?sv = "\<lparr>sv_snapshot = s, sv_consumer = Some c, sv_initialized = True, sv_consumerActive = True, sv_validSnapshot = True, sv_caughtUp = False\<rparr>"
  have "service_Start pv opts ctx (sv, w) = Refresh pv opts ctx (?sv, w3)"
    using w1(1) w2(1) body c(1) w3(1) by (simp add: service_Start_def)
  then show ?thesis using Refresh_replay [of ?sv c w3 "backlog w ?ev ConsolidatorConsumerID" es opts s' left ctx] w3 assms(8-11) d by simp
qed

end

section \<open>The consolidator on the in-memory store\<close>

text \<open>The log that a hub has written.\<close>

fun append_all :: "('w, 'c) provider \<Rightarrow> StateOptions \<Rightarrow> event list \<Rightarrow> 'w \<Rightarrow> 'w" where
  "append_all pv opts [] w = w"
| "append_all pv opts (e # es) w = append_all pv opts es (fst (Append pv opts (Some e) w))"

lemma append_all_stored:
  assumes "\<forall>e\<in>set es. event_storable e" "memory_good w"
  shows "memory_good (append_all memory_provider opts es w) \<and>
    (\<forall>d. d \<noteq> so_EventsDestination opts \<longrightarrow> stored (append_all memory_provider opts es w) d = stored w d) \<and>
    position_of (append_all memory_provider opts es w) = position_of w \<and>
    (\<exists>ms. stored (append_all memory_provider opts es w) (so_EventsDestination opts) = stored w (so_EventsDestination opts) @ ms \<and>
       list_all2 (\<lambda>m e. stored_event m = Inr e) ms es)"
  using assms
proof (induction es arbitrary: w)
  case (Cons e es)
  obtain body where b: "EncodeEvent (Some e) = Inr body" "portable_event e" using Cons.prems(1) by (auto simp: event_storable_def)
  let ?m = "event_message e body" and ?w = "memory_Send w (so_EventsDestination opts) (event_message e body)"
  have w: "fst (Append memory_provider opts (Some e) w) = ?w" using b(1) by (simp add: Append_def memory_provider_def)
  have es: "\<forall>e\<in>set es. event_storable e" using Cons.prems(1) by simp
  obtain ms where ms: "stored (append_all memory_provider opts es ?w) (so_EventsDestination opts) = stored ?w (so_EventsDestination opts) @ ms"
      "list_all2 (\<lambda>m e. stored_event m = Inr e) ms es"
    using Cons.IH [OF es memory_good_Send [OF Cons.prems(2)]] by blast
  have "list_all2 (\<lambda>m e. stored_event m = Inr e) (?m # ms) (e # es)" using ms(2) stored_event_message [OF b] by simp
  with Cons.IH [OF es memory_good_Send [OF Cons.prems(2)]] ms(1) w show ?case by (auto simp: fun_eq_iff)
qed simp

lemma backlog_holds:
  assumes "position_of w (progress_key d k) = 0" "list_all2 (\<lambda>m e. stored_event m = Inr e) (stored w d) es"
  shows "list_all2 holds_event (memory_backlog w d k) es"
  using assms by (simp add: memory_backlog_def holds_event_def list_all2_conv_all_nth)

lemma EmptySnapshot_sound: "n \<le> max_revision \<Longrightarrow> sound n EmptySnapshot"
  by (simp add: sound_def EmptySnapshot_invariant EmptySnapshot_storable)


definition sample_log :: "event list" where
  "sample_log = [TopicRegistered sample_meta sample_topic, SubscriptionVerified sample_meta sample_subscription]"

lemma sample_log_storable: "\<forall>e\<in>set sample_log. event_storable e"
proof -
  have "validateEvent (Some (TopicRegistered sample_meta sample_topic)) = None"
    "validateEvent (Some (SubscriptionVerified sample_meta sample_subscription)) = None"
    by (rule validateEvent_sample; simp add: sample_topic_def canonical_json)+
  moreover obtain j where "json_time (OccurredAt sample_meta) = Some j" "json_time (RegisteredAt sample_topic) = Some j"
      "json_time (LeaseStartedAt sample_subscription) = Some j"
    using sample_time by (auto simp: sample_meta_def sample_topic_def sample_subscription_def)
  ultimately show ?thesis
    by (auto simp: sample_log_def event_storable_def EncodeEvent_def sample_portable event_json_def metadata_json_def topic_json_def
        subscription_json_def)
qed

lemma sample_log_replay: "replay EmptySnapshot sample_log = (sample_verified, [])"
  by (simp add: sample_log_def sample_register sample_verify)



lemma deregistered_storable: "event_storable (TopicDeregistered sample_meta ''t'')"
proof -
  have "validateEvent (Some (TopicDeregistered sample_meta ''t'')) = None" by (rule validateEvent_sample) simp_all
  moreover obtain j where "json_time (OccurredAt sample_meta) = Some j" using sample_time by (auto simp: sample_meta_def)
  moreover have "utf8_ValidString ''t''" by code_simp
  ultimately show ?thesis
    by (auto simp: event_storable_def EncodeEvent_def sample_portable event_json_def metadata_json_def)
qed


section \<open>Serving the snapshot\<close>

lemma SnapshotContentType_parses: "\<exists>ps. ParseMediaType SnapshotContentType = Some (''application/vnd.websubhub.state-snapshot+json'', ps)"
proof -
  have "map_option fst (ParseMediaType SnapshotContentType) = Some ''application/vnd.websubhub.state-snapshot+json''" by code_simp
  then show ?thesis by auto
qed

context replay_provider
begin

lemma serve_current:
  assumes "sv_consumerActive sv" "sv_initialized sv" "sv_validSnapshot sv" "sv_caughtUp sv" "sv_consumer sv = Some c"
    "inflight (w, c) [] rest" "list_all2 holds_event rest es" "\<forall>e\<in>set es. event_storable e" "sound (length es) (sv_snapshot sv)"
    "good w" "dest c \<noteq> so_SnapshotsDestination opts" "published opts (sent w) (sv_snapshot sv)"
    "replay (sv_snapshot sv) es = (s', left)"
  shows "\<exists>st reply. serveSnapshot pv opts ctx ''GET'' (sv, w) = Some (st, reply) \<and>
    (if left = [] then rp_Status reply = 200 \<and> rp_ContentType reply = SnapshotContentType \<and>
       rp_Revision reply = Itoa (unat (snap_Revision s')) \<and> DecodeSnapshot (rp_Body reply) = Inr s'
     else rp_Status reply = 503)"
proof -
  have ready: "service_Ready sv" using assms(1-4) by (simp add: service_Ready_def)
  obtain sv' w' err where r: "Refresh pv opts ctx (sv, w) = Some ((sv', w'), err)" "sv_snapshot sv' = s'" "err = None \<longleftrightarrow> left = []"
    using Refresh_replay [OF assms(1-3,5-13)] by blast
  show ?thesis
  proof (cases "left = []")
    case True
    have "sound (length left + 0) s'" using replay_sound [of es 0 "sv_snapshot sv"] assms(8,9,13) by simp
    then have v: "valid_snapshot s'" "snapshot_storable s'" by (simp_all add: sound_def hub_invariant_def)
    obtain body where b: "EncodeSnapshot s' = Inr body" using storable_encodes(1) [OF v] by blast
    have d: "DecodeSnapshot body = Inr s'" using DecodeSnapshot_roundtrip [OF b storable_encodes(2) [OF v]] .
    then have "service_Snapshot sv' = s'" using r(2) b by (simp add: service_Snapshot_def)
    then show ?thesis using r ready True b d by (simp add: serveSnapshot_def Let_def)
  next
    case False
    then show ?thesis using r ready by (simp add: serveSnapshot_def http_error_def)
  qed
qed

end

text \<open>(C26) A ready consolidator on the in-memory store answers a request with the state that includes every event stored
  so far, and the client reads exactly that state when it fits the client's limit; if an event is
  rejected it answers 503.\<close>

theorem client_reads_current_state:
  assumes "service_Ready sv" "sv_consumer sv = Some c" "memory_inflight (w, c) [] rest" "list_all2 holds_event rest es"
    "\<forall>e\<in>set es. event_storable e" "sound (length es) (sv_snapshot sv)" "memory_good w"
    "memory_dest c \<noteq> so_SnapshotsDestination opts" "published opts (stored w) (sv_snapshot sv)"
    "replay (sv_snapshot sv) es = (s', left)"
  shows "\<exists>st reply. serveSnapshot memory_provider opts ctx ''GET'' (sv, w) = Some (st, reply) \<and>
    (if left \<noteq> [] then rp_Status reply = 503
     else int (length (rp_Body reply)) \<le> cl_maxBytes cl \<longrightarrow> client_Snapshot cl (Inr reply) = Inr s')"
proof -
  have "sv_consumerActive sv" "sv_initialized sv" "sv_validSnapshot sv" "sv_caughtUp sv" using assms(1) by (simp_all add: service_Ready_def)
  from memory_replay.serve_current [OF this assms(2-10), of ctx] obtain st reply where
    r: "serveSnapshot memory_provider opts ctx ''GET'' (sv, w) = Some (st, reply)"
      "if left = [] then rp_Status reply = 200 \<and> rp_ContentType reply = SnapshotContentType \<and>
         rp_Revision reply = Itoa (unat (snap_Revision s')) \<and> DecodeSnapshot (rp_Body reply) = Inr s'
       else rp_Status reply = 503" by blast
  obtain ps where "ParseMediaType SnapshotContentType = Some (''application/vnd.websubhub.state-snapshot+json'', ps)"
    using SnapshotContentType_parses by blast
  then have "client_Snapshot cl (Inr reply) = Inr s'" if "left = []" "int (length (rp_Body reply)) \<le> cl_maxBytes cl"
    using r(2) that by (simp add: client_Snapshot_def)
  then show ?thesis using r by (cases "left = []") auto
qed

lemma idle_service:
  obtains w c sv where "service_Ready sv" "sv_consumer sv = Some c" "memory_inflight (w, c) [] []" "sv_snapshot sv = EmptySnapshot"
    "memory_good w" "memory_dest c \<noteq> so_SnapshotsDestination DefaultOptions" "published DefaultOptions (stored w) EmptySnapshot"
proof -
  obtain body where b: "stored_snapshot (snapshot_message EmptySnapshot body) = Inr EmptySnapshot"
    using sound_encodes [OF EmptySnapshot_sound [of 0]] by auto
  let ?w = "memory_Send (memory_New \<lparr>Provider = ''memory'', Statuses = None\<rparr>) StateSnapshotsDestination (snapshot_message EmptySnapshot body)"
  have g: "memory_good ?w" by (intro memory_good_Send memory_New_good)
  have e: "stored ?w StateEventsDestination = []" by (simp add: memory_New_good)
  then have "memory_backlog ?w StateEventsDestination ConsolidatorConsumerID = []" by (simp add: memory_backlog_def)
  moreover have "memory_usable StateEventsDestination" by (simp add: memory_usable_def)
  ultimately obtain c where c: "memory_dest c = StateEventsDestination" "memory_inflight (?w, c) [] []"
    using memory_open [OF g, of StateEventsDestination ConsolidatorConsumerID] e by auto
  let ?sv = "\<lparr>sv_snapshot = EmptySnapshot, sv_consumer = Some c, sv_initialized = True, sv_consumerActive = True, sv_validSnapshot = True, sv_caughtUp = True\<rparr>"
  show thesis
    by (rule that [of ?sv c ?w]) (use g c b in \<open>simp_all add: service_Ready_def DefaultOptions_def published_def memory_New_good\<close>)
qed

theorem client_reads_current_state_witness:
  "\<exists>(sv :: memory_consumer Service) w st reply cl.
     serveSnapshot memory_provider DefaultOptions None ''GET'' (sv, w) = Some (st, reply) \<and> client_Snapshot cl (Inr reply) = Inr EmptySnapshot"
proof -
  obtain w c and sv :: "memory_consumer Service" where i: "service_Ready sv" "sv_consumer sv = Some c" "memory_inflight (w, c) [] []"
    "sv_snapshot sv = EmptySnapshot" "memory_good w" "memory_dest c \<noteq> so_SnapshotsDestination DefaultOptions"
    "published DefaultOptions (stored w) EmptySnapshot" by (rule idle_service)
  have "sound (length ([] :: event list)) (sv_snapshot sv)" using EmptySnapshot_sound [of 0] i(4) by simp
  note r = client_reads_current_state [OF i(1-3) _ _ this i(5,6), of EmptySnapshot "[]" None]
  obtain st reply where st: "serveSnapshot memory_provider DefaultOptions None ''GET'' (sv, w) = Some (st, reply)"
    using r [of "\<lparr>cl_endpoint = ''http://c'', cl_maxBytes = 0\<rparr>"] i(4,7) by auto
  then have "client_Snapshot \<lparr>cl_endpoint = ''http://c'', cl_maxBytes = int (length (rp_Body reply))\<rparr> (Inr reply) = Inr EmptySnapshot"
    using r [of "\<lparr>cl_endpoint = ''http://c'', cl_maxBytes = int (length (rp_Body reply))\<rparr>"] i(4,7) by auto
  with st show ?thesis by blast
qed

end
