(* ===== verification/Projection.thy ===== *)
theory Projection
  imports Consolidator
begin

text \<open>
  The hub's local projection of the state (\<open>internal/app/hubstate/projection.go\<close>): it takes the consolidator's
  snapshot as a barrier and then follows the event log. A batch of events is reduced completely before
  any of them is acknowledged. The snapshot source answers through arguments.
\<close>

record 'c Projection =
  pj_serverID :: string
  pj_bufferMax :: int
  pj_snapshot :: Snapshot
  pj_consumer :: "'c option"
  pj_ready :: bool

definition projection_New :: "bool \<Rightarrow> string \<Rightarrow> int \<Rightarrow> 'c Projection result" where
  "projection_New given serverID bufferMax =
     (if \<not> given \<or> serverID = [] then Inl (Error ''state store, snapshot source, and server ID are required'')
      else if bufferMax < 1 then Inl (Error ''startup buffer maximum must be positive'')
      else Inr \<lparr>pj_serverID = serverID, pj_bufferMax = bufferMax, pj_snapshot = EmptySnapshot, pj_consumer = None, pj_ready = False\<rparr>)"

fun reduce :: "Snapshot \<Rightarrow> EventRecord list \<Rightarrow> Snapshot result" where
  "reduce current [] = Inr current"
| "reduce current (r # rs) =
     (case Reducer_Apply current (Some (er_Event r)) of
        Inl err \<Rightarrow> Inl (Wrap ''reduce buffered state event'' err)
      | Inr (next1, _) \<Rightarrow> reduce next1 rs)"

fun acknowledge :: "('w, 'c) provider \<Rightarrow> EventRecord list \<Rightarrow> 'w \<times> 'c \<Rightarrow> ('w \<times> 'c) \<times> goerr option" where
  "acknowledge pv [] x = (x, None)"
| "acknowledge pv (r # rs) x =
     (case pv_Ack pv (er_Receipt r) x of
        (x, Some err) \<Rightarrow> (x, Some (Wrap ''acknowledge state event'' err))
      | (x, None) \<Rightarrow> acknowledge pv rs x)"

definition markUnready :: "'c Projection \<Rightarrow> 'c Projection" where
  "markUnready pj = pj\<lparr>pj_ready := False\<rparr>"

text \<open>\<open>Start\<close>: a failure after the consumer was opened closes it.\<close>

definition startup_fail :: "('w, 'c) provider \<Rightarrow> 'w \<times> 'c \<Rightarrow> goerr \<Rightarrow> 'w \<times> goerr option" where
  "startup_fail pv x cause = (fst (fst (pv_Close pv CloseTemporary x)), Some cause)"

text \<open>The events buffered before the barrier: what came between the consumer's position and the end of the log.\<close>

definition startup_buffer :: "('w, 'c) provider \<Rightarrow> int \<Rightarrow> 'w \<times> 'c \<Rightarrow> ('w \<times> 'c) \<times> EventRecord list result" where
  "startup_buffer pv bufferMax x =
     (case pv_CaughtUp pv x of
        (x, Inl err) \<Rightarrow> (x, Inl (Wrap ''establish hub state consumer'' err))
      | (x, Inr caughtUp) \<Rightarrow>
          if caughtUp then (x, Inr [])
          else
            (case eventConsumer_Receive pv bufferMax x of
               (x, Inl err) \<Rightarrow> (x, Inl (Wrap ''buffer hub state events'' err))
             | (x, Inr buffered) \<Rightarrow>
                 (case pv_CaughtUp pv x of
                    (x, Inl err) \<Rightarrow> (x, Inl (Wrap ''check hub startup buffer boundary'' err))
                  | (x, Inr caughtUp) \<Rightarrow>
                      if caughtUp then (x, Inr (eb_Records buffered))
                      else (x, Inl (Error ''hub startup state buffer exceeded its configured maximum'')))))"

definition projection_Start ::
  "('w, 'c) provider \<Rightarrow> StateOptions \<Rightarrow> goerr option \<Rightarrow> Snapshot result \<Rightarrow> 'c Projection \<times> 'w \<Rightarrow> ('c Projection \<times> 'w) \<times> goerr option" where
  "projection_Start pv opts source_ready source_snapshot = (\<lambda>(pj, w).
     let failed = (\<lambda>x cause. case startup_fail pv x cause of (w, err) \<Rightarrow> ((pj, w), err))
     in case source_ready of
       Some err \<Rightarrow> ((pj, w), Some (Wrap ''consolidator is not ready'' err))
     | None \<Rightarrow>
         (case HubStateConsumerID (pj_serverID pj) of
            Inl err \<Rightarrow> ((pj, w), Some err)
          | Inr k \<Rightarrow>
              (case OpenEvents pv opts k StartLatest w of
                 (w, Inl err) \<Rightarrow> ((pj, w), Some (Wrap ''open hub state consumer'' err))
               | (w, Inr c) \<Rightarrow>
                   (case startup_buffer pv (pj_bufferMax pj) (w, c) of
                      (x, Inl err) \<Rightarrow> failed x err
                    | (x, Inr buffered) \<Rightarrow>
                        (case source_snapshot of
                           Inl err \<Rightarrow> failed x (Wrap ''retrieve barrier snapshot'' err)
                         | Inr snapshot \<Rightarrow>
                             (case EncodeSnapshot snapshot of
                                Inl err \<Rightarrow> failed x (Wrap ''validate barrier snapshot'' err)
                              | Inr _ \<Rightarrow>
                                  (case reduce snapshot buffered of
                                     Inl err \<Rightarrow> failed x err
                                   | Inr current \<Rightarrow>
                                       (case acknowledge pv buffered x of
                                          (x, Some err) \<Rightarrow> failed x err
                                        | ((w, c), None) \<Rightarrow>
                                            ((pj\<lparr>pj_snapshot := current, pj_consumer := Some c, pj_ready := True\<rparr>, w), None)))))))))"

definition projection_Consume ::
  "('w, 'c) provider \<Rightarrow> int \<Rightarrow> 'c Projection \<times> 'w \<Rightarrow> ('c Projection \<times> 'w) \<times> bool result" where
  "projection_Consume pv n = (\<lambda>(pj, w).
     case (pj_ready pj, pj_consumer pj) of
       (True, Some c) \<Rightarrow>
         (case pv_CaughtUp pv (w, c) of
            ((w, c), Inl err) \<Rightarrow> ((markUnready (pj\<lparr>pj_consumer := Some c\<rparr>), w), Inl err)
          | ((w, c), Inr caughtUp) \<Rightarrow>
              if caughtUp then ((pj\<lparr>pj_consumer := Some c\<rparr>, w), Inr True)
              else
                (case eventConsumer_Receive pv n (w, c) of
                   ((w, c), Inl err) \<Rightarrow> ((markUnready (pj\<lparr>pj_consumer := Some c\<rparr>), w), Inl err)
                 | ((w, c), Inr batch) \<Rightarrow>
                     (case reduce (pj_snapshot pj) (eb_Records batch) of
                        Inl err \<Rightarrow> ((markUnready (pj\<lparr>pj_consumer := Some c\<rparr>), w), Inl err)
                      | Inr next1 \<Rightarrow>
                          (case acknowledge pv (eb_Records batch) (w, c) of
                             ((w, c), Some err) \<Rightarrow> ((markUnready (pj\<lparr>pj_consumer := Some c\<rparr>), w), Inl err)
                           | ((w, c), None) \<Rightarrow>
                               ((pj\<lparr>pj_consumer := Some c, pj_snapshot := next1\<rparr>, w), Inr (eb_CaughtUp batch))))))
     | _ \<Rightarrow> ((pj, w), Inl (Error ''hub projection is not ready'')))"

definition projection_Snapshot :: "'c Projection \<Rightarrow> Snapshot" where
  "projection_Snapshot pj =
     (case EncodeSnapshot (pj_snapshot pj) of
        Inl _ \<Rightarrow> zero_Snapshot
      | Inr body \<Rightarrow> (case DecodeSnapshot body of Inl _ \<Rightarrow> zero_Snapshot | Inr s \<Rightarrow> s))"

definition projection_Ready :: "'c Projection \<Rightarrow> bool" where
  "projection_Ready pj = pj_ready pj"

definition projection_Close :: "('w, 'c) provider \<Rightarrow> 'c Projection \<times> 'w \<Rightarrow> ('c Projection \<times> 'w) \<times> goerr option" where
  "projection_Close pv = (\<lambda>(pj, w).
     let pj' = pj\<lparr>pj_ready := False\<rparr>
     in case pj_consumer pj of
          None \<Rightarrow> ((pj', w), None)
        | Some c \<Rightarrow> (case pv_Close pv CloseTemporary (w, c) of ((w, c), err) \<Rightarrow> ((pj'\<lparr>pj_consumer := Some c\<rparr>, w), err)))"

section \<open>Following the log\<close>

text \<open>The state after a list of events, and the state of a log of which the projection has seen a part.\<close>

lemma reduce_fold:
  "(\<exists>err. fold_events reducer_step s es = Inl err \<and> (\<exists>err'. reduce s (map2 event_record ms es) = Inl err')) \<or>
   (\<exists>s'. fold_events reducer_step s es = Inr s' \<and> reduce s (map2 event_record ms es) = Inr s')"
  if "length ms = length es" for ms es s
  using that
proof (induction ms es arbitrary: s rule: list_induct2)
  case (Cons m ms e es)
  show ?case
  proof (cases "reducer_step s e")
    case (Inr r)
    then obtain s1 c where "reducer_step s e = Inr (s1, c)" by (cases r) auto
    with Cons.IH [of s1] show ?thesis by (simp add: reducer_step_def event_record_def)
  qed (simp add: reducer_step_def event_record_def)
qed simp

context replay_provider
begin

lemma acknowledge_all:
  "inflight x ms rest \<Longrightarrow> length ms = length es \<Longrightarrow>
   \<exists>x'. acknowledge pv (map2 event_record ms es) x = (x', None) \<and> inflight x' [] rest"
proof (induction ms arbitrary: x es)
  case (Cons m ms)
  then obtain e es' where es: "es = e # es'" by (cases es) auto
  obtain y where y: "pv_Ack pv (rcv_Receipt m) x = (y, None)" "inflight y ms rest" using ack [OF Cons.prems(1)] by blast
  with Cons.IH [OF y(2), of es'] Cons.prems(2) es show ?case by (simp add: event_record_def)
qed simp

lemma Consume_fold:
  assumes "pj_ready pj" "pj_consumer pj = Some c" "inflight (w, c) [] rest" "list_all2 holds_event rest es" "1 \<le> n"
  shows "\<exists>pj' w' c' res. projection_Consume pv n (pj, w) = ((pj', w'), res) \<and> pj_consumer pj' = Some c' \<and>
    (case fold_events reducer_step (pj_snapshot pj) (take (nat n) es) of
       Inr s' \<Rightarrow> res = Inr (drop (nat n) es = []) \<and> pj_snapshot pj' = s' \<and> pj_ready pj' \<and> inflight (w', c') [] (drop (nat n) rest)
     | Inl _ \<Rightarrow> (\<exists>err. res = Inl err) \<and> pj_snapshot pj' = pj_snapshot pj \<and> \<not> pj_ready pj' \<and>
         inflight (w', c') (take (nat n) rest) (drop (nat n) rest))"
proof (cases "rest = []")
  case True
  then have "es = []" using assms(4) by simp
  then show ?thesis using caught_up [OF assms(3)] True assms by (simp add: projection_Consume_def)
next
  case False
  let ?b = "take (nat n) rest" and ?r = "drop (nat n) rest" and ?e = "take (nat n) es" and ?f = "drop (nat n) es"
  have h: "list_all2 holds_event ?b ?e" "list_all2 holds_event ?r ?f" using assms(4) by (simp_all add: list_all2_takeI list_all2_dropI)
  have len: "length ?b = length ?e" using list_all2_lengthD [OF h(1)] .
  have rf: "?r = [] \<longleftrightarrow> ?f = []" using list_all2_lengthD [OF h(2)] by auto
  obtain c1 b where y: "pv_Receive pv n (w, c) = ((w, c1), Inr b)" "Messages b = ?b" "CaughtUp b = (?r = [])" "inflight (w, c1) ?b ?r"
    using receive [OF assms(3,5)] by auto
  have recv: "eventConsumer_Receive pv n (w, c) = ((w, c1), Inr \<lparr>eb_Records = map2 event_record ?b ?e, eb_CaughtUp = (?r = [])\<rparr>)"
    using y event_records_holds [OF h(1)] by (simp add: eventConsumer_Receive_def)
  note start = assms(1,2) caught_up [OF assms(3)] False recv
  from reduce_fold [OF len, of "pj_snapshot pj"] show ?thesis
  proof (elim disjE exE conjE)
    fix err err' assume "fold_events reducer_step (pj_snapshot pj) ?e = Inl err" "reduce (pj_snapshot pj) (map2 event_record ?b ?e) = Inl err'"
    then show ?thesis using start y(4) by (simp add: projection_Consume_def markUnready_def)
  next
    fix s' assume f: "fold_events reducer_step (pj_snapshot pj) ?e = Inr s'" "reduce (pj_snapshot pj) (map2 event_record ?b ?e) = Inr s'"
    obtain w2 c2 where "acknowledge pv (map2 event_record ?b ?e) (w, c1) = ((w2, c2), None)" "inflight (w2, c2) [] ?r"
      using acknowledge_all [OF y(4) len] by auto
    then show ?thesis using start f rf by (simp add: projection_Consume_def)
  qed
qed

end

section \<open>Properties\<close>

text \<open>(C19) One step of a ready projection on the in-memory store: the next events are reduced in order and all of them are
  acknowledged, or, when the reducer rejects one of them, none is acknowledged, the state stays as it
  was and the projection is no longer ready.\<close>

theorem projection_Consume_all_or_nothing:
  assumes "pj_ready pj" "pj_consumer pj = Some c" "memory_inflight (w, c) [] rest" "list_all2 holds_event rest es" "1 \<le> n"
  shows "\<exists>pj' w' c' res. projection_Consume memory_provider n (pj, w) = ((pj', w'), res) \<and> pj_consumer pj' = Some c' \<and>
    (case fold_events reducer_step (pj_snapshot pj) (take (nat n) es) of
       Inr s' \<Rightarrow> res = Inr (drop (nat n) es = []) \<and> pj_snapshot pj' = s' \<and> pj_ready pj' \<and>
         memory_inflight (w', c') [] (drop (nat n) rest)
     | Inl _ \<Rightarrow> (\<exists>err. res = Inl err) \<and> pj_snapshot pj' = pj_snapshot pj \<and> \<not> pj_ready pj' \<and>
         memory_inflight (w', c') (take (nat n) rest) (drop (nat n) rest))"
  using assms by (rule memory_replay.Consume_fold)

lemma sample_log_consumer:
  obtains w c rest where "memory_inflight (w, c) [] rest" "list_all2 holds_event rest sample_log"
proof -
  let ?w = "append_all memory_provider DefaultOptions sample_log (memory_New \<lparr>Provider = ''memory'', Statuses = None\<rparr>)"
  note w = append_all_stored [OF sample_log_storable memory_New_good(1), of DefaultOptions "\<lparr>Provider = ''memory'', Statuses = None\<rparr>"]
  have ms: "list_all2 (\<lambda>m e. stored_event m = Inr e) (stored ?w (so_EventsDestination DefaultOptions)) sample_log"
    using w unfolding memory_New_good(2) append_Nil by blast
  have pos: "position_of ?w k = 0" for k using w by (simp add: memory_New_def position_of_def mget_Some)
  have "length (stored ?w (so_EventsDestination DefaultOptions)) < 2 ^ 63" using list_all2_lengthD [OF ms] by (simp add: sample_log_def)
  then obtain c where "memory_inflight (?w, c) [] (memory_backlog ?w (so_EventsDestination DefaultOptions) ''hub'')"
    using memory_open [OF conjunct1 [OF w] default_options(3), of "''hub''"] by auto
  with backlog_holds [OF pos ms, of "''hub''"] show thesis using that by blast
qed

theorem projection_Consume_all_or_nothing_witness:
  "\<exists>(pj :: memory_consumer Projection) w pj' w'. projection_Consume memory_provider 10 (pj, w) = ((pj', w'), Inr True) \<and>
     pj_snapshot pj = EmptySnapshot \<and> pj_snapshot pj' = sample_verified"
proof -
  obtain w c rest where i: "memory_inflight (w, c) [] rest" "list_all2 holds_event rest sample_log" by (rule sample_log_consumer)
  let ?pj = "\<lparr>pj_serverID = ''hub'', pj_bufferMax = 10, pj_snapshot = EmptySnapshot, pj_consumer = Some c, pj_ready = True\<rparr>"
  have "fold_events reducer_step EmptySnapshot (take (nat 10) sample_log) = Inr sample_verified" "drop (nat 10) sample_log = []"
    by (simp_all add: sample_log_def sample_register sample_verify)
  with projection_Consume_all_or_nothing [of ?pj c w rest sample_log 10] i show ?thesis by fastforce
qed

text \<open>(C31) Events that the barrier snapshot already includes are not always harmless: a subscription that was verified and
  unsubscribed before the barrier makes the reduction of the buffered events fail, so the projection does
  not start.\<close>

theorem overlapping_events_fail:
  assumes "reducer_step s (SubscriptionVerified m b) = Inr (s1, True)"
    "reducer_step s1 (SubscriptionUnsubscribed m' (sub_ID b)) = Inr (s2, True)"
    "valid_snapshot s2" "map er_Event buffered = [SubscriptionVerified m b, SubscriptionUnsubscribed m' (sub_ID b)]"
  shows "\<exists>err. reduce s2 buffered = Inl err"
proof -
  have v: "validateEvent (Some (SubscriptionVerified m b)) = None"
    using assms(1) unfolding reducer_step_def by (auto elim: Reducer_ApplyE)
  have "\<exists>b2. mget (Subscriptions s2) (sub_ID b) = Some b2 \<and> sub_Status b2 = SubscriptionRemoved"
    using assms(2) unfolding reducer_step_def
  proof (cases rule: Reducer_ApplyE)
    case (changed n)
    then show ?thesis by (auto simp: removeSubscription_def invalid_transition_def split: if_splits option.splits)
  qed simp
  then obtain b2 where b2: "mget (Subscriptions s2) (sub_ID b) = Some b2" "sub_Status b2 = SubscriptionRemoved" by blast
  have "\<exists>err. apply_event s2 (SubscriptionVerified m b) = Inl err"
    using b2 by (auto simp: invalid_transition_def Let_def verified_value_def split: sum.splits option.splits)
  then obtain err where "Reducer_Apply s2 (Some (SubscriptionVerified m b)) = Inl err"
    using Reducer_Apply_rejects [OF assms(3) v] by blast
  moreover obtain r rs where "buffered = r # rs" "er_Event r = SubscriptionVerified m b" using assms(4) by (cases buffered) auto
  ultimately show ?thesis by simp
qed

theorem overlapping_events_fail_witness:
  "\<exists>s2 err. reducer_step sample_verified (SubscriptionUnsubscribed sample_meta ''s'') = Inr (s2, True) \<and>
     reduce s2 [\<lparr>er_Event = SubscriptionVerified sample_meta sample_subscription, er_Receipt = sample_receipt\<rparr>,
       \<lparr>er_Event = SubscriptionUnsubscribed sample_meta ''s'', er_Receipt = sample_receipt\<rparr>] = Inl err"
proof -
  let ?e = "SubscriptionUnsubscribed sample_meta ''s''"
  have "validateEvent (Some ?e) = None" by (rule validateEvent_sample) simp_all
  moreover have "mget (Subscriptions sample_verified) ''s'' = Some sample_subscription" by (simp add: sample_verified_def mget_Some)
  then have "\<exists>n. apply_event sample_verified ?e = Inr (n, True)" by (simp add: removeSubscription_def sample_subscription_def)
  ultimately obtain s2 where s2: "reducer_step sample_verified ?e = Inr (s2, True)"
    using Reducer_ApplyI [OF valid_sample(3)] by (auto simp: reducer_step_def)
  have "valid_snapshot s2"
    using transition_valid [OF Reducer_Apply_transition [OF s2 [unfolded reducer_step_def]] valid_sample(3)] by (simp add: sample_verified_def)
  moreover have id: "sub_ID sample_subscription = ''s''" by (simp add: sample_subscription_def)
  ultimately have "\<exists>err. reduce s2 [\<lparr>er_Event = SubscriptionVerified sample_meta sample_subscription, er_Receipt = sample_receipt\<rparr>,
       \<lparr>er_Event = ?e, er_Receipt = sample_receipt\<rparr>] = Inl err"
    using s2 by (intro overlapping_events_fail [OF sample_verify, of sample_meta s2]) (simp_all only: id EventRecord.select_convs list.map)
  with s2 show ?thesis by blast
qed

end
