(* ===== verification/Secrets.thy ===== *)
theory Secrets
  imports Go_Base64
begin

text \<open>
  The protection of subscription secrets (\<open>internal/security/secrets/provider.go\<close>). AES-GCM is an argument: an
  \<open>aead\<close> with its \<open>Seal\<close> and \<open>Open\<close>, made from the key by \<open>newGCM\<close> (\<open>aes.NewCipher\<close> and \<open>cipher.NewGCM\<close>); \<open>ctx\<close> is
  what \<open>ctx.Err()\<close> answers, \<open>rnd\<close> the bytes \<open>crypto/rand\<close> delivers, \<open>read\<close> what the key file holds.
\<close>

section \<open>The provider\<close>

abbreviation keyBytes :: nat where "keyBytes \<equiv> 32"

text \<open>\<open>aead_Seal nonce plaintext data\<close> is the ciphertext with its tag, without the destination prefix.\<close>

record aead =
  aead_NonceSize :: nat
  aead_Overhead :: nat
  aead_Seal :: "string \<Rightarrow> string \<Rightarrow> string \<Rightarrow> string"
  aead_Open :: "string \<Rightarrow> string \<Rightarrow> string \<Rightarrow> string result"

record Provider =
  prov_keyID :: string
  prov_aead :: "aead option"

definition decodeKey :: "string \<Rightarrow> string result" where
  "decodeKey body =
     (if length body = keyBytes then Inr body
      else case base64_Decode (TrimSpace body) of
          None \<Rightarrow> Inl (Error ''subscription secret key must be exactly 32 raw bytes or their standard base64 encoding'')
        | Some decoded \<Rightarrow>
            if length decoded \<noteq> keyBytes
            then Inl (Error ''subscription secret key must be exactly 32 raw bytes or their standard base64 encoding'')
            else Inr decoded)"

definition OpenFile :: "(string \<Rightarrow> aead result) \<Rightarrow> (string \<Rightarrow> string result) \<Rightarrow> string \<Rightarrow> string \<Rightarrow> Provider result" where
  "OpenFile newGCM read path keyID =
     (if path = [] \<or> keyID = [] then Inl (Error ''secret key file and key ID are required'')
      else case read path of
          Inl err \<Rightarrow> Inl (Wrap ''read subscription secret key'' err)
        | Inr body \<Rightarrow>
            (case decodeKey body of
               Inl err \<Rightarrow> Inl err
             | Inr key \<Rightarrow>
                 (case newGCM key of
                    Inl _ \<Rightarrow> Inl (Error ''initialize subscription secret encryption'')
                  | Inr a \<Rightarrow> Inr \<lparr>prov_keyID = keyID, prov_aead = Some a\<rparr>)))"

text \<open>\<^const>\<open>None\<close> is a nil provider.\<close>

definition secrets_Seal :: "goerr option \<Rightarrow> string result \<Rightarrow> Provider option \<Rightarrow> string \<Rightarrow> (string \<times> string) result" where
  "secrets_Seal ctx rnd p plaintext =
     (case ctx of
        Some err \<Rightarrow> Inl err
      | None \<Rightarrow>
          (case (p, Option.bind p prov_aead) of
             (Some p, Some a) \<Rightarrow>
               if prov_keyID p = [] then Inl (Error ''subscription secret provider is unavailable'')
               else (case rnd of
                   Inl _ \<Rightarrow> Inl (Error ''generate subscription secret nonce'')
                 | Inr nonce \<Rightarrow> Inr (nonce @ aead_Seal a nonce plaintext (prov_keyID p), prov_keyID p))
           | _ \<Rightarrow> Inl (Error ''subscription secret provider is unavailable'')))"

definition secrets_Open :: "goerr option \<Rightarrow> Provider option \<Rightarrow> string \<Rightarrow> string \<Rightarrow> string result" where
  "secrets_Open ctx p ciphertext keyID =
     (case ctx of
        Some err \<Rightarrow> Inl err
      | None \<Rightarrow>
          (case (p, Option.bind p prov_aead) of
             (Some p, Some a) \<Rightarrow>
               if keyID = [] \<or> keyID \<noteq> prov_keyID p \<or> length ciphertext < aead_NonceSize a + aead_Overhead a
               then Inl (Error ''open subscription secret'')
               else (case aead_Open a (take (aead_NonceSize a) ciphertext) (drop (aead_NonceSize a) ciphertext) keyID of
                   Inl _ \<Rightarrow> Inl (Error ''open subscription secret'')
                 | Inr plaintext \<Rightarrow> Inr plaintext)
           | _ \<Rightarrow> Inl (Error ''open subscription secret'')))"

section \<open>Sealed secrets\<close>

text \<open>What \<open>crypto/cipher\<close> documents of an AEAD: opening undoes sealing, with the same nonce and additional data, and
  sealing adds the overhead; opening returns a plaintext only for what sealing it produces (the mode is
  deterministic, so this is what a successful authentication means).\<close>

definition aead_documented :: "aead \<Rightarrow> bool" where
  "aead_documented a \<longleftrightarrow>
     (\<forall>nonce plaintext data. length nonce = aead_NonceSize a \<longrightarrow>
        aead_Open a nonce (aead_Seal a nonce plaintext data) data = Inr plaintext \<and>
        length (aead_Seal a nonce plaintext data) = length plaintext + aead_Overhead a) \<and>
     (\<forall>nonce body data plaintext. aead_Open a nonce body data = Inr plaintext \<longrightarrow> body = aead_Seal a nonce plaintext data)"

lemma decodeKey_sound: "decodeKey body = Inr key \<Longrightarrow> length key = keyBytes \<and> (body = key \<or> base64_Decode (TrimSpace body) = Some key)"
  by (auto simp: decodeKey_def split: if_splits option.splits)

lemma OpenFile_sound:
  assumes "OpenFile newGCM read path keyID = Inr p"
  obtains body key a where "read path = Inr body" "decodeKey body = Inr key" "newGCM key = Inr a" "keyID \<noteq> []"
    "p = \<lparr>prov_keyID = keyID, prov_aead = Some a\<rparr>"
  using assms by (auto simp: OpenFile_def split: if_splits sum.splits)

lemma Open_Seal:
  assumes "aead_documented a" "p = \<lparr>prov_keyID = keyID, prov_aead = Some a\<rparr>" "keyID \<noteq> []"
  shows "secrets_Open None (Some p) ciphertext k = Inr plaintext \<longleftrightarrow>
    (\<exists>nonce. length nonce = aead_NonceSize a \<and> secrets_Seal None (Inr nonce) (Some p) plaintext = Inr (ciphertext, k))"
proof
  let ?n = "take (aead_NonceSize a) ciphertext" and ?b = "drop (aead_NonceSize a) ciphertext"
  assume "secrets_Open None (Some p) ciphertext k = Inr plaintext"
  then have k: "k = keyID" "aead_NonceSize a + aead_Overhead a \<le> length ciphertext" "aead_Open a ?n ?b keyID = Inr plaintext"
    using assms(2) by (auto simp: secrets_Open_def split: if_splits sum.splits)
  from k(3) have "?b = aead_Seal a ?n plaintext keyID" using assms(1) unfolding aead_documented_def by blast
  then have "ciphertext = ?n @ aead_Seal a ?n plaintext keyID" by (metis append_take_drop_id)
  with k(1,2) assms(2,3) show "\<exists>nonce. length nonce = aead_NonceSize a \<and>
      secrets_Seal None (Inr nonce) (Some p) plaintext = Inr (ciphertext, k)"
    by (intro exI [of _ ?n]) (simp add: secrets_Seal_def)
next
  assume "\<exists>nonce. length nonce = aead_NonceSize a \<and> secrets_Seal None (Inr nonce) (Some p) plaintext = Inr (ciphertext, k)"
  then obtain nonce where n: "length nonce = aead_NonceSize a" "ciphertext = nonce @ aead_Seal a nonce plaintext keyID" "k = keyID"
    using assms(2,3) by (auto simp: secrets_Seal_def)
  with assms(1) have "aead_Open a nonce (aead_Seal a nonce plaintext keyID) keyID = Inr plaintext"
    "length (aead_Seal a nonce plaintext keyID) = length plaintext + aead_Overhead a"
    unfolding aead_documented_def by blast+
  with n assms(2,3) show "secrets_Open None (Some p) ciphertext k = Inr plaintext" by (simp add: secrets_Open_def)
qed

text \<open>(C34) A provider made from a key file, with a cipher that does what is documented, has a key of exactly 256 bits
  and a key identifier, and it opens exactly what it has sealed: a ciphertext opens to a plaintext under a key
  identifier if and only if sealing that plaintext with some nonce gives that ciphertext and identifier.\<close>

theorem secrets_roundtrip:
  assumes "OpenFile newGCM read path keyID = Inr p" "\<And>key a. newGCM key = Inr a \<Longrightarrow> aead_documented a"
  shows "\<exists>key a. length key = keyBytes \<and> newGCM key = Inr a \<and>
    (\<forall>ciphertext k plaintext. secrets_Open None (Some p) ciphertext k = Inr plaintext \<longleftrightarrow>
       (\<exists>nonce. length nonce = aead_NonceSize a \<and> secrets_Seal None (Inr nonce) (Some p) plaintext = Inr (ciphertext, k)))"
proof -
  obtain body key a where k: "decodeKey body = Inr key" "newGCM key = Inr a" "keyID \<noteq> []"
    "p = \<lparr>prov_keyID = keyID, prov_aead = Some a\<rparr>" using OpenFile_sound [OF assms(1)] by metis
  with decodeKey_sound [OF k(1)] Open_Seal [OF assms(2) [OF k(2)] k(4,3)] show ?thesis by blast
qed

text \<open>A cipher that satisfies the hypothesis: the tag is the nonce, the key identifier's length and a constant.\<close>

definition sample_aead :: aead where
  "sample_aead = \<lparr>aead_NonceSize = 1, aead_Overhead = 2,
     aead_Seal = (\<lambda>nonce plaintext data. [hd (nonce @ ''n''), CHR ''!''] @ plaintext),
     aead_Open = (\<lambda>nonce body data. if take 2 body = [hd (nonce @ ''n''), CHR ''!''] then Inr (drop 2 body) else Inl (Error ''message authentication failed''))\<rparr>"

lemma sample_aead_documented: "aead_documented sample_aead"
proof -
  have "body = [x, y] @ drop 2 body" if "take 2 body = [x, y]" for body and x y :: char
    using that append_take_drop_id [of 2 body] by simp
  then show ?thesis unfolding aead_documented_def
    by (intro conjI allI impI) (simp_all add: sample_aead_def split: if_splits, metis)
qed

definition sample_key :: string where "sample_key = replicate 32 CHR ''k''"

theorem secrets_roundtrip_witness:
  "\<exists>p. OpenFile (\<lambda>_. Inr sample_aead) (\<lambda>_. Inr sample_key) ''f'' ''id'' = Inr p \<and>
     secrets_Seal None (Inr ''x'') (Some p) ''s'' = Inr (''xx!s'', ''id'') \<and> secrets_Open None (Some p) ''xx!s'' ''id'' = Inr ''s''"
proof -
  let ?p = "\<lparr>prov_keyID = ''id'', prov_aead = Some sample_aead\<rparr>"
  have o: "OpenFile (\<lambda>_. Inr sample_aead) (\<lambda>_. Inr sample_key) ''f'' ''id'' = Inr ?p"
    by (simp add: OpenFile_def decodeKey_def sample_key_def)
  have s: "secrets_Seal None (Inr ''x'') (Some ?p) ''s'' = Inr (''xx!s'', ''id'')"
    by (simp add: secrets_Seal_def sample_aead_def)
  moreover have "secrets_Open None (Some ?p) ''xx!s'' ''id'' = Inr ''s''"
  proof -
    obtain a where "(Inr a :: aead result) = Inr sample_aead" "secrets_Open None (Some ?p) ''xx!s'' ''id'' = Inr ''s'' \<longleftrightarrow>
        (\<exists>nonce. length nonce = aead_NonceSize a \<and> secrets_Seal None (Inr nonce) (Some ?p) ''s'' = Inr (''xx!s'', ''id''))"
      using secrets_roundtrip [OF o] sample_aead_documented by force
    with s show ?thesis by (auto simp: sample_aead_def intro!: exI [of _ "''x''"])
  qed
  ultimately show ?thesis using o by blast
qed

end
