(* ===== verification/Admin.thy ===== *)
theory Admin
  imports Auth Management Capabilities Codec
begin

text \<open>
  The operations endpoints (\<open>internal/admin/service.go\<close>): health, capabilities, metrics and the management
  queries, each handler over the answers of its dependencies. The routing of \<open>http.ServeMux\<close> and the parsing of
  queries by \<open>net/url\<close> are modelled; redirections and errors that the multiplexer makes itself are only
  named.
\<close>

section \<open>Requests\<close>

record ops_request =
  rq_Method :: string
  rq_URL :: URL
  rq_Authorization :: "string list"

text \<open>\<open>url.ParseQuery\<close>: the pairs in order, malformed ones left out; nothing when there are more than 10000.\<close>

definition QueryUnescape :: "string \<Rightarrow> string option" where
  "QueryUnescape s = unescape (map (\<lambda>c. if c = CHR ''+'' then CHR '' '' else c) s)"

definition query_pair :: "string \<Rightarrow> (string \<times> string) list" where
  "query_pair part =
     (if CHR '';'' \<in> set part \<or> part = [] then []
      else case Cut part CHR ''='' of
          (key, val, _) \<Rightarrow>
            (case (QueryUnescape key, QueryUnescape val) of (Some k, Some v) \<Rightarrow> [(k, v)] | _ \<Rightarrow> []))"

definition ParseQuery :: "string \<Rightarrow> (string \<times> string) list" where
  "ParseQuery query = (let parts = Split query CHR ''&'' in
     if 10000 < length parts then [] else concat (map query_pair parts))"

definition query_of :: "ops_request \<Rightarrow> (string \<times> string) list" where
  "query_of req = ParseQuery (RawQuery (rq_URL req))"

definition query_Get :: "(string \<times> string) list \<Rightarrow> string \<Rightarrow> string" where
  "query_Get query name = (case map_of query name of None \<Rightarrow> [] | Some v \<Rightarrow> v)"

definition query_Has :: "(string \<times> string) list \<Rightarrow> string \<Rightarrow> bool" where
  "query_Has query name = (name \<in> fst ` set query)"

section \<open>Responses\<close>

definition json_body :: "json option \<Rightarrow> string" where
  "json_body j = (case j of None \<Rightarrow> [] | Some j \<Rightarrow> json_text j @ [CHR 0x0A])"

definition writeJSON :: "int \<Rightarrow> json option \<Rightarrow> response" where
  "writeJSON status j = \<lparr>rs_Status = status, rs_Header = [(''Content-Type'', ''application/json'')], rs_Body = json_body j\<rparr>"

definition NotFound :: response where
  "NotFound = error_response [] 404 ''404 page not found''"

definition writeQueryError :: "goerr \<Rightarrow> response" where
  "writeQueryError err =
     (if errors_is err ErrInvalidQuery then error_response [] 400 ''invalid management query''
      else if errors_is err ErrNotFound then error_response [] 404 ''management resource not found''
      else error_response [] 503 ''management state unavailable'')"

text \<open>A check of the request answers it (\<open>Inl\<close>) or lets it pass.\<close>

definition onlyGET :: "ops_request \<Rightarrow> response + unit" where
  "onlyGET req =
     (if rq_Method req = ''GET'' then Inr ()
      else Inl (error_response [(''Allow'', ''GET'')] 405 ''method not allowed''))"

definition pageLimit :: "ops_request \<Rightarrow> response + int" where
  "pageLimit req =
     (if query_Has (query_of req) ''cursor'' then Inl (error_response [] 400 ''cursor is not supported in v0.5'')
      else let val = query_Get (query_of req) ''limit'' in
        if val = [] then Inr MaximumPageSize
        else case ParseInt 64 val of
            None \<Rightarrow> Inl (error_response [] 400 ''limit must be between 1 and 100'')
          | Some limit \<Rightarrow>
              if limit < 1 \<or> MaximumPageSize < limit then Inl (error_response [] 400 ''limit must be between 1 and 100'')
              else Inr limit)"

definition onlyQueryParameters :: "ops_request \<Rightarrow> string list \<Rightarrow> response + unit" where
  "onlyQueryParameters req allowed =
     (if list_all (\<lambda>p. fst p \<in> set allowed) (query_of req) then Inr ()
      else Inl (error_response [] 400 ''unsupported query parameter''))"

definition pathID :: "ops_request \<Rightarrow> string \<Rightarrow> response + string" where
  "pathID req prefix1 =
     (let escapedID = TrimPrefix (EscapedPath (rq_URL req)) prefix1 in
      if escapedID = [] \<or> CHR ''/'' \<in> set escapedID then Inl NotFound
      else case unescape escapedID of
          None \<Rightarrow> Inl NotFound
        | Some k \<Rightarrow> if k = [] then Inl NotFound else Inr k)"

definition passing :: "response + 'a \<Rightarrow> ('a \<Rightarrow> response) \<Rightarrow> response" where
  "passing checked continue1 = (case checked of Inl r \<Rightarrow> r | Inr x \<Rightarrow> continue1 x)"

section \<open>JSON of the answers\<close>

definition topicView_json :: "TopicView \<Rightarrow> json option" where
  "topicView_json v = do {
     registered \<leftarrow> json_time (tv_RegisteredAt v);
     Some (JObj [(''id'', json_str (tv_ID v)), (''url'', json_str (tv_URL v)), (''content_type'', json_str (tv_ContentType v)),
       (''status'', json_str (tv_Status v)), (''registered_at'', registered), (''revision'', json_uint (tv_Revision v))]) }"

definition subscriptionView_json :: "SubscriptionView \<Rightarrow> json option" where
  "subscriptionView_json v = do {
     started \<leftarrow> json_time (sv_LeaseStartedAt v);
     Some (JObj ([(''id'', json_str (sv_ID v)), (''topic_id'', json_str (sv_TopicID v)), (''callback'', json_str (sv_Callback v)),
       (''lease_started_at'', started)] @ omit_str ''effective_lease_seconds'' (sv_EffectiveLeaseSeconds v) @
       [(''server_id'', json_str (sv_ServerID v)), (''status'', json_str (sv_Status v))] @
       omit_str ''stale_reason'' (sv_StaleReason v) @ [(''revision'', json_uint (sv_Revision v))])) }"

text \<open>The lists are made with \<open>make\<close>, so they are never nil.\<close>

definition json_list :: "('a \<Rightarrow> json option) \<Rightarrow> 'a list \<Rightarrow> json option" where
  "json_list f xs = (if list_all (\<lambda>x. f x \<noteq> None) xs then Some (JArr (map (\<lambda>x. the (f x)) xs)) else None)"

definition topicPage_json :: "TopicPage \<Rightarrow> json option" where
  "topicPage_json p = do { ts \<leftarrow> json_list topicView_json (tp_Topics p); Some (JObj [(''revision'', json_uint (tp_Revision p)), (''topics'', ts)]) }"

definition subscriptionPage_json :: "SubscriptionPage \<Rightarrow> json option" where
  "subscriptionPage_json p = do { bs \<leftarrow> json_list subscriptionView_json (sp_Subscriptions p);
     Some (JObj [(''revision'', json_uint (sp_Revision p)), (''subscriptions'', bs)]) }"

definition topicResult_json :: "TopicResult \<Rightarrow> json option" where
  "topicResult_json r = do { t \<leftarrow> topicView_json (tr_Topic r); Some (JObj [(''revision'', json_uint (tr_Revision r)), (''topic'', t)]) }"

definition subscriptionResult_json :: "SubscriptionResult \<Rightarrow> json option" where
  "subscriptionResult_json r = do { b \<leftarrow> subscriptionView_json (sr_Subscription r);
     Some (JObj [(''revision'', json_uint (sr_Revision r)), (''subscription'', b)]) }"

section \<open>Handlers\<close>

text \<open>What the dependencies answer during the request; the queries are those of the management service over its
  source of snapshots.\<close>

record admin_deps =
  ad_Ready :: bool
  ad_Projection :: Snapshot
  ad_Capabilities :: "Capabilities result"
  ad_Source :: "Snapshot result"

definition admin_live :: "ops_request \<Rightarrow> response" where
  "admin_live req = passing (onlyGET req) (\<lambda>_. \<lparr>rs_Status = 204, rs_Header = [], rs_Body = []\<rparr>)"

definition ready :: "admin_deps \<Rightarrow> ops_request \<Rightarrow> response" where
  "ready d req = passing (onlyGET req) (\<lambda>_.
     if \<not> ad_Ready d
     then writeJSON 503 (Some (JObj [(''ready'', JBool False), (''reasons'', JArr [json_str ''state_projection_unavailable''])]))
     else writeJSON 200 (Some (JObj [(''ready'', JBool True), (''reasons'', JArr [])])))"

text \<open>The capability statuses in the order of their names, as the sorted list of the map's entries.\<close>

definition capability_json :: "Capabilities \<Rightarrow> string \<Rightarrow> json" where
  "capability_json c name = (let status = the (mget (Statuses c) name) in
     JObj ([(''name'', json_str name), (''support'', json_str (cs_Support status))] @ omit_str ''detail'' (cs_Detail status)))"

definition capabilities_json :: "Capabilities \<Rightarrow> json" where
  "capabilities_json c = JObj
     [(''delivery'', JObj [(''guarantee'', json_str ''at_least_once''), (''replay'', json_str ''unsupported'')]),
      (''message_store'', JArr (map (capability_json c) (sorted_keys (Statuses c)))),
      (''provider'', json_str (Provider c)),
      (''resource_topics'', JObj [(''automatic_failover'', JBool False), (''event_only_fetch'', JBool False),
         (''lease_expiry'', JBool False), (''renewal'', JBool False)])]"

definition capabilities :: "admin_deps \<Rightarrow> ops_request \<Rightarrow> response" where
  "capabilities d req = passing (onlyGET req) (\<lambda>_.
     case ad_Capabilities d of
       Inl _ \<Rightarrow> error_response [] 503 ''capabilities unavailable''
     | Inr c \<Rightarrow>
         if capabilities_Validate c \<noteq> None then error_response [] 503 ''capabilities unavailable''
         else writeJSON 200 (Some (capabilities_json c)))"

definition answer_query :: "('a \<Rightarrow> json option) \<Rightarrow> 'a result \<Rightarrow> response" where
  "answer_query to_json res = (case res of Inl err \<Rightarrow> writeQueryError err | Inr x \<Rightarrow> writeJSON 200 (to_json x))"

definition topics :: "admin_deps \<Rightarrow> ops_request \<Rightarrow> response" where
  "topics d req = passing (onlyGET req) (\<lambda>_.
     passing (onlyQueryParameters req [''limit'', ''status'', ''cursor'']) (\<lambda>_.
     passing (pageLimit req) (\<lambda>limit.
     answer_query topicPage_json
       (ListTopics (ad_Source d) \<lparr>tq_Limit = limit, tq_Status = query_Get (query_of req) ''status''\<rparr>))))"

definition topic :: "admin_deps \<Rightarrow> ops_request \<Rightarrow> response" where
  "topic d req = passing (onlyGET req) (\<lambda>_.
     passing (onlyQueryParameters req []) (\<lambda>_.
     passing (pathID req ''/v1/topics/'') (\<lambda>k.
     answer_query topicResult_json (GetTopic (ad_Source d) k))))"

definition subscriptions :: "admin_deps \<Rightarrow> ops_request \<Rightarrow> response" where
  "subscriptions d req = passing (onlyGET req) (\<lambda>_.
     passing (onlyQueryParameters req [''limit'', ''status'', ''topic_id'', ''cursor'']) (\<lambda>_.
     passing (pageLimit req) (\<lambda>limit.
     answer_query subscriptionPage_json
       (ListSubscriptions (ad_Source d) \<lparr>sq_Limit = limit, sq_Status = query_Get (query_of req) ''status'',
          sq_TopicID = query_Get (query_of req) ''topic_id''\<rparr>))))"

definition subscription :: "admin_deps \<Rightarrow> ops_request \<Rightarrow> response" where
  "subscription d req = passing (onlyGET req) (\<lambda>_.
     passing (onlyQueryParameters req []) (\<lambda>_.
     passing (pathID req ''/v1/subscriptions/'') (\<lambda>k.
     answer_query subscriptionResult_json (GetSubscription (ad_Source d) k))))"

definition status_count :: "Snapshot \<Rightarrow> SubscriptionStatus \<Rightarrow> nat" where
  "status_count s status =
     length (filter (\<lambda>k. sub_Status (the (mget (Subscriptions s) k)) = status) (sorted_keys (Subscriptions s)))"

definition lines_of :: "string list \<Rightarrow> string" where
  "lines_of ls = concat (map (\<lambda>l. l @ [CHR 0x0A]) ls)"

definition status_line :: "Snapshot \<Rightarrow> SubscriptionStatus \<Rightarrow> string" where
  "status_line s status =
     ''websubhub_subscriptions{status='' @ Go_Json.quoted status @ ''} '' @ Itoa (status_count s status)"

definition metrics :: "admin_deps \<Rightarrow> ops_request \<Rightarrow> response" where
  "metrics d req = passing (onlyGET req) (\<lambda>_.
     let s = ad_Projection d in
     \<lparr>rs_Status = 200, rs_Header = [(''Content-Type'', ''text/plain; version=0.0.4'')],
      rs_Body = lines_of
        ([''# TYPE websubhub_ready gauge'', ''websubhub_ready '' @ Itoa (if ad_Ready d then 1 else 0),
          ''# TYPE websubhub_state_revision gauge'', ''websubhub_state_revision '' @ Itoa (unat (snap_Revision s)),
          ''# TYPE websubhub_subscriptions gauge''] @
         map (status_line s) [SubscriptionActive, SubscriptionStale, SubscriptionRemoved])\<rparr>)"

section \<open>Routing\<close>

text \<open>\<open>cleanPath\<close> of \<open>net/http\<close>, over \<open>path.Clean\<close> of a rooted path.\<close>

fun clean_segments :: "string list \<Rightarrow> string list \<Rightarrow> string list" where
  "clean_segments [] acc = rev acc"
| "clean_segments (seg # segs) acc =
     (if seg = [] \<or> seg = ''.'' then clean_segments segs acc
      else if seg = ''..'' then clean_segments segs (tl acc)
      else clean_segments segs (seg # acc))"

definition path_Clean :: "string \<Rightarrow> string" where
  "path_Clean p = (case clean_segments (Split p CHR ''/'') [] of
     [] \<Rightarrow> ''/'' | segs \<Rightarrow> concat (map (\<lambda>seg. CHR ''/'' # seg) segs))"

definition cleanPath :: "string \<Rightarrow> string" where
  "cleanPath p =
     (if p = [] then ''/''
      else let p' = (if hd p \<noteq> CHR ''/'' then CHR ''/'' # p else p); np = path_Clean p'
        in if last p' = CHR ''/'' \<and> np \<noteq> ''/'' then np @ ''/'' else np)"

datatype operations_route = Live | Ready | CapabilitiesRoute | TopicsRoute | TopicRoute | SubscriptionsRoute | SubscriptionRoute | MetricsRoute

text \<open>Segments are compared after unescaping; a pattern that ends in a slash matches every path below it.\<close>

definition path_segments :: "string \<Rightarrow> string list" where
  "path_segments p = map (\<lambda>seg. case unescape seg of None \<Rightarrow> seg | Some t \<Rightarrow> t) (Split (tl p) CHR ''/'')"

definition operations_pattern :: "string list \<Rightarrow> operations_route option" where
  "operations_pattern segs =
     (if segs = [''health'', ''live''] then Some Live
      else if segs = [''health'', ''ready''] then Some Ready
      else if segs = [''v1'', ''system'', ''capabilities''] then Some CapabilitiesRoute
      else if segs = [''v1'', ''topics''] then Some TopicsRoute
      else if take 2 segs = [''v1'', ''topics''] then Some TopicRoute
      else if segs = [''v1'', ''subscriptions''] then Some SubscriptionsRoute
      else if take 2 segs = [''v1'', ''subscriptions''] then Some SubscriptionRoute
      else if segs = [''metrics''] then Some MetricsRoute
      else None)"

datatype served = MuxBadRequest | MuxRedirect | MuxNotFound | Handled response

section \<open>The service\<close>

definition authorized_handler :: "(Principal option \<Rightarrow> string \<Rightarrow> string result) \<Rightarrow> response \<Rightarrow> Principal option \<Rightarrow> response" where
  "authorized_handler authorize answer ctx =
     (case authorize ctx ScopeOperationsRead of
        Inl _ \<Rightarrow> error_response [] 403 ''forbidden''
      | Inr _ \<Rightarrow> answer)"

text \<open>The request's context carries no principal before the middleware.\<close>

definition protected ::
  "('alg, 'key, 'set) jwx \<Rightarrow> ('alg, 'key, 's) jwt_parser \<Rightarrow> ('s, 'set) key_source \<Rightarrow> 'alg authentication \<Rightarrow>
   response \<Rightarrow> ops_request \<Rightarrow> 's \<Rightarrow> 's \<times> response" where
  "protected lib parse source auth answer req s =
     (case auth of
        NoAuthentication \<Rightarrow> (s, none_Middleware (authorized_handler none_Authorize answer) None)
      | JWTAuthentication v \<Rightarrow>
          verifier_Middleware lib parse source v (authorized_handler verifier_Authorize answer) (rq_Authorization req) s)"

fun operations_answer :: "operations_route \<Rightarrow> admin_deps \<Rightarrow> ops_request \<Rightarrow> response" where
  "operations_answer Live d req = admin_live req"
| "operations_answer Ready d req = ready d req"
| "operations_answer CapabilitiesRoute d req = capabilities d req"
| "operations_answer TopicsRoute d req = topics d req"
| "operations_answer TopicRoute d req = topic d req"
| "operations_answer SubscriptionsRoute d req = subscriptions d req"
| "operations_answer SubscriptionRoute d req = subscription d req"
| "operations_answer MetricsRoute d req = metrics d req"

definition operations_routed :: "ops_request \<Rightarrow> served + operations_route" where
  "operations_routed req =
     (let p = EscapedPath (rq_URL req) in
      if p = ''*'' then Inl MuxBadRequest
      else if rq_Method req \<noteq> ''CONNECT'' \<and> cleanPath p \<noteq> p then Inl MuxRedirect
      else if p = [] \<or> hd p \<noteq> CHR ''/'' then Inl MuxNotFound
      else case operations_pattern (path_segments p) of None \<Rightarrow> Inl MuxNotFound | Some r \<Rightarrow> Inr r)"

definition admin_ServeHTTP ::
  "('alg, 'key, 'set) jwx \<Rightarrow> ('alg, 'key, 's) jwt_parser \<Rightarrow> ('s, 'set) key_source \<Rightarrow> 'alg authentication \<Rightarrow>
   admin_deps \<Rightarrow> ops_request \<Rightarrow> 's \<Rightarrow> 's \<times> served" where
  "admin_ServeHTTP lib parse source auth d req s =
     (case operations_routed req of
        Inl answer \<Rightarrow> (s, answer)
      | Inr r \<Rightarrow>
          if r = Live \<or> r = Ready then (s, Handled (operations_answer r d req))
          else map_prod (\<lambda>s. s) Handled (protected lib parse source auth (operations_answer r d req) req s))"

section \<open>Protection\<close>

definition authorized ::
  "('alg, 'key, 'set) jwx \<Rightarrow> ('alg, 'key, 's) jwt_parser \<Rightarrow> ('s, 'set) key_source \<Rightarrow> 'alg authentication \<Rightarrow> ops_request \<Rightarrow> 's \<Rightarrow> bool" where
  "authorized lib parse source auth req s =
     (case auth of
        NoAuthentication \<Rightarrow> True
      | JWTAuthentication v \<Rightarrow>
          (case snd (Verify lib parse source v (rq_Authorization req) s) of
             Inl _ \<Rightarrow> False | Inr p \<Rightarrow> ScopeOperationsRead |\<in>| pr_Scopes p))"

lemma protected_authorized:
  assumes "authorized lib parse source auth req s"
  shows "snd (protected lib parse source auth answer req s) = answer"
proof (cases auth)
  case NoAuthentication
  then show ?thesis by (simp add: protected_def none_Middleware_def authorized_handler_def none_Authorize_def)
next
  case (JWTAuthentication v)
  with assms obtain s' p where v: "Verify lib parse source v (rq_Authorization req) s = (s', Inr p)" "ScopeOperationsRead |\<in>| pr_Scopes p"
    by (auto simp: authorized_def split: sum.splits) (metis prod.collapse)
  moreover have "pr_Subject p \<noteq> []" using Verify_parses [OF v(1)] by metis
  ultimately show ?thesis using JWTAuthentication
    by (simp add: protected_def verifier_Middleware_def authorized_handler_def verifier_Authorize_def RequireScope_def)
qed

lemma protected_refused:
  assumes "\<not> authorized lib parse source auth req s"
  shows "protected lib parse source auth answer req s = protected lib parse source auth answer' req s \<and>
    rs_Status (snd (protected lib parse source auth answer req s)) \<in> {401, 403}"
proof (cases auth)
  case (JWTAuthentication v)
  obtain s' res where v: "Verify lib parse source v (rq_Authorization req) s = (s', res)" by force
  show ?thesis
  proof (cases res)
    case (Inr p)
    with assms v JWTAuthentication have "ScopeOperationsRead |\<notin>| pr_Scopes p" by (simp add: authorized_def)
    with Inr v JWTAuthentication show ?thesis
      by (simp add: protected_def verifier_Middleware_def authorized_handler_def verifier_Authorize_def RequireScope_def error_response_def)
  qed (simp add: v JWTAuthentication protected_def verifier_Middleware_def error_response_def)
qed (use assms in \<open>simp add: authorized_def\<close>)

text \<open>(C13) A request without a verified token of the operations scope learns nothing from the operations endpoints
  but whether the hub is ready: with dependencies that agree on readiness it gets the same answer, and from a
  protected route it gets 401 or 403. With such a token, or with authentication switched off, a protected
  route answers what its handler computes.\<close>

theorem operations_protected:
  fixes auth :: "'alg authentication"
  assumes "ad_Ready d = ad_Ready d'"
  shows "(\<not> authorized lib parse source auth req s \<longrightarrow>
      admin_ServeHTTP lib parse source auth d req s = admin_ServeHTTP lib parse source auth d' req s) \<and>
    (\<forall>r. operations_routed req = Inr r \<and> r \<notin> {Live, Ready} \<longrightarrow>
      (\<exists>answer. snd (admin_ServeHTTP lib parse source auth d req s) = Handled answer \<and>
        (if authorized lib parse source auth req s then answer = operations_answer r d req else rs_Status answer \<in> {401, 403})))"
proof (intro conjI impI allI)
  assume *: "\<not> authorized lib parse source auth req s"
  show "admin_ServeHTTP lib parse source auth d req s = admin_ServeHTTP lib parse source auth d' req s"
  proof (cases "operations_routed req")
    case (Inr r)
    then show ?thesis
      using protected_refused [OF *, THEN conjunct1, of "operations_answer r d req" "operations_answer r d' req"] assms
      by (cases "r = Live \<or> r = Ready") (auto simp: admin_ServeHTTP_def ready_def simp del: operations_answer.simps(3-))
  qed (simp add: admin_ServeHTTP_def)
next
  fix r
  assume r: "operations_routed req = Inr r \<and> r \<notin> {Live, Ready}"
  show "\<exists>answer. snd (admin_ServeHTTP lib parse source auth d req s) = Handled answer \<and>
    (if authorized lib parse source auth req s then answer = operations_answer r d req else rs_Status answer \<in> {401, 403})"
    using r protected_authorized [of lib parse source auth req s "operations_answer r d req"]
      protected_refused [of lib parse source auth req s "operations_answer r d req", THEN conjunct2]
    by (simp add: admin_ServeHTTP_def del: operations_answer.simps)
qed

definition sample_request :: "string \<Rightarrow> string list \<Rightarrow> ops_request" where
  "sample_request path authorization = \<lparr>rq_Method = ''GET'', rq_URL = \<lparr>Scheme = [], User = None, Host = [], Path = path, RawPath = [],
     RawQuery = [], Fragment = []\<rparr>, rq_Authorization = authorization\<rparr>"

lemma sample_metrics_routed: "operations_routed (sample_request ''/metrics'' h) = Inr MetricsRoute"
proof -
  have "escape escape_in_path ''/metrics'' = ''/metrics''" "cleanPath ''/metrics'' = ''/metrics''"
    "path_segments ''/metrics'' = [''metrics'']" by code_simp+
  then show ?thesis by (simp add: operations_routed_def sample_request_def EscapedPath_def operations_pattern_def)
qed

theorem operations_protected_witness:
  "(\<exists>answer. snd (admin_ServeHTTP sample_jwx sample_parse sample_source (JWTAuthentication sample_verifier)
       \<lparr>ad_Ready = True, ad_Projection = EmptySnapshot, ad_Capabilities = Inl ErrClosed, ad_Source = Inl ErrClosed\<rparr>
       (sample_request ''/metrics'' []) ()) = Handled answer \<and> rs_Status answer \<in> {401, 403}) \<and>
   (\<exists>answer. snd (admin_ServeHTTP sample_jwx sample_parse sample_source (JWTAuthentication sample_verifier)
       \<lparr>ad_Ready = True, ad_Projection = EmptySnapshot, ad_Capabilities = Inl ErrClosed, ad_Source = Inl ErrClosed\<rparr>
       (sample_request ''/metrics'' [''bearer t'']) ()) = Handled answer \<and> rs_Status answer = 200)"
proof -
  let ?d = "\<lparr>ad_Ready = True, ad_Projection = EmptySnapshot, ad_Capabilities = Inl ErrClosed, ad_Source = Inl ErrClosed\<rparr> :: admin_deps"
  let ?auth = "JWTAuthentication sample_verifier"
  have no: "\<not> authorized sample_jwx sample_parse sample_source ?auth (sample_request ''/metrics'' []) ()"
    by (simp add: authorized_def sample_request_def Verify_def bearerToken_def)
  have yes: "authorized sample_jwx sample_parse sample_source ?auth (sample_request ''/metrics'' [''bearer t'']) ()"
    by (simp add: authorized_def sample_request_def sample_auth(2))
  have "rs_Status (operations_answer MetricsRoute ?d (sample_request ''/metrics'' [''bearer t''])) = 200"
    by (simp add: metrics_def passing_def onlyGET_def sample_request_def Let_def)
  then show ?thesis
    using operations_protected [of ?d ?d sample_jwx sample_parse sample_source ?auth "sample_request ''/metrics'' []" "()"]
      operations_protected [of ?d ?d sample_jwx sample_parse sample_source ?auth "sample_request ''/metrics'' [''bearer t'']" "()"]
      no yes sample_metrics_routed
    by (simp del: operations_answer.simps)
qed

section \<open>Addressing one entry\<close>

text \<open>\<open>shouldEscape(c, encodePathSegment)\<close>: what a client does with \<open>url.PathEscape\<close>.\<close>

definition escape_in_segment :: "char \<Rightarrow> bool" where
  "escape_in_segment c = (\<not> alnum c \<and> c \<notin> set ''-_.~$&+=:@'')"

lemma upper_hex_byte: "n < 16 \<Longrightarrow> byte (Go_Url.upper_hex n) = (if n < 10 then 48 + n else 55 + n)"
  by (simp add: Go_Url.upper_hex_def byte_def)

lemma upper_hex_ok: "n < 16 \<Longrightarrow> ishex (Go_Url.upper_hex n) \<and> hexval (Go_Url.upper_hex n) = n \<and> alnum (Go_Url.upper_hex n)"
  using upper_hex_byte [of n] by (auto simp: ishex_def hexval_def alnum_def is_letter_def is_digit_def in_range_def)

lemma unescape_escape:
  assumes "should CHR ''%''"
  shows "unescape (escape should k) = Some k"
proof (induction k)
  case (Cons c k)
  have "16 * (byte c div 16) + byte c mod 16 = byte c" by simp
  moreover have "byte c div 16 < 16" using byte_bound [of c] by simp
  ultimately show ?case using Cons assms upper_hex_ok [of "byte c div 16"] upper_hex_ok [of "byte c mod 16"]
    by (auto simp: escape_def byte_def)
qed (simp add: escape_def)

lemma set_escape: "c \<in> set (escape should k) \<Longrightarrow> c = CHR ''%'' \<or> alnum c \<or> c \<in> set k \<and> \<not> should c"
proof (induction k)
  case (Cons x k)
  have "byte x div 16 < 16" using byte_bound [of x] by simp
  then have "alnum (Go_Url.upper_hex (byte x div 16))" "alnum (Go_Url.upper_hex (byte x mod 16))"
    using upper_hex_ok [of "byte x div 16"] upper_hex_ok [of "byte x mod 16"] by simp_all
  moreover have "c \<in> set (escape should [x]) \<or> c \<in> set (escape should k)" using Cons.prems by (auto simp: escape_def)
  ultimately show ?case using Cons.IH by (auto simp: escape_def split: if_splits)
qed (simp add: escape_def)

lemma escape_Nil_iff: "escape should k = [] \<longleftrightarrow> k = []"
  by (cases k) (auto simp: escape_def)

lemma Split_absent: "c \<notin> set s \<Longrightarrow> Split s c = [s]"
  by (induction s) auto

lemma EscapedPath_target:
  assumes "setPath p = Some (Path u, RawPath u)" "validEncoded p" "Path u \<noteq> ''*''"
  shows "EscapedPath u = p"
  using assms by (auto simp: setPath_def EscapedPath_def escape_Nil_iff split: option.splits if_splits)

lemma segment_valid: "validEncoded (escape escape_in_segment k)"
  unfolding validEncoded_def list_all_iff
proof
  fix c
  assume "c \<in> set (escape escape_in_segment k)"
  from set_escape [OF this] show "c \<in> set ''!$&()*+,;=:@[]%'' \<or> byte c = 39 \<or> \<not> escape_in_path c"
    by (auto simp: escape_in_segment_def escape_in_path_def)
qed

lemma segment_no_slash: "CHR ''/'' \<notin> set (escape escape_in_segment k)"
proof
  assume "CHR ''/'' \<in> set (escape escape_in_segment k)"
  from set_escape [OF this] have "alnum CHR ''/'' \<or> \<not> escape_in_segment CHR ''/''" by auto
  moreover have "\<not> alnum CHR ''/'' \<and> escape_in_segment CHR ''/''" by code_simp
  ultimately show False by blast
qed

lemma segment_dots: "escape escape_in_segment k = d \<Longrightarrow> d = ''.'' \<or> d = ''..'' \<Longrightarrow> k = d"
proof -
  assume *: "escape escape_in_segment k = d" "d = ''.'' \<or> d = ''..''"
  have "escape_in_segment CHR ''%''" by code_simp
  then have "unescape d = Some k" using unescape_escape [of escape_in_segment k] *(1) by simp
  with *(2) show "k = d" by auto
qed

text \<open>The request target of one entry, and its parsed form.\<close>

definition addresses :: "ops_request \<Rightarrow> string \<Rightarrow> string \<Rightarrow> bool" where
  "addresses req prefix1 k \<longleftrightarrow> rq_Method req = ''GET'' \<and> RawQuery (rq_URL req) = [] \<and>
     setPath (prefix1 @ escape escape_in_segment k) = Some (Path (rq_URL req), RawPath (rq_URL req))"

lemma addressed_route:
  assumes "addresses req prefix1 k" "k \<notin> {[], ''.'', ''..''}" "prefix1 = ''/v1/topics/'' \<or> prefix1 = ''/v1/subscriptions/''"
  shows "EscapedPath (rq_URL req) = prefix1 @ escape escape_in_segment k"
    "operations_routed req = Inr (if prefix1 = ''/v1/topics/'' then TopicRoute else SubscriptionRoute)"
    "pathID req prefix1 = Inr k"
proof -
  let ?e = "escape escape_in_segment k"
  have pct: "escape_in_segment CHR ''%''" by code_simp
  note un = unescape_escape [of escape_in_segment k, OF pct]
  have valid: "validEncoded (prefix1 @ ?e)"
  proof -
    have "validEncoded ''/v1/topics/''" "validEncoded ''/v1/subscriptions/''" by code_simp+
    with assms(3) have "validEncoded prefix1" by blast
    with segment_valid [of k] show ?thesis unfolding validEncoded_def list_all_append by blast
  qed
  have "Path (rq_URL req) \<noteq> ''*''"
  proof -
    have "unescape (prefix1 @ ?e) = Some (Path (rq_URL req))" using assms(1) by (auto simp: addresses_def setPath_def split: option.splits)
    with assms(3) un show ?thesis by (elim disjE) auto
  qed
  with assms(1) valid show esc: "EscapedPath (rq_URL req) = prefix1 @ ?e"
    by (intro EscapedPath_target) (simp_all add: addresses_def)
  have e: "?e \<noteq> []" "?e \<noteq> ''.''" "?e \<noteq> ''..''"
    using assms(2) segment_dots [of k "''.''"] segment_dots [of k "''..''"] escape_Nil_iff by auto
  have slash: "CHR ''/'' \<notin> set ?e" by (rule segment_no_slash)
  then have "last ?e \<noteq> CHR ''/''" using e(1) last_in_set by metis
  then have clean: "cleanPath (prefix1 @ ?e) = prefix1 @ ?e"
    using assms(3) e Split_absent [OF slash] by (auto simp: cleanPath_def path_Clean_def)
  moreover have "path_segments (prefix1 @ ?e) = [''v1'', if prefix1 = ''/v1/topics/'' then ''topics'' else ''subscriptions'', k]"
    using assms(3) Split_absent [OF slash] un by (auto simp: path_segments_def)
  ultimately show "operations_routed req = Inr (if prefix1 = ''/v1/topics/'' then TopicRoute else SubscriptionRoute)"
    using assms(3) esc by (auto simp: operations_routed_def operations_pattern_def)
  show "pathID req prefix1 = Inr k" using esc e slash un assms(2) by (simp add: pathID_def Let_def)
qed

text \<open>Every topic and every subscription can be addressed, whatever bytes its identifier has (a topic identifier may
  contain slashes and percent signs): a \<open>GET\<close> of the identifier, escaped as one path segment, is routed to the
  handler of that kind and answered with the management query for exactly that identifier, unless the
  identifier is empty or one of the two dot segments.\<close>

theorem entries_addressable:
  assumes "k \<notin> {[], ''.'', ''..''}" "addresses req ''/v1/topics/'' k" "addresses req' ''/v1/subscriptions/'' k"
  shows "operations_routed req = Inr TopicRoute \<and>
      operations_answer TopicRoute d req = answer_query topicResult_json (GetTopic (ad_Source d) k) \<and>
    operations_routed req' = Inr SubscriptionRoute \<and>
      operations_answer SubscriptionRoute d req' = answer_query subscriptionResult_json (GetSubscription (ad_Source d) k)"
proof -
  have q: "onlyGET r = Inr () \<and> onlyQueryParameters r [] = Inr ()" if "addresses r p k" for r p
  proof -
    have "query_of r = []" using that by (simp add: addresses_def query_of_def ParseQuery_def query_pair_def)
    with that show ?thesis by (simp add: onlyGET_def onlyQueryParameters_def addresses_def)
  qed
  show ?thesis
    using addressed_route [OF assms(2,1)] addressed_route [OF assms(3,1)] q [OF assms(2)] q [OF assms(3)]
    by (simp add: topic_def subscription_def passing_def)
qed

definition slash_request :: "string \<Rightarrow> ops_request" where
  "slash_request prefix1 = (let u = rq_URL (sample_request [] []) in
     (sample_request [] [])\<lparr>rq_URL := u\<lparr>Path := prefix1 @ ''a/b'', RawPath := prefix1 @ ''a%2Fb''\<rparr>\<rparr>)"

theorem entries_addressable_witness:
  "operations_routed (slash_request ''/v1/topics/'') = Inr TopicRoute \<and>
   operations_answer TopicRoute \<lparr>ad_Ready = True, ad_Projection = EmptySnapshot, ad_Capabilities = Inl ErrClosed, ad_Source = Inr EmptySnapshot\<rparr>
     (slash_request ''/v1/topics/'') = answer_query topicResult_json (GetTopic (Inr EmptySnapshot) ''a/b'')"
proof -
  have "escape escape_in_segment ''a/b'' = ''a%2Fb''" "setPath ''/v1/topics/a%2Fb'' = Some (''/v1/topics/a/b'', ''/v1/topics/a%2Fb'')"
    "setPath ''/v1/subscriptions/a%2Fb'' = Some (''/v1/subscriptions/a/b'', ''/v1/subscriptions/a%2Fb'')" by code_simp+
  then have "addresses (slash_request ''/v1/topics/'') ''/v1/topics/'' ''a/b''"
    "addresses (slash_request ''/v1/subscriptions/'') ''/v1/subscriptions/'' ''a/b''"
    by (simp_all add: addresses_def slash_request_def sample_request_def)
  from entries_addressable [OF _ this] show ?thesis by (simp del: operations_answer.simps)
qed

end
