(* ===== verification/Hub_Runtime.thy ===== *)
theory Hub_Runtime
  imports Projection Manager Auth
begin

text \<open>
  How the processes put their components together (\<open>internal/app/runtime\<close> and \<open>internal/app/httpruntime\<close>): the hub's loop
  that follows the state and reconciles its workers, the consolidator's loop, the choice of authentication per
  listener, and the result of a process. A loop that runs until its context ends is a recursion over the
  list of what its turns meet; the list's end is a process that is still running.
\<close>

section \<open>Results\<close>

definition runtimeResult :: "goerr option \<Rightarrow> goerr option \<Rightarrow> goerr option \<Rightarrow> goerr option" where
  "runtimeResult parent cause serverErr =
     (if parent \<noteq> None then None
      else if cause \<noteq> None \<and> \<not> errors_is (the cause) Canceled then cause
      else if serverErr \<noteq> None \<and> errors_is (the serverErr) Canceled then None
      else serverErr)"

text \<open>\<open>httpruntime.Run\<close>: what ends the wait first, a done context or the return of \<open>ListenAndServe\<close>, and the errors of the
  servers' \<open>Shutdown\<close> in the order they arrive. The context and each server are given or nil.\<close>

abbreviation ErrServerClosed :: goerr where "ErrServerClosed \<equiv> Error ''http: Server closed''"

datatype run_event = ContextDone goerr | ServerReturned "goerr option"

definition served_result :: "goerr option \<Rightarrow> goerr option" where
  "served_result err =
     (let err = (case err of None \<Rightarrow> Error ''HTTP server stopped unexpectedly'' | Some e \<Rightarrow> e)
      in if \<not> errors_is err ErrServerClosed then Some err else None)"

definition http_Run :: "bool \<Rightarrow> duration \<Rightarrow> bool list \<Rightarrow> run_event \<Rightarrow> goerr list \<Rightarrow> goerr" where
  "http_Run given shutdownTimeout servers first shutdownErrors =
     (if \<not> given \<or> shutdownTimeout \<le> 0 \<or> servers = []
      then Error ''context, positive shutdown timeout, and servers are required''
      else if False \<in> set servers then Error ''HTTP server is required''
      else let cause = (case first of
             ContextDone e \<Rightarrow> e
           | ServerReturned err \<Rightarrow> (case served_result err of None \<Rightarrow> Error ''HTTP server closed unexpectedly'' | Some e \<Rightarrow> e))
        in fold (\<lambda>err cause. Joined [cause, Wrap ''shutdown HTTP server'' err]) shutdownErrors cause)"

section \<open>Authentication of the listeners\<close>

definition listenerAuthentications ::
  "('alg, 'key, 'set) jwx \<Rightarrow> HubConfig \<Rightarrow> ('alg authentication \<times> 'alg authentication) result" where
  "listenerAuthentications lib cfg =
     (let public = api_Mode (srv_Auth (hub_Server cfg)) = AuthModeJWT;
          operations = api_Mode (op_Auth (Operations cfg)) = AuthModeJWT
      in if public \<or> operations
         then (case auth_New lib (sec_JWT (hub_Security cfg)) True of
             Inl err \<Rightarrow> Inl err
           | Inr verifier \<Rightarrow>
               Inr (if public then JWTAuthentication verifier else NoAuthentication,
                    if operations then JWTAuthentication verifier else NoAuthentication))
         else Inr (NoAuthentication, NoAuthentication))"

text \<open>The path under which the protocol handler is registered.\<close>

definition publicMux :: "string \<Rightarrow> string result" where
  "publicMux publicURL =
     (case url_Parse publicURL of
        None \<Rightarrow> Inl (Error ''public hub URL requires a path'')
      | Some parsed \<Rightarrow> if Path parsed = [] then Inl (Error ''public hub URL requires a path'') else Inr (Path parsed))"

section \<open>The hub's loop\<close>

fun ensure_topics :: "('w, 'c) provider \<Rightarrow> Snapshot \<Rightarrow> string list \<Rightarrow> 'w \<Rightarrow> 'w \<times> goerr option" where
  "ensure_topics pv s [] w = (w, None)"
| "ensure_topics pv s (k # ks) w =
     (let t = the (mget (Topics s) k) in
      if topic_Status t \<noteq> TopicActive then ensure_topics pv s ks w
      else case pv_EnsureDestination pv \<lparr>dst_Name = ContentDestination t, Compacted = False, Retention = 0, Partitions = 1\<rparr> w of
          (w, Some err) \<Rightarrow> (w, Some (Wrap ''ensure content destination for topic'' err))
        | (w, None) \<Rightarrow> ensure_topics pv s ks w)"

text \<open>What Go and the other goroutines decide during one turn: the orders in which the maps are visited, the workers
  whose \<open>Run\<close> has returned before it, what the stop requests find, and what the context and the wait answer.\<close>

record turn =
  tn_topics :: "Snapshot \<Rightarrow> string list"
  tn_subs :: "Snapshot \<Rightarrow> string list"
  tn_ids :: "Manager \<Rightarrow> Snapshot \<Rightarrow> string list"
  tn_closed :: "string \<Rightarrow> bool"
  tn_ended :: "string list"
  tn_ctx :: "goerr option"
  tn_wait :: "goerr option"

definition ensureHubDestinations :: "('w, 'c) provider \<Rightarrow> turn \<Rightarrow> Snapshot \<Rightarrow> Destination \<Rightarrow> 'w \<Rightarrow> 'w \<times> goerr option" where
  "ensureHubDestinations pv t s dlq w =
     (case pv_EnsureDestination pv \<lparr>dst_Name = dlq, Compacted = False, Retention = 0, Partitions = 1\<rparr> w of
        (w, Some err) \<Rightarrow> (w, Some (Wrap ''ensure delivery DLQ destination'' err))
      | (w, None) \<Rightarrow> ensure_topics pv s (tn_topics t s) w)"

definition reconcileHub ::
  "('w, 'c) provider \<Rightarrow> worker_factory \<Rightarrow> turn \<Rightarrow> Snapshot \<Rightarrow> Destination \<Rightarrow> 'w \<times> Manager \<Rightarrow> ('w \<times> Manager) \<times> goerr option" where
  "reconcileHub pv factory t s dlq = (\<lambda>(w, m).
     case ensureHubDestinations pv t s dlq w of
       (w, Some err) \<Rightarrow> ((w, m), Some err)
     | (w, None) \<Rightarrow>
         (case Reconcile factory (tn_subs t s) (tn_ids t m s) (tn_closed t) s m of
            (m, Some err) \<Rightarrow> ((w, m), Some (Wrap ''reconcile delivery workers'' err))
          | (m, None) \<Rightarrow> ((w, m), None)))"

record ('w, 'c) hub_run =
  hr_projection :: "'c Projection"
  hr_world :: 'w
  hr_manager :: Manager
  hr_lastRevision :: "64 word"

definition consumeHub_turn ::
  "('w, 'c) provider \<Rightarrow> worker_factory \<Rightarrow> HubConfig \<Rightarrow> turn \<Rightarrow> ('w, 'c) hub_run \<Rightarrow> ('w, 'c) hub_run \<times> goerr option" where
  "consumeHub_turn pv factory cfg t st =
     (let m = fold Manager_run_returns (tn_ended t) (hr_manager st) in
      case projection_Consume pv (hse_ConsumerBatchSize (hs_Events (hub_State cfg))) (hr_projection st, hr_world st) of
        ((pj, w), Inl err) \<Rightarrow>
          (st\<lparr>hr_projection := pj, hr_world := w, hr_manager := m\<rparr>,
           Some (case tn_ctx t of Some e \<Rightarrow> e | None \<Rightarrow> Wrap ''consume hub state events'' err))
      | ((pj, w), Inr caughtUp) \<Rightarrow>
          let s = projection_Snapshot pj;
              st1 = st\<lparr>hr_projection := pj, hr_world := w, hr_manager := m\<rparr>;
              finish = (\<lambda>st. (st, if caughtUp then tn_wait t else None))
          in if snap_Revision s \<noteq> hr_lastRevision st
             then (case reconcileHub pv factory t s (DLQDestination (hub_Delivery cfg)) (w, m) of
                 ((w, m), Some err) \<Rightarrow> (st1\<lparr>hr_world := w, hr_manager := m\<rparr>, Some err)
               | ((w, m), None) \<Rightarrow> finish (st1\<lparr>hr_world := w, hr_manager := m, hr_lastRevision := snap_Revision s\<rparr>))
             else finish st1)"

fun consumeHub_loop ::
  "('w, 'c) provider \<Rightarrow> worker_factory \<Rightarrow> HubConfig \<Rightarrow> turn list \<Rightarrow> ('w, 'c) hub_run \<Rightarrow> ('w, 'c) hub_run \<times> goerr option" where
  "consumeHub_loop pv factory cfg [] st = (st, None)"
| "consumeHub_loop pv factory cfg (t # ts) st =
     (case consumeHub_turn pv factory cfg t st of
        (st, Some err) \<Rightarrow> (st, Some err)
      | (st, None) \<Rightarrow> consumeHub_loop pv factory cfg ts st)"

definition consumeHub ::
  "('w, 'c) provider \<Rightarrow> worker_factory \<Rightarrow> HubConfig \<Rightarrow> turn list \<Rightarrow> ('w, 'c) hub_run \<Rightarrow> ('w, 'c) hub_run \<times> goerr option" where
  "consumeHub pv factory cfg ts st =
     consumeHub_loop pv factory cfg ts (st\<lparr>hr_lastRevision := snap_Revision (projection_Snapshot (hr_projection st))\<rparr>)"

section \<open>The consolidator's loop\<close>

text \<open>Per turn: what the context with the deadline of the poll and the process's context answer when they are asked,
  and the wait. \<open>Consume\<close> is \<open>consume\<close> with the consumer lock held.\<close>

record poll =
  pl_deadline :: "goerr option"
  pl_ctx :: "goerr option"
  pl_wait :: "goerr option"

fun consumeConsolidator ::
  "('w, 'c) provider \<Rightarrow> StateOptions \<Rightarrow> int \<Rightarrow> poll list \<Rightarrow> ('w, 'c) running \<Rightarrow> ('w, 'c) running \<times> goerr option" where
  "consumeConsolidator pv opts n [] st = (st, None)"
| "consumeConsolidator pv opts n (p # ps) st =
     (case consume pv opts (pl_deadline p) n st of
        (st, Inl err) \<Rightarrow>
          (case pl_ctx p of
             Some e \<Rightarrow> (st, Some e)
           | None \<Rightarrow>
               if errors_is err DeadlineExceeded then consumeConsolidator pv opts n ps st
               else (st, Some (Wrap ''consume state events'' err)))
      | (st, Inr caughtUp) \<Rightarrow>
          if caughtUp \<and> pl_wait p \<noteq> None then (st, pl_wait p)
          else consumeConsolidator pv opts n ps st)"

section \<open>The hub follows the log\<close>

context event_reducer
begin

text \<open>A log that does not raise the count does not change the state.\<close>

lemma fold_same:
  assumes "inv s" "count s + length es \<le> limit" "fold_events step s es = Inr s'" "count s' = count s"
  shows "s' = s"
  using assms
proof (induction es arbitrary: s)
  case (Cons e es)
  obtain n c where n: "step s e = Inr (n, c)" "fold_events step n es = Inr s'"
    using Cons.prems(3) by (auto split: sum.splits)
  have lt: "count s < limit" using Cons.prems(2) by simp
  note k = step_keeps [OF Cons.prems(1) lt n(1)]
  then have le: "count n + length es \<le> limit" using Cons.prems(2) by simp
  have eq: "count n = count s" using fold_keeps [OF _ le n(2)] k Cons.prems(4) by auto
  have "n = s"
  proof (cases c)
    case True
    then show ?thesis using changed [OF Cons.prems(1) lt, of e n] n(1) eq by simp
  qed (use n(1) unchanged in auto)
  then show ?case using Cons.IH [of n] k le n(2) eq Cons.prems(4) by simp
qed simp

end

lemma fold_storable:
  "fold_events reducer_step s es = Inr s' \<Longrightarrow> snapshot_storable s \<Longrightarrow> \<forall>e\<in>set es. event_storable e \<Longrightarrow> snapshot_storable s'"
proof (induction es arbitrary: s)
  case (Cons e es)
  then obtain n c where "reducer_step s e = Inr (n, c)" "fold_events reducer_step n es = Inr s'" by (auto split: sum.splits)
  with Cons reducer_step_storable show ?case by auto
qed simp

lemma fold_sound:
  assumes "sound (length es + k) s" "\<forall>e\<in>set es. event_storable e" "fold_events reducer_step s es = Inr s'"
  shows "sound k s'" "snap_Revision s' = snap_Revision s \<Longrightarrow> s' = s"
proof -
  have b: "hub_invariant s" "revision_count s + length es \<le> max_revision" using assms(1) by (simp_all add: sound_def)
  show "sound k s'"
    using hub_reducer.fold_keeps [OF b assms(3)] fold_storable [OF assms(3) _ assms(2)] assms(1) by (auto simp: sound_def)
  show "snap_Revision s' = snap_Revision s \<Longrightarrow> s' = s"
    using hub_reducer.fold_same [OF b assms(3)] by (simp add: revision_count_def)
qed

lemma projection_Snapshot_sound: "sound k (pj_snapshot pj) \<Longrightarrow> projection_Snapshot pj = pj_snapshot pj"
  using storable_encodes [of "pj_snapshot pj"] DecodeSnapshot_roundtrip [of "pj_snapshot pj"]
  by (auto simp: sound_def hub_invariant_def projection_Snapshot_def)

text \<open>A manager is in line with a state: every wanted subscription has a worker, and no other worker is left alone.\<close>

definition in_line :: "Manager \<Rightarrow> Snapshot \<Rightarrow> bool" where
  "in_line m s \<longleftrightarrow>
     (\<forall>k. if desired (mgr_serverID m) s k then worker_of m k \<noteq> None
          else \<forall>w. worker_of m k = Some w \<longrightarrow> stopRequested (mw_control w))"

lemma Reconcile_in_line:
  assumes "Reconcile factory subs ids closed s m = (m', None)" "fair_orders m s subs ids"
  shows "in_line m' s"
proof -
  have dist: "distinct ids" using assms(2) by (simp add: fair_orders_def)
  obtain ws where ws: "start_loop factory (mgr_serverID m) s subs (mgr_workers m) = (ws, None)" "mgr_serverID m' = mgr_serverID m"
    and look: "\<And>k. worker_of m' k = Option.bind (fmlookup ws k) (after_stop (mgr_serverID m) s closed ids k)"
    using Reconcile_lookup [OF assms(1) dist] by blast
  have covered: "fmlookup ws k \<noteq> None" if "desired (mgr_serverID m) s k" for k
    using start_loop_covers [OF ws(1) that] assms(2) desired_ordered [OF _ that] by (auto simp: fair_orders_def)
  have visited: "k \<in> set ids" if "fmlookup ws k = Some w" for k w
    using that start_loop_fresh [OF ws(1) _ that] assms(2) by (cases "worker_of m k") (auto simp: fair_orders_def)
  have "if desired (mgr_serverID m) s k then worker_of m' k \<noteq> None
      else \<forall>w. worker_of m' k = Some w \<longrightarrow> stopRequested (mw_control w)" for k
  proof (cases "desired (mgr_serverID m) s k")
    case True
    with covered [of k] look [of k] show ?thesis by (auto simp: after_stop_def)
  next
    case False
    then show ?thesis
      using visited [of k] look [of k] by (cases "fmlookup ws k") (auto simp: after_stop_def split: if_splits)
  qed
  then show ?thesis by (simp add: in_line_def ws(2))
qed

lemma Manager_run_returns_in_line: "in_line m s \<Longrightarrow> in_line (Manager_run_returns k m) s"
  by (auto simp: in_line_def Manager_run_returns_def)

lemma ended_in_line: "in_line m s \<Longrightarrow> in_line (fold Manager_run_returns ks m) s"
  by (induction ks arbitrary: m) (simp_all add: Manager_run_returns_in_line)

text \<open>The state at the loop: the projection is ready and reads the log, its state is sound for the events to come and the
  manager is in line with it. Within the loop, its revision is the one noted.\<close>

definition in_step ::
  "('w \<times> 'c \<Rightarrow> ReceivedMessage list \<Rightarrow> ReceivedMessage list \<Rightarrow> bool) \<Rightarrow> ('w, 'c) hub_run \<Rightarrow> ReceivedMessage list \<Rightarrow> event list \<Rightarrow> bool" where
  "in_step inflight st rest es \<longleftrightarrow>
     (\<exists>c. pj_ready (hr_projection st) \<and> pj_consumer (hr_projection st) = Some c \<and> inflight (hr_world st, c) [] rest \<and>
        list_all2 holds_event rest es \<and> (\<forall>e\<in>set es. event_storable e) \<and> sound (length es) (pj_snapshot (hr_projection st)) \<and>
        in_line (hr_manager st) (pj_snapshot (hr_projection st)))"

definition following ::
  "('w \<times> 'c \<Rightarrow> ReceivedMessage list \<Rightarrow> ReceivedMessage list \<Rightarrow> bool) \<Rightarrow> ('w, 'c) hub_run \<Rightarrow> ReceivedMessage list \<Rightarrow> event list \<Rightarrow> bool" where
  "following inflight st rest es \<longleftrightarrow>
     in_step inflight st rest es \<and> hr_lastRevision st = snap_Revision (pj_snapshot (hr_projection st))"

text \<open>The hub provisions destinations while it reads the log; a provider keeps the readers where they are.\<close>

locale shared_provider = replay_provider +
  assumes ensure_inflight: "inflight (w, c) batch rest \<Longrightarrow> pv_EnsureDestination pv spec w = (w', err) \<Longrightarrow> inflight (w', c) batch rest"
begin

lemma ensure_topics_inflight:
  "inflight (w, c) batch rest \<Longrightarrow> ensure_topics pv s ks w = (w', err) \<Longrightarrow> inflight (w', c) batch rest"
proof (induction ks arbitrary: w)
  case (Cons k ks)
  then show ?case by (auto simp: Let_def split: if_splits prod.splits option.splits dest: ensure_inflight)
qed simp

lemma reconcileHub_inflight:
  assumes "inflight (w, c) batch rest" "reconcileHub pv factory t s dlq (w, m) = ((w', m'), None)"
  shows "inflight (w', c) batch rest" "Reconcile factory (tn_subs t s) (tn_ids t m s) (tn_closed t) s m = (m', None)"
  using assms
  by (auto simp: reconcileHub_def ensureHubDestinations_def split: prod.splits option.splits
      dest: ensure_inflight ensure_topics_inflight)

lemma turn_follows:
  assumes "following inflight st rest es" "consumeHub_turn pv factory cfg t st = (st', None)"
    "\<And>m s. fair_orders m s (tn_subs t s) (tn_ids t m s)" "n = hse_ConsumerBatchSize (hs_Events (hub_State cfg))" "1 \<le> n"
  shows "following inflight st' (drop (nat n) rest) (drop (nat n) es)"
    "fold_events reducer_step (pj_snapshot (hr_projection st)) (take (nat n) es) = Inr (pj_snapshot (hr_projection st'))"
proof -
  let ?pj = "hr_projection st" and ?m = "fold Manager_run_returns (tn_ended t) (hr_manager st)"
  obtain c where c: "pj_ready ?pj" "pj_consumer ?pj = Some c" "inflight (hr_world st, c) [] rest" "list_all2 holds_event rest es"
    and es: "\<forall>e\<in>set es. event_storable e" "sound (length es) (pj_snapshot ?pj)" "in_line (hr_manager st) (pj_snapshot ?pj)"
      "hr_lastRevision st = snap_Revision (pj_snapshot ?pj)"
    using assms(1) unfolding following_def in_step_def by blast
  obtain pj' w' c' res where r: "projection_Consume pv n (?pj, hr_world st) = ((pj', w'), res)" "pj_consumer pj' = Some c'"
    and fold: "case fold_events reducer_step (pj_snapshot ?pj) (take (nat n) es) of
       Inr s' \<Rightarrow> res = Inr (drop (nat n) es = []) \<and> pj_snapshot pj' = s' \<and> pj_ready pj' \<and> inflight (w', c') [] (drop (nat n) rest)
     | Inl _ \<Rightarrow> (\<exists>err. res = Inl err) \<and> pj_snapshot pj' = pj_snapshot ?pj \<and> \<not> pj_ready pj' \<and>
         inflight (w', c') (take (nat n) rest) (drop (nat n) rest)"
    using Consume_fold [OF c assms(5)] by blast
  obtain s' where s': "fold_events reducer_step (pj_snapshot ?pj) (take (nat n) es) = Inr s'"
    using fold r(1) assms(2,4) by (cases "fold_events reducer_step (pj_snapshot ?pj) (take (nat n) es)") (auto simp: consumeHub_turn_def)
  with fold have f: "res = Inr (drop (nat n) es = [])" "pj_snapshot pj' = s'" "pj_ready pj'" "inflight (w', c') [] (drop (nat n) rest)"
    by simp_all
  have sd: "sound (length (take (nat n) es) + length (drop (nat n) es)) (pj_snapshot ?pj)"
    using es(2) unfolding length_append [symmetric] append_take_drop_id .
  have st: "\<forall>e\<in>set (take (nat n) es). event_storable e" "\<forall>e\<in>set (drop (nat n) es). event_storable e"
    using es(1) by (auto dest: in_set_takeD in_set_dropD)
  note sound' = fold_sound [OF sd st(1) s']
  have snap: "projection_Snapshot pj' = s'" using projection_Snapshot_sound [of _ pj'] sound'(1) unfolding f(2) by blast
  have held: "list_all2 holds_event (drop (nat n) rest) (drop (nat n) es)" using c(4) by (rule list_all2_dropI)
  have "following inflight st' (drop (nat n) rest) (drop (nat n) es) \<and> pj_snapshot (hr_projection st') = s'"
  proof (cases "snap_Revision s' = hr_lastRevision st")
    case True
    then have "s' = pj_snapshot ?pj" using sound'(2) es(4) by simp
    moreover have "st' = st\<lparr>hr_projection := pj', hr_world := w', hr_manager := ?m\<rparr>"
      using assms(2,4) r(1) f(1) snap True by (simp add: consumeHub_turn_def Let_def)
    ultimately show ?thesis
      using f r(2) held st(2) sound'(1) ended_in_line [OF es(3)] es(4) by (simp add: following_def in_step_def)
  next
    case False
    then obtain w2 m2 where m2: "reconcileHub pv factory t s' (DLQDestination (hub_Delivery cfg)) (w', ?m) = ((w2, m2), None)"
      "st' = st\<lparr>hr_projection := pj', hr_world := w2, hr_manager := m2, hr_lastRevision := snap_Revision s'\<rparr>"
      using assms(2,4) r(1) f(1) snap by (auto simp: consumeHub_turn_def Let_def split: prod.splits option.splits)
    then show ?thesis
      using reconcileHub_inflight [OF f(4) m2(1)] Reconcile_in_line assms(3) f r(2) held st(2) sound'(1) by (auto simp: following_def in_step_def)
  qed
  then show "following inflight st' (drop (nat n) rest) (drop (nat n) es)"
    "fold_events reducer_step (pj_snapshot (hr_projection st)) (take (nat n) es) = Inr (pj_snapshot (hr_projection st'))"
    using s' by simp_all
qed

lemma consumeHub_loop_follows:
  assumes "following inflight st rest es" "consumeHub_loop pv factory cfg ts st = (st', None)"
    "\<And>t m s. t \<in> set ts \<Longrightarrow> fair_orders m s (tn_subs t s) (tn_ids t m s)" "n = hse_ConsumerBatchSize (hs_Events (hub_State cfg))" "1 \<le> n"
  shows "following inflight st' (drop (nat n * length ts) rest) (drop (nat n * length ts) es) \<and>
    fold_events reducer_step (pj_snapshot (hr_projection st)) (take (nat n * length ts) es) = Inr (pj_snapshot (hr_projection st'))"
  using assms
proof (induction ts arbitrary: st rest es)
  case (Cons t ts)
  obtain st1 where t: "consumeHub_turn pv factory cfg t st = (st1, None)" "consumeHub_loop pv factory cfg ts st1 = (st', None)"
    using Cons.prems(2) by (auto split: prod.splits option.splits)
  note f = turn_follows [OF Cons.prems(1) t(1) _ Cons.prems(4,5)]
  have i: "following inflight st1 (drop (nat n) rest) (drop (nat n) es)"
    "fold_events reducer_step (pj_snapshot (hr_projection st)) (take (nat n) es) = Inr (pj_snapshot (hr_projection st1))"
    using f Cons.prems(3) by auto
  have "take (nat n * length (t # ts)) es = take (nat n) es @ take (nat n * length ts) (drop (nat n) es)"
    by (simp add: take_add)
  with Cons.IH [OF i(1) t(2)] Cons.prems(3-5) i(2) show ?case
    by (simp add: fold_events_append add.commute)
qed simp

lemma consumeHub_follows:
  assumes "in_step inflight st rest es" "consumeHub pv factory cfg ts st = (st', None)"
    "\<And>t m s. t \<in> set ts \<Longrightarrow> fair_orders m s (tn_subs t s) (tn_ids t m s)" "n = hse_ConsumerBatchSize (hs_Events (hub_State cfg))" "1 \<le> n"
  shows "following inflight st' (drop (nat n * length ts) rest) (drop (nat n * length ts) es) \<and>
    fold_events reducer_step (pj_snapshot (hr_projection st)) (take (nat n * length ts) es) = Inr (pj_snapshot (hr_projection st'))"
proof -
  let ?st = "st\<lparr>hr_lastRevision := snap_Revision (projection_Snapshot (hr_projection st))\<rparr>"
  have "following inflight ?st rest es"
    using assms(1) projection_Snapshot_sound [of "length es" "hr_projection st"] by (auto simp: following_def in_step_def)
  from consumeHub_loop_follows [OF this assms(2) [unfolded consumeHub_def] assms(3-5)] show ?thesis by simp
qed

end

lemma memory_inflight_cong:
  "stored s' = stored s \<Longrightarrow> position_of s' = position_of s \<Longrightarrow> memory_inflight (s', c) batch rest = memory_inflight (s, c) batch rest"
proof -
  assume eq: "stored s' = stored s" "position_of s' = position_of s"
  then have "received (s', c) = received (s, c)" by (simp add: received_def fun_eq_iff)
  with eq show ?thesis by (simp add: memory_inflight_def memory_inv_def memory_pend_def)
qed

interpretation memory_shared: shared_provider memory_provider memory_inflight memory_dest stored memory_backlog memory_good memory_usable
proof
  fix w c batch rest spec w' err
  assume "memory_inflight (w, c) batch rest" "pv_EnsureDestination memory_provider spec w = (w', err)"
  then show "memory_inflight (w', c) batch rest"
    using memory_ensure [of spec w] memory_inflight_cong [of w' w c batch rest]
    by (cases "dst_Name spec = []") (auto simp: memory_provider_def memory_EnsureDestination_def)
qed

section \<open>Properties\<close>

lemma batch_size_positive:
  assumes "HubConfig_Validate cfg = None"
  shows "1 \<le> hse_ConsumerBatchSize (hs_Events (hub_State cfg))"
proof -
  have "validate_hub_state (hub_State cfg) = None"
    using assms unfolding HubConfig_Validate_def Let_def first_error_None by simp
  then show ?thesis by (simp add: validate_hub_state_def split: if_splits)
qed

text \<open>(C6) The hub's loop follows the log: as long as it runs, after every turn its projection is the state that the
  reducer computes from the events consumed, which are the next batch per turn, so that after enough turns it has
  all of them; the manager is in line with that state (every active subscription of this server on an active topic
  has a worker, every other worker has been asked to stop), although it is reconciled only when the revision
  changes and workers end at any time.\<close>

theorem hub_follows_log:
  assumes "in_step memory_inflight st rest es" "\<forall>t\<in>set ts. \<forall>m s. fair_orders m s (tn_subs t s) (tn_ids t m s)"
    "HubConfig_Validate cfg = None"
    "consumeHub memory_provider (Factory_New (hub_Delivery cfg)) cfg ts st = (st', None)"
    "n = nat (hse_ConsumerBatchSize (hs_Events (hub_State cfg)))"
  shows "fold_events reducer_step (pj_snapshot (hr_projection st)) (take (n * length ts) es) = Inr (pj_snapshot (hr_projection st')) \<and>
    in_line (hr_manager st') (pj_snapshot (hr_projection st')) \<and>
    hr_lastRevision st' = snap_Revision (pj_snapshot (hr_projection st')) \<and>
    (length es \<le> length ts \<longrightarrow> fold_events reducer_step (pj_snapshot (hr_projection st)) es = Inr (pj_snapshot (hr_projection st')))"
proof -
  let ?b = "hse_ConsumerBatchSize (hs_Events (hub_State cfg))"
  have b: "1 \<le> ?b" using assms(3) batch_size_positive by blast
  have "following memory_inflight st' (drop (nat ?b * length ts) rest) (drop (nat ?b * length ts) es) \<and>
      fold_events reducer_step (pj_snapshot (hr_projection st)) (take (nat ?b * length ts) es) = Inr (pj_snapshot (hr_projection st'))"
    using memory_shared.consumeHub_follows [OF assms(1,4) _ refl b] assms(2) by blast
  moreover have "take (n * length ts) es = es" if "length es \<le> length ts"
  proof -
    have "1 \<le> n" using b assms(5) by simp
    then have "length ts \<le> n * length ts" by (cases n) simp_all
    with that show ?thesis by (metis order_trans take_all)
  qed
  ultimately show ?thesis using assms(5) by (auto simp: following_def in_step_def)
qed

definition sample_turn :: turn where
  "sample_turn = \<lparr>tn_topics = (\<lambda>s. sorted_keys (Topics s)), tn_subs = (\<lambda>s. sorted_keys (Subscriptions s)),
     tn_ids = (\<lambda>m s. sorted_list_of_fset (fmdom (mgr_workers m) |\<union>| fmdom (entries (Subscriptions s)))),
     tn_closed = (\<lambda>_. False), tn_ended = [], tn_ctx = None, tn_wait = None\<rparr>"

lemma sample_turn_fair: "fair_orders m s (tn_subs sample_turn s) (tn_ids sample_turn m s)"
  using range_order_sorted_keys [of "Subscriptions s"] fmdom_mget [of _ "Subscriptions s"]
  by (auto simp: fair_orders_def sample_turn_def sorted_list_of_fset.rep_eq desired_def fmlookup_dom_iff split: option.splits)

definition sample_run :: "memory_consumer \<Rightarrow> Store \<Rightarrow> (Store, memory_consumer) hub_run" where
  "sample_run c w = \<lparr>hr_projection = \<lparr>pj_serverID = ''h'', pj_bufferMax = 10, pj_snapshot = EmptySnapshot, pj_consumer = Some c, pj_ready = True\<rparr>,
     hr_world = w, hr_manager = \<lparr>mgr_serverID = ''h'', mgr_workers = fmempty\<rparr>, hr_lastRevision = 0\<rparr>"

lemma sample_run_follows:
  assumes "memory_inflight (w, c) [] rest" "list_all2 holds_event rest sample_log"
  shows "in_step memory_inflight (sample_run c w) rest sample_log"
proof -
  have "in_line \<lparr>mgr_serverID = ''h'', mgr_workers = fmempty\<rparr> EmptySnapshot"
    by (auto simp: in_line_def desired_def EmptySnapshot_def mget_Some)
  moreover have "length sample_log \<le> max_revision" by (simp add: sample_log_def max_revision_def)
  ultimately show ?thesis using assms EmptySnapshot_sound sample_log_storable
    by (simp add: in_step_def sample_run_def)
qed

lemma sample_reconcileHub:
  "\<exists>w' m'. reconcileHub memory_provider (Factory_New (hub_Delivery sample_hub_config)) sample_turn sample_verified ''websub-delivery-dlq''
     (w, \<lparr>mgr_serverID = ''h'', mgr_workers = fmempty\<rparr>) = ((w', m'), None)"
proof -
  have keys: "tn_topics sample_turn sample_verified = [''t'']" "tn_subs sample_turn sample_verified = [''s'']"
    "tn_ids sample_turn \<lparr>mgr_serverID = ''h'', mgr_workers = fmempty\<rparr> sample_verified = [''s'']"
    by (simp_all add: sample_turn_def sample_verified_def sorted_keys_def sorted_list_of_fset.rep_eq)
  obtain w1 where w1: "memory_EnsureDestination w \<lparr>dst_Name = ''websub-delivery-dlq'', Compacted = False, Retention = 0, Partitions = 1\<rparr> = (w1, None)"
    using memory_ensure [of "\<lparr>dst_Name = ''websub-delivery-dlq'', Compacted = False, Retention = 0, Partitions = 1\<rparr>" w] by auto
  obtain w2 where w2: "memory_EnsureDestination w1 \<lparr>dst_Name = ''d'', Compacted = False, Retention = 0, Partitions = 1\<rparr> = (w2, None)"
    using memory_ensure [of "\<lparr>dst_Name = ''d'', Compacted = False, Retention = 0, Partitions = 1\<rparr>" w1] by auto
  have t: "the (mget (Topics sample_verified) ''t'') = sample_topic" "topic_Status sample_topic = TopicActive" "ContentDestination sample_topic = ''d''"
    by (simp_all add: sample_verified_def sample_topic_def mget_Some)
  have "ensureHubDestinations memory_provider sample_turn sample_verified ''websub-delivery-dlq'' w = (w2, None)"
    using w1 w2 t by (simp add: ensureHubDestinations_def keys memory_provider_def)
  moreover have "snd (Reconcile (Factory_New (hub_Delivery sample_hub_config)) [''s''] [''s''] (\<lambda>_. False) sample_verified
      \<lparr>mgr_serverID = ''h'', mgr_workers = fmempty\<rparr>) = None"
  proof -
    obtain k where "NewWorker (hub_Delivery sample_hub_config) sample_topic sample_subscription = Inr k"
      by (simp add: NewWorker_def sample_topic_def sample_subscription_def canonical_json)
    then show ?thesis
      by (simp add: Reconcile_def sample_desired Factory_New_def Let_def)
        (simp add: sample_verified_def mget_Some sample_subscription_def)
  qed
  moreover have "tn_closed sample_turn = (\<lambda>_. False)" by (simp add: sample_turn_def)
  ultimately show ?thesis
    by (auto simp: reconcileHub_def keys split: prod.splits option.splits)
qed

lemma sample_consumeHub:
  assumes "memory_inflight (w, c) [] rest" "list_all2 holds_event rest sample_log"
  shows "\<exists>st'. consumeHub memory_provider (Factory_New (hub_Delivery sample_hub_config)) sample_hub_config [sample_turn] (sample_run c w) = (st', None)"
proof -
  let ?pj = "hr_projection (sample_run c w)"
  have cfg: "hse_ConsumerBatchSize (hs_Events (hub_State sample_hub_config)) = 100" "DLQDestination (hub_Delivery sample_hub_config) = ''websub-delivery-dlq''"
    by (simp_all add: sample_hub_config_def HubDefaults_def)
  have fold: "fold_events reducer_step EmptySnapshot (take (nat 100) sample_log) = Inr sample_verified" "drop (nat 100) sample_log = []"
    by (simp_all add: sample_log_def sample_register sample_verify)
  obtain pj' w' where p: "projection_Consume memory_provider 100 (?pj, w) = ((pj', w'), Inr True)" "pj_snapshot pj' = sample_verified"
    using memory_replay.Consume_fold [of ?pj c w rest sample_log 100] assms fold by (auto simp: sample_run_def)
  have "sound 0 sample_verified"
    using fold_sound(1) [OF _ sample_log_storable, of 0 EmptySnapshot sample_verified] EmptySnapshot_sound [of "length sample_log"]
    by (simp add: sample_log_def sample_register sample_verify max_revision_def)
  then have "projection_Snapshot pj' = sample_verified" using projection_Snapshot_sound [of 0 pj'] p(2) by simp
  moreover have "snap_Revision sample_verified \<noteq> 0" by (simp add: sample_verified_def)
  moreover obtain w2 m2 where "reconcileHub memory_provider (Factory_New (hub_Delivery sample_hub_config)) sample_turn sample_verified
     ''websub-delivery-dlq'' (w', \<lparr>mgr_serverID = ''h'', mgr_workers = fmempty\<rparr>) = ((w2, m2), None)"
    using sample_reconcileHub by blast
  moreover have "snap_Revision (projection_Snapshot ?pj) = 0"
    using projection_Snapshot_sound [of 0 ?pj] EmptySnapshot_sound [of 0] by (simp add: sample_run_def EmptySnapshot_def)
  ultimately show ?thesis using p
    by (simp add: consumeHub_def consumeHub_turn_def cfg Let_def sample_run_def) (simp add: sample_turn_def)
qed

theorem hub_follows_log_witness:
  "\<exists>st st'. consumeHub memory_provider (Factory_New (hub_Delivery sample_hub_config)) sample_hub_config [sample_turn] st = (st', None) \<and>
     pj_snapshot (hr_projection st) = EmptySnapshot \<and> pj_snapshot (hr_projection st') = sample_verified \<and>
     in_line (hr_manager st') sample_verified"
proof -
  obtain w c rest where i: "memory_inflight (w, c) [] rest" "list_all2 holds_event rest sample_log" by (rule sample_log_consumer)
  obtain st' where st': "consumeHub memory_provider (Factory_New (hub_Delivery sample_hub_config)) sample_hub_config [sample_turn] (sample_run c w) = (st', None)"
    using sample_consumeHub [OF i] by blast
  have b: "take (nat (hse_ConsumerBatchSize (hs_Events (hub_State sample_hub_config))) * length [sample_turn]) sample_log = sample_log"
    by (simp add: sample_log_def sample_hub_config_def HubDefaults_def)
  have f: "fold_events reducer_step EmptySnapshot sample_log = Inr sample_verified" by (simp add: sample_log_def sample_register sample_verify)
  have e: "pj_snapshot (hr_projection (sample_run c w)) = EmptySnapshot" by (simp add: sample_run_def)
  have "\<forall>t\<in>set [sample_turn]. \<forall>m s. fair_orders m s (tn_subs t s) (tn_ids t m s)" using sample_turn_fair by simp
  from hub_follows_log [OF sample_run_follows [OF i] this sample_hub_config_valid st' refl]
  have "pj_snapshot (hr_projection st') = sample_verified \<and> in_line (hr_manager st') (pj_snapshot (hr_projection st'))"
    unfolding b e f by auto
  with st' e show ?thesis by metis
qed

text \<open>(C38) Every state the program can compute has a stored form: whatever events that can be stored were appended,
  fewer than revisions can count, the state the reducer computes from them satisfies the invariant, is encoded without
  an error, and its encoding decodes to the same state. So publishing, serving and copying a snapshot cannot fail on
  a reachable state.\<close>

theorem states_are_storable:
  assumes "\<forall>e\<in>set es. event_storable e" "length es \<le> max_revision" "fold_events reducer_step EmptySnapshot es = Inr s"
  shows "hub_invariant s \<and> (\<exists>body. EncodeSnapshot s = Inr body \<and> DecodeSnapshot body = Inr s)"
proof -
  have "sound 0 s" using fold_sound(1) [of es 0 EmptySnapshot s] EmptySnapshot_sound assms by simp
  then show ?thesis using storable_encodes [of s] DecodeSnapshot_roundtrip [of s] by (auto simp: sound_def hub_invariant_def)
qed

theorem states_are_storable_witness:
  "fold_events reducer_step EmptySnapshot sample_log = Inr sample_verified \<and>
   (\<exists>body. EncodeSnapshot sample_verified = Inr body \<and> DecodeSnapshot body = Inr sample_verified)"
proof -
  have f: "fold_events reducer_step EmptySnapshot sample_log = Inr sample_verified" by (simp add: sample_log_def sample_register sample_verify)
  moreover have "length sample_log \<le> max_revision" by (simp add: sample_log_def max_revision_def)
  ultimately show ?thesis using states_are_storable [OF sample_log_storable _ f] by blast
qed

text \<open>A publication that takes longer than the poll interval stops the consolidator: when storing the snapshot of a
  change fails because the poll's deadline has passed, the service stops consuming, the loop takes the error for an
  idle poll, and its next turn ends the process with an error that no longer names the cause.\<close>

theorem slow_publication_stops_process:
  assumes "sv_consumerActive sv" "sv_consumer sv = Some c" "pv_CaughtUp pv (w, c) = ((w1, c1), Inr False)"
    "eventConsumer_Receive pv n (w1, c1) = ((w2, c2), Inr b)" "eb_Records b = r # rs"
    "Reducer_Apply (sv_snapshot sv) (Some (er_Event r)) = Inr (next1, True)"
    "SaveSnapshot pv opts next1 w2 = (w3, Some err)" "errors_is err DeadlineExceeded"
    "pl_ctx p = None" "pl_ctx p' = None"
  shows "\<exists>st'. consumeConsolidator pv opts n (p # p' # ps) (sv, w) =
    (st', Some (Wrap ''consume state events'' (Error ''state consumer is not active'')))"
  using assms by (simp add: consume_def service_fail_def)

text \<open>A store that is too slow to publish.\<close>

definition slow_provider :: "(Store, memory_consumer) provider" where
  "slow_provider = memory_provider\<lparr>pv_Send := \<lambda>d m s. (s, Some (Wrap ''produce'' DeadlineExceeded))\<rparr>"

theorem slow_publication_stops_process_witness:
  "\<exists>sv w st'. sv_consumerActive (sv :: memory_consumer Service) \<and>
     consumeConsolidator slow_provider DefaultOptions 100
       [\<lparr>pl_deadline = Some DeadlineExceeded, pl_ctx = None, pl_wait = None\<rparr>, \<lparr>pl_deadline = None, pl_ctx = None, pl_wait = None\<rparr>] (sv, w) =
     (st', Some (Wrap ''consume state events'' (Error ''state consumer is not active'')))"
proof -
  obtain w c rest where i: "memory_inflight (w, c) [] rest" "list_all2 holds_event rest sample_log" by (rule sample_log_consumer)
  obtain m ms where rest: "rest = m # ms" "list_all2 holds_event ms (tl sample_log)" "holds_event m (TopicRegistered sample_meta sample_topic)"
    using i(2) by (cases rest) (auto simp: sample_log_def)
  let ?sv = "\<lparr>sv_snapshot = EmptySnapshot, sv_consumer = Some c, sv_initialized = True, sv_consumerActive = True, sv_validSnapshot = True, sv_caughtUp = True\<rparr>"
  have same: "pv_CaughtUp slow_provider = pv_CaughtUp memory_provider" "pv_Receive slow_provider = pv_Receive memory_provider"
    by (simp_all add: slow_provider_def)
  have up: "pv_CaughtUp slow_provider (w, c) = ((w, c), Inr False)" using memory_replay.caught_up [OF i(1)] rest(1) same by simp
  obtain w2 c2 b where b: "pv_Receive memory_provider 100 (w, c) = ((w2, c2), Inr b)" "Messages b = take (nat 100) rest"
    using memory_replay.receive [OF i(1), of 100] by force
  have "list_all2 holds_event (take (nat 100) rest) (take (nat 100) sample_log)" using i(2) by (rule list_all2_takeI)
  from event_records_holds [OF this] obtain rs where
    "event_records (take (nat 100) rest) = Inr (event_record m (TopicRegistered sample_meta sample_topic) # rs)"
    using rest(1) by (auto simp: sample_log_def)
  then have recv: "eventConsumer_Receive slow_provider 100 (w, c) =
      ((w2, c2), Inr \<lparr>eb_Records = event_record m (TopicRegistered sample_meta sample_topic) # rs, eb_CaughtUp = CaughtUp b\<rparr>)"
    using b same by (simp add: eventConsumer_Receive_def)
  have apply1: "Reducer_Apply (sv_snapshot ?sv) (Some (er_Event (event_record m (TopicRegistered sample_meta sample_topic)))) = Inr (sample_registered, True)"
    using sample_register by (simp add: event_record_def reducer_step_def)
  have "sound 0 sample_registered"
    using fold_sound(1) [of "[TopicRegistered sample_meta sample_topic]" 0 EmptySnapshot sample_registered] EmptySnapshot_sound [of 1] sample_log_storable
    by (simp add: sample_log_def sample_register max_revision_def)
  then obtain body where "EncodeSnapshot sample_registered = Inr body" using sound_encodes by blast
  then have save: "SaveSnapshot slow_provider DefaultOptions sample_registered w2 = (w2, Some (Wrap ''produce'' DeadlineExceeded))"
    by (simp add: SaveSnapshot_def slow_provider_def)
  have err: "errors_is (Wrap ''produce'' DeadlineExceeded) DeadlineExceeded" by simp
  have "sv_consumerActive ?sv" "sv_consumer ?sv = Some c"
    "eb_Records \<lparr>eb_Records = event_record m (TopicRegistered sample_meta sample_topic) # rs, eb_CaughtUp = CaughtUp b\<rparr> =
      event_record m (TopicRegistered sample_meta sample_topic) # rs" by simp_all
  from slow_publication_stops_process [OF this(1,2) up recv this(3) apply1 save err,
      of "\<lparr>pl_deadline = Some DeadlineExceeded, pl_ctx = None, pl_wait = None\<rparr>" "\<lparr>pl_deadline = None, pl_ctx = None, pl_wait = None\<rparr>" "[]"]
  obtain st' where "consumeConsolidator slow_provider DefaultOptions 100
       [\<lparr>pl_deadline = Some DeadlineExceeded, pl_ctx = None, pl_wait = None\<rparr>, \<lparr>pl_deadline = None, pl_ctx = None, pl_wait = None\<rparr>] (?sv, w) =
     (st', Some (Wrap ''consume state events'' (Error ''state consumer is not active'')))" by (auto simp del: consumeConsolidator.simps)
  moreover have "sv_consumerActive ?sv" by simp
  ultimately show ?thesis by blast
qed

end
