(* ===== verification/Observe.thy ===== *)
theory Observe
  imports Go_Strings
begin

text \<open>
  The filter of log attributes (\<open>internal/observe/log.go\<close>): which attributes reach the log and what their values may
  look like. A value is a string, a value of another kind, or a \<open>LogValuer\<close> that resolves to one.
\<close>

abbreviation maximumLogValueBytes :: nat where "maximumLogValueBytes \<equiv> 256"

definition allowedLogAttributes :: "string list" where
  "allowedLogAttributes =
     [''component'', ''operation'', ''status_class'', ''failure_class'', ''provider'', ''event_id'', ''message_id'',
      ''subscription_id'', ''revision'', ''attempt'', ''duration_ms'', ''error_class'', ''surface'', ''auth_mode'',
      ''version'', ''commit'', ''build_date'']"

text \<open>\<open>slog.Level\<close>.\<close>

definition log_Level :: "string \<Rightarrow> int result" where
  "log_Level name =
     (if name = ''debug'' then Inr (- 4)
      else if name = ''info'' then Inr 0
      else if name = ''warn'' then Inr 4
      else if name = ''error'' then Inr 8
      else Inl (Error ''unsupported log level''))"

datatype log_value = LogString string | LogOther nat | LogValuer log_value

record log_attr =
  at_Key :: string
  at_Value :: log_value

fun resolve :: "log_value \<Rightarrow> log_value" where
  "resolve (LogValuer v) = resolve v"
| "resolve v = v"

definition ellipsis :: string where
  "ellipsis = [char_of (0xE2 :: nat), char_of (0x80 :: nat), char_of (0xA6 :: nat)]"

definition blank :: "char \<Rightarrow> char" where
  "blank c = (if byte c = 10 \<or> byte c = 13 then CHR '' '' else c)"

definition truncateAttribute :: "log_attr \<Rightarrow> log_attr" where
  "truncateAttribute attribute =
     (case resolve (at_Value attribute) of
        LogString text1 \<Rightarrow>
          let text2 = (if maximumLogValueBytes < length text1 then take maximumLogValueBytes text1 @ ellipsis else text1)
          in \<lparr>at_Key = at_Key attribute, at_Value = LogString (map blank text2)\<rparr>
      | _ \<Rightarrow> attribute)"

text \<open>The empty attribute is dropped by the handler.\<close>

definition dropped :: log_attr where
  "dropped = \<lparr>at_Key = [], at_Value = LogOther 0\<rparr>"

definition replaceAttribute :: "string list \<Rightarrow> log_attr \<Rightarrow> log_attr" where
  "replaceAttribute groups attribute =
     (if groups = [] \<and> at_Key attribute \<in> {''time'', ''level'', ''msg'', ''source''} then truncateAttribute attribute
      else if at_Key attribute \<notin> set allowedLogAttributes then dropped
      else truncateAttribute attribute)"

text \<open>Whatever is logged, an attribute of a name that is not listed is dropped, and a string that reaches the log
  is at most 259 bytes long and on one line.\<close>

lemma truncateAttribute_value:
  assumes "resolve (at_Value (truncateAttribute a)) = LogString t"
  shows "length t \<le> maximumLogValueBytes + 3 \<and> (\<forall>c\<in>set t. byte c \<noteq> 10 \<and> byte c \<noteq> 13)"
proof -
  have blanked: "byte (blank c) \<noteq> 10 \<and> byte (blank c) \<noteq> 13" for c by (simp add: blank_def byte_def)
  show ?thesis
  proof (cases "resolve (at_Value a)")
    case (LogString x)
    with assms have "t = map blank (if maximumLogValueBytes < length x then take maximumLogValueBytes x @ ellipsis else x)"
      by (simp add: truncateAttribute_def Let_def)
    moreover have "length ellipsis = 3" by (simp add: ellipsis_def)
    ultimately show ?thesis using blanked by auto
  qed (use assms in \<open>simp_all add: truncateAttribute_def\<close>)
qed

lemma truncateAttribute_key [simp]: "at_Key (truncateAttribute a) = at_Key a"
  by (simp add: truncateAttribute_def Let_def split: log_value.splits)

text \<open>Whatever the program logs, an attribute reaches the log only under a listed name, or under a name of the
  logging library at the top level; and its string value, also one that a value object resolves to, is at most 259
  bytes long and free of line breaks, so that no logged value can forge a log line.\<close>

theorem logged_attributes_bounded:
  "replaceAttribute groups a = dropped \<or>
   at_Key (replaceAttribute groups a) = at_Key a \<and>
   (at_Key a \<in> set allowedLogAttributes \<or> groups = [] \<and> at_Key a \<in> {''time'', ''level'', ''msg'', ''source''}) \<and>
   (case resolve (at_Value (replaceAttribute groups a)) of
      LogString t \<Rightarrow> length t \<le> maximumLogValueBytes + 3 \<and> (\<forall>c\<in>set t. byte c \<noteq> 10 \<and> byte c \<noteq> 13)
    | _ \<Rightarrow> True)"
  using truncateAttribute_value [of a]
  by (cases "resolve (at_Value (truncateAttribute a))") (auto simp: replaceAttribute_def)

theorem logged_attributes_bounded_witness:
  "at_Key (replaceAttribute [] \<lparr>at_Key = ''provider'', at_Value = LogString ''kafka''\<rparr>) = ''provider''"
proof -
  let ?a = "\<lparr>at_Key = ''provider'', at_Value = LogString ''kafka''\<rparr>"
  have "replaceAttribute [] ?a \<noteq> dropped"
    by (simp add: replaceAttribute_def allowedLogAttributes_def truncateAttribute_def dropped_def)
  with logged_attributes_bounded [of "[]" ?a] show ?thesis by simp
qed

end
