(* ===== verification/Transport.thy ===== *)
theory Transport
  imports Configuration Kafka_Options
begin

text \<open>
  The translation of settings into transport configurations: mutual TLS of the internal traffic
  (\<open>internal/transport/mtls/mtls.go\<close>) and the Kafka client (\<open>internal/app/provider/kafka.go\<close>). Reading a file, parsing
  certificates and loading a key pair are arguments; key pairs and pools are opaque.
\<close>

record ('cert, 'pool) tls_files =
  tf_ReadFile :: "string \<Rightarrow> string result"
  tf_AppendCertsFromPEM :: "string \<Rightarrow> 'pool option"
  tf_LoadX509KeyPair :: "string \<Rightarrow> string \<Rightarrow> 'cert result"

datatype tls_version = VersionTLS12 | VersionTLS13

record ('cert, 'pool) tls_config =
  tc_MinVersion :: tls_version
  tc_Certificates :: "'cert list"
  tc_VerifyClient :: bool
  tc_ClientCAs :: "'pool option"
  tc_RootCAs :: "'pool option"
  tc_ServerName :: string
  tc_InsecureSkipVerify :: bool

section \<open>Internal traffic\<close>

definition loadPool :: "('cert, 'pool) tls_files \<Rightarrow> string \<Rightarrow> 'pool result" where
  "loadPool fs path =
     (if path = [] then Inl (Error ''CA file is required'')
      else case tf_ReadFile fs path of
          Inl err \<Rightarrow> Inl err
        | Inr pem \<Rightarrow> (case tf_AppendCertsFromPEM fs pem of None \<Rightarrow> Inl (Error ''CA file contains no certificates'') | Some pool \<Rightarrow> Inr pool))"

text \<open>\<^const>\<open>None\<close> is a nil configuration: no TLS.\<close>

definition mtls_Server :: "('cert, 'pool) tls_files \<Rightarrow> string \<Rightarrow> MTLSServerFiles \<Rightarrow> ('cert, 'pool) tls_config option result" where
  "mtls_Server fs mode files =
     (if mode = ''none'' then Inr None
      else if mode \<noteq> ''mtls'' then Inl (Error ''unsupported internal authentication mode'')
      else case tf_LoadX509KeyPair fs (sf_CertificateFile files) (sf_PrivateKeyFile files) of
          Inl err \<Rightarrow> Inl (Wrap ''load internal server identity'' err)
        | Inr certificate \<Rightarrow>
            (case loadPool fs (ClientCAFile files) of
               Inl err \<Rightarrow> Inl (Wrap ''load internal client CA'' err)
             | Inr clientCAs \<Rightarrow> Inr (Some \<lparr>tc_MinVersion = VersionTLS13, tc_Certificates = [certificate], tc_VerifyClient = True,
                 tc_ClientCAs = Some clientCAs, tc_RootCAs = None, tc_ServerName = [], tc_InsecureSkipVerify = False\<rparr>)))"

definition mtls_Client :: "('cert, 'pool) tls_files \<Rightarrow> string \<Rightarrow> MTLSClientFiles \<Rightarrow> ('cert, 'pool) tls_config option result" where
  "mtls_Client fs mode files =
     (if mode = ''none'' then Inr None
      else if mode \<noteq> ''mtls'' then Inl (Error ''unsupported internal authentication mode'')
      else case tf_LoadX509KeyPair fs (cf_CertificateFile files) (cf_PrivateKeyFile files) of
          Inl err \<Rightarrow> Inl (Wrap ''load internal client identity'' err)
        | Inr certificate \<Rightarrow>
            (case loadPool fs (ServerCAFile files) of
               Inl err \<Rightarrow> Inl (Wrap ''load internal server CA'' err)
             | Inr roots \<Rightarrow> Inr (Some \<lparr>tc_MinVersion = VersionTLS13, tc_Certificates = [certificate], tc_VerifyClient = False,
                 tc_ClientCAs = None, tc_RootCAs = Some roots, tc_ServerName = cf_ServerName files, tc_InsecureSkipVerify = False\<rparr>)))"

section \<open>Kafka\<close>

definition kafkaTLS :: "('cert, 'pool) tls_files \<Rightarrow> KafkaTLS \<Rightarrow> ('cert, 'pool) tls_config option result" where
  "kafkaTLS fs source =
     (if \<not> tls_Enabled source then Inr None
      else case tf_ReadFile fs (CAFile source) of
          Inl err \<Rightarrow> Inl (Wrap ''read Kafka CA'' err)
        | Inr body \<Rightarrow>
            (case tf_AppendCertsFromPEM fs body of
               None \<Rightarrow> Inl (Error ''Kafka CA file contains no certificates'')
             | Some roots \<Rightarrow>
                 let result = \<lparr>tc_MinVersion = VersionTLS12, tc_Certificates = [], tc_VerifyClient = False, tc_ClientCAs = None,
                       tc_RootCAs = Some roots, tc_ServerName = tls_ServerName source, tc_InsecureSkipVerify = InsecureSkipVerify source\<rparr>
                 in if tls_CertificateFile source = [] then Inr (Some result)
                    else case tf_LoadX509KeyPair fs (tls_CertificateFile source) (tls_PrivateKeyFile source) of
                        Inl err \<Rightarrow> Inl (Wrap ''load Kafka client identity'' err)
                      | Inr certificate \<Rightarrow> Inr (Some (result\<lparr>tc_Certificates := [certificate]\<rparr>))))"

text \<open>The mechanism that is added: its kind, user and password.\<close>

datatype sasl_mechanism = Plain string string | ScramSha256 string string | ScramSha512 string string

definition kafka_sasl :: "('cert, 'pool) tls_files \<Rightarrow> KafkaSASL \<Rightarrow> sasl_mechanism list result" where
  "kafka_sasl fs source =
     (if Mechanism source = [] then Inr []
      else case tf_ReadFile fs (PasswordFile source) of
          Inl err \<Rightarrow> Inl (Wrap ''read Kafka SASL password'' err)
        | Inr body \<Rightarrow>
            let password = TrimSpace body in
            if password = [] then Inl (Error ''Kafka SASL password file is empty'')
            else if Mechanism source = ''plain'' then Inr [Plain (Username source) password]
            else if Mechanism source = ''scram-sha-256'' then Inr [ScramSha256 (Username source) password]
            else if Mechanism source = ''scram-sha-512'' then Inr [ScramSha512 (Username source) password]
            else Inl (Error ''unsupported Kafka SASL mechanism''))"

definition provider_Kafka ::
  "('cert, 'pool) tls_files \<Rightarrow> MessageStore \<Rightarrow> (Config \<times> ('cert, 'pool) tls_config option \<times> sasl_mechanism list) result" where
  "provider_Kafka fs source =
     (if ms_Provider source \<noteq> ''kafka'' then Inl (Error ''unsupported MessageStore provider'')
      else case kafkaTLS fs (kfk_TLS (ms_Kafka source)) of
          Inl err \<Rightarrow> Inl err
        | Inr tls \<Rightarrow>
            (case kafka_sasl fs (kfk_SASL (ms_Kafka source)) of
               Inl err \<Rightarrow> Inl err
             | Inr sasl \<Rightarrow> Inr (\<lparr>Brokers = kfk_Brokers (ms_Kafka source), ClientID = kfk_ClientID (ms_Kafka source),
                 TLS = (tls \<noteq> None), SASL = length sasl, DialTimeout = kfk_DialTimeout (ms_Kafka source),
                 RequestTimeoutOverhead = kfk_RequestTimeoutOverhead (ms_Kafka source),
                 DefaultReplicationFactor = kfk_DefaultReplicationFactor (ms_Kafka source)\<rparr>, tls, sasl)))"

section \<open>What the settings guarantee\<close>

text \<open>Whatever the files hold, TLS is never left out where it was asked for.\<close>

lemma mtls_not_downgraded:
  "mtls_Server fs mode files = Inr None \<Longrightarrow> mode = ''none''"
  "mtls_Server fs mode files = Inr (Some c) \<Longrightarrow> mode = ''mtls'' \<and> tc_MinVersion c = VersionTLS13 \<and> tc_VerifyClient c \<and>
     (\<exists>pool. tc_ClientCAs c = Some pool \<and> loadPool fs (ClientCAFile files) = Inr pool)"
  "mtls_Client fs mode cfiles = Inr None \<Longrightarrow> mode = ''none''"
  "mtls_Client fs mode cfiles = Inr (Some c) \<Longrightarrow> mode = ''mtls'' \<and> tc_MinVersion c = VersionTLS13 \<and> \<not> tc_InsecureSkipVerify c \<and>
     (\<exists>pool. tc_RootCAs c = Some pool \<and> loadPool fs (ServerCAFile cfiles) = Inr pool)"
  by (auto simp: mtls_Server_def mtls_Client_def split: if_splits sum.splits)

end
