(* ===== verification/Hub_System.thy ===== *)
theory Hub_System
  imports Hub_Runtime
begin

text \<open>
  The processes together on one store: writers append events, the consolidator consumes, hubs join and follow, in any
  order. The step relation has one rule per operation of a process; an operation is atomic, as the store and the
  locks of the services make it. The locale \<open>shared_log\<close> is what the processes rely on when they share a log: an
  operation of one consumer leaves the others where they are.
\<close>

section \<open>The interface\<close>

lemma replay_taken:
  "replay s es = (s', left) \<Longrightarrow> \<exists>taken. es = taken @ left \<and> fold_events reducer_step s taken = Inr s'"
proof (induction es arbitrary: s)
  case (Cons e es)
  show ?case
  proof (cases "reducer_step s e")
    case (Inr r)
    then obtain s1 c where "reducer_step s e = Inr (s1, c)" by (cases r) auto
    with Cons.IH [of s1] Cons.prems obtain taken where "es = taken @ left" "fold_events reducer_step s1 taken = Inr s'" by auto
    with \<open>reducer_step s e = Inr (s1, c)\<close> show ?thesis by (intro exI [of _ "e # taken"]) simp
  qed (use Cons.prems in simp)
qed simp

type_synonym 'c process = "Snapshot \<times> bool \<times> 'c option"

definition processes :: "'c Service \<Rightarrow> 'c Projection list \<Rightarrow> 'c process list" where
  "processes sv pjs =
     (sv_snapshot sv, sv_consumerActive sv, sv_consumer sv) # map (\<lambda>pj. (pj_snapshot pj, pj_ready pj, pj_consumer pj)) pjs"

locale shared_log = shared_provider +
  fixes key :: "'b \<Rightarrow> string"
  assumes look: "pv_CaughtUp pv x = (x', r) \<Longrightarrow> x' = x"
    and receive_own: "pv_Receive pv n x = (x', b) \<Longrightarrow> fst x' = fst x \<and> key (snd x') = key (snd x)"
    and ack_own: "pv_Ack pv q x = (x', err) \<Longrightarrow> key (snd x') = key (snd x) \<and> sent (fst x') = sent (fst x)"
    and ack_other: "pv_Ack pv q (w, c) = ((w', c'), err) \<Longrightarrow> key c2 \<noteq> key c \<Longrightarrow> inflight (w, c2) batch rest \<Longrightarrow> inflight (w', c2) batch rest"
    and send_keeps: "pv_Send pv d msg w = (w', err) \<Longrightarrow> inflight (w, c) batch rest \<Longrightarrow> d \<noteq> dest c \<Longrightarrow> inflight (w', c) batch rest"
    and send_sent: "pv_Send pv d msg w = (w', err) \<Longrightarrow> d' \<noteq> d \<Longrightarrow> sent w' d' = sent w d'"
    and send_own: "inflight (w, c) batch rest \<Longrightarrow> pv_Send pv (dest c) msg w = (w', None) \<Longrightarrow> Suc (length (sent w (dest c))) < 2 ^ 63 \<Longrightarrow>
          \<exists>q. inflight (w', c) batch (rest @ [\<lparr>rcv_Message = msg, rcv_Receipt = q\<rparr>])"
    and open_latest: "good w \<Longrightarrow> usable d \<Longrightarrow> k \<noteq> [] \<Longrightarrow> length (sent w d) < 2 ^ 63 \<Longrightarrow>
          pv_OpenConsumer pv \<lparr>spec_ID = k, spec_Destination = d, spec_StartPosition = StartLatest, spec_Subscription = None\<rparr> w = (w', Inr c) \<Longrightarrow>
          good w' \<and> sent w' = sent w \<and> dest c = d \<and> (\<exists>rest. inflight (w', c) [] rest) \<and>
          (\<forall>c2 batch rest. key c2 \<noteq> key c \<and> inflight (w, c2) batch rest \<longrightarrow> inflight (w', c2) batch rest)"
begin

text \<open>What the operations of a process leave alone.\<close>

lemma eventConsumer_Receive_own:
  "eventConsumer_Receive pv n x = (x', b) \<Longrightarrow> fst x' = fst x \<and> key (snd x') = key (snd x)"
  using receive_own [of n x] by (auto simp: eventConsumer_Receive_def split: prod.splits sum.splits)

lemma SaveSnapshot_keeps:
  "SaveSnapshot pv opts s w = (w', err) \<Longrightarrow> inflight (w, c) batch rest \<Longrightarrow> so_SnapshotsDestination opts \<noteq> dest c \<Longrightarrow> inflight (w', c) batch rest"
  by (auto simp: SaveSnapshot_def split: sum.splits dest: send_keeps)

lemma SaveSnapshot_sent:
  "SaveSnapshot pv opts s w = (w', err) \<Longrightarrow> d \<noteq> so_SnapshotsDestination opts \<Longrightarrow> sent w' d = sent w d"
  by (auto simp: SaveSnapshot_def split: sum.splits dest: send_sent)

lemma acknowledge_keeps:
  "acknowledge pv rs x = (x', err) \<Longrightarrow>
   key (snd x') = key (snd x) \<and> sent (fst x') = sent (fst x) \<and> (key c2 \<noteq> key (snd x) \<longrightarrow> inflight (fst x, c2) batch rest \<longrightarrow> inflight (fst x', c2) batch rest)"
proof (induction rs arbitrary: x)
  case (Cons r rs)
  obtain y e where y: "pv_Ack pv (er_Receipt r) x = (y, e)" by fastforce
  note k = ack_own [OF y] and o = ack_other [of "er_Receipt r" "fst x" "snd x" "fst y" "snd y" e c2 batch rest]
  show ?case using Cons.IH [of y] Cons.prems y k o by (cases e) auto
qed simp

lemma consume_records_keeps:
  "consume_records pv opts rs s sv x = (sv', x', err) \<Longrightarrow>
   key (snd x') = key (snd x) \<and> (d \<noteq> so_SnapshotsDestination opts \<longrightarrow> sent (fst x') d = sent (fst x) d) \<and>
   (key c2 \<noteq> key (snd x) \<longrightarrow> so_SnapshotsDestination opts \<noteq> dest c2 \<longrightarrow> inflight (fst x, c2) batch rest \<longrightarrow> inflight (fst x', c2) batch rest)"
proof (induction rs arbitrary: s sv x)
  case (Cons r rs)
  show ?case
  proof (cases "Reducer_Apply s (Some (er_Event r))")
    case (Inl e)
    then show ?thesis using Cons.prems by auto
  next
    case (Inr p)
    then obtain s1 changed where p: "Reducer_Apply s (Some (er_Event r)) = Inr (s1, changed)" by (cases p) auto
    obtain w1 e1 where w1: "(if changed then SaveSnapshot pv opts s1 (fst x) else (fst x, None)) = (w1, e1)" by fastforce
    have saved: "inflight (w1, c2) batch rest" if "inflight (fst x, c2) batch rest" "so_SnapshotsDestination opts \<noteq> dest c2"
      using w1 that SaveSnapshot_keeps [of opts s1 "fst x"] by (auto split: if_splits)
    have sent1: "sent w1 d = sent (fst x) d" if "d \<noteq> so_SnapshotsDestination opts"
      using w1 that SaveSnapshot_sent [of opts s1 "fst x"] by (auto split: if_splits)
    obtain y e where y: "pv_Ack pv (er_Receipt r) (w1, snd x) = (y, e)" by fastforce
    note k = ack_own [OF y] and o = ack_other [of "er_Receipt r" w1 "snd x" "fst y" "snd y" e c2 batch rest]
    show ?thesis
    proof (cases "e1 = None \<and> e = None")
      case True
      then have "consume_records pv opts rs (if changed then s1 else s)
          (if changed then sv\<lparr>sv_snapshot := s1, sv_validSnapshot := True\<rparr> else sv) y = (sv', x', err)"
        using Cons.prems p w1 y by (simp add: Let_def)
      from Cons.IH [OF this] k o y saved sent1 show ?thesis by auto
    next
      case False
      then show ?thesis using Cons.prems p w1 y k o saved sent1 by (cases e1) (auto simp: Let_def)
    qed
  qed
qed simp

lemma acknowledge_good:
  "inflight x ms rest \<Longrightarrow> good (fst x) \<Longrightarrow> length ms = length es \<Longrightarrow>
   \<exists>x'. acknowledge pv (map2 event_record ms es) x = (x', None) \<and> inflight x' [] rest \<and> good (fst x') \<and> dest (snd x') = dest (snd x)"
proof (induction ms arbitrary: x es)
  case (Cons m ms)
  then obtain e es' where es: "es = e # es'" by (cases es) auto
  obtain y where y: "pv_Ack pv (rcv_Receipt m) x = (y, None)" "inflight y ms rest" "good (fst y)" "dest (snd y) = dest (snd x)"
    using ack [OF Cons.prems(1)] Cons.prems(2) by blast
  with Cons.IH [OF y(2,3), of es'] Cons.prems(3) es show ?case by (auto simp: event_record_def)
qed simp

text \<open>One turn of the consolidator: it takes some of the next events, and what it holds is published.\<close>

lemma consume_keeps:
  assumes "consume pv opts ctx n (sv, w) = ((sv', w'), res)" "sv_consumer sv = Some c"
  shows "(\<exists>c'. sv_consumer sv' = Some c' \<and> key c' = key c) \<and> (d \<noteq> so_SnapshotsDestination opts \<longrightarrow> sent w' d = sent w d) \<and>
    (key c2 \<noteq> key c \<longrightarrow> so_SnapshotsDestination opts \<noteq> dest c2 \<longrightarrow> inflight (w, c2) batch rest \<longrightarrow> inflight (w', c2) batch rest)"
proof (cases "sv_consumerActive sv")
  case True
  obtain r where r: "pv_CaughtUp pv (w, c) = ((w, c), r)" using look [of "(w, c)"] by (cases "pv_CaughtUp pv (w, c)") auto
  obtain c1 m where m: "eventConsumer_Receive pv n (w, c) = ((w, c1), m)" "key c1 = key c"
    using eventConsumer_Receive_own [of n "(w, c)"] by (cases "eventConsumer_Receive pv n (w, c)") auto
  consider (same) "w' = w" "\<exists>c'. sv_consumer sv' = Some c' \<and> key c' = key c" |
    (took) rs sv1 w1 c2 err where "consume_records pv opts rs (sv_snapshot sv) sv (w, c1) = (sv1, (w1, c2), err)" "w' = w1" "sv_consumer sv' = Some c2"
    using assms True r m by (auto simp: consume_def service_fail_def Let_def split: sum.splits option.splits if_splits prod.splits)
  then show ?thesis
  proof cases
    case took
    then show ?thesis using consume_records_keeps [OF took(1)] m(2) by auto
  qed simp
qed (use assms in \<open>auto simp: consume_def\<close>)

lemma consume_turn:
  assumes "sv_consumerActive sv" "sv_initialized sv" "sv_validSnapshot sv" "sv_consumer sv = Some c"
    "inflight (w, c) [] rest" "list_all2 holds_event rest es" "\<forall>e\<in>set es. event_storable e" "sound (length es) (sv_snapshot sv)"
    "good w" "dest c \<noteq> so_SnapshotsDestination opts" "published opts (sent w) (sv_snapshot sv)" "1 \<le> n"
    "consume pv opts ctx n (sv, w) = ((sv', w'), res)"
  shows "\<exists>j\<le>length es. fold_events reducer_step (sv_snapshot sv) (take j es) = Inr (sv_snapshot sv') \<and> good w' \<and>
     published opts (sent w') (sv_snapshot sv') \<and>
     (sv_consumerActive sv' \<longrightarrow> sv_initialized sv' \<and> sv_validSnapshot sv' \<and>
        (\<exists>c'. sv_consumer sv' = Some c' \<and> dest c' = dest c \<and> inflight (w', c') [] (drop j rest)))"
proof -
  let ?e = "take (nat n) es"
  obtain s1 left1 where r1: "replay (sv_snapshot sv) ?e = (s1, left1)" by fastforce
  obtain taken where taken: "?e = taken @ left1" "fold_events reducer_step (sv_snapshot sv) taken = Inr s1"
    using replay_taken [OF r1] by blast
  let ?j = "length taken"
  have len: "length ?e = ?j + length left1" using taken(1) by simp
  have "take ?j ?e = taken" using taken(1) by simp
  moreover have "?j \<le> nat n" "?j \<le> length es" using len by simp_all
  ultimately have j: "?j \<le> length es" "take ?j es = taken" by (simp_all add: min_def split: if_splits)
  have "drop ?j rest = drop (nat n) rest" if "left1 = []"
    using len that list_all2_lengthD [OF assms(6)] by (cases "nat n \<le> length es") simp_all
  with consume_replay [OF assms(1-12) r1, of ctx] assms(13) j taken(2) show ?thesis by (intro exI [of _ ?j]) auto
qed

text \<open>One turn of a hub's projection.\<close>

lemma project_turn:
  assumes "pj_ready pj" "pj_consumer pj = Some c" "inflight (w, c) [] rest" "list_all2 holds_event rest es" "good w" "1 \<le> n"
    "projection_Consume pv n (pj, w) = ((pj', w'), res)"
  shows "\<exists>j\<le>length es. fold_events reducer_step (pj_snapshot pj) (take j es) = Inr (pj_snapshot pj') \<and> good w' \<and> sent w' = sent w \<and>
     (pj_ready pj' \<longrightarrow> (\<exists>c'. pj_consumer pj' = Some c' \<and> key c' = key c \<and> dest c' = dest c \<and> inflight (w', c') [] (drop j rest))) \<and>
     (\<forall>c2 batch more. key c2 \<noteq> key c \<and> inflight (w, c2) batch more \<longrightarrow> inflight (w', c2) batch more)"
proof (cases "rest = []")
  case True
  then show ?thesis using assms caught_up [OF assms(3)] by (intro exI [of _ 0]) (auto simp: projection_Consume_def)
next
  case False
  let ?b = "take (nat n) rest" and ?r = "drop (nat n) rest" and ?e = "take (nat n) es"
  have h: "list_all2 holds_event ?b ?e" using assms(4) by (rule list_all2_takeI)
  have len: "length ?b = length ?e" using list_all2_lengthD [OF h] .
  obtain c1 b where y: "pv_Receive pv n (w, c) = ((w, c1), Inr b)" "Messages b = ?b" "inflight (w, c1) ?b ?r" "dest c1 = dest c"
    using receive [OF assms(3,6)] by auto
  have recv: "eventConsumer_Receive pv n (w, c) = ((w, c1), Inr \<lparr>eb_Records = map2 event_record ?b ?e, eb_CaughtUp = CaughtUp b\<rparr>)"
    using y event_records_holds [OF h] by (simp add: eventConsumer_Receive_def)
  have k1: "key c1 = key c" using receive_own [OF y(1)] by simp
  note start = assms(1,2,7) caught_up [OF assms(3)] False recv
  from reduce_fold [OF len, of "pj_snapshot pj"] show ?thesis
  proof (elim disjE exE conjE)
    fix err assume "reduce (pj_snapshot pj) (map2 event_record ?b ?e) = Inl err"
    then show ?thesis using start assms(5) by (intro exI [of _ 0]) (auto simp: projection_Consume_def markUnready_def)
  next
    fix s' assume f: "fold_events reducer_step (pj_snapshot pj) ?e = Inr s'" "reduce (pj_snapshot pj) (map2 event_record ?b ?e) = Inr s'"
    obtain w2 c2 where a: "acknowledge pv (map2 event_record ?b ?e) (w, c1) = ((w2, c2), None)" "inflight (w2, c2) [] ?r" "good w2" "dest c2 = dest c1"
      using acknowledge_good [OF y(3) _ len] assms(5) by auto
    have pj': "pj' = pj\<lparr>pj_consumer := Some c2, pj_snapshot := s'\<rparr>" "w' = w2" using start f(2) a(1) by (auto simp: projection_Consume_def)
    have "drop (length ?e) rest = ?r" using len by (cases "nat n \<le> length rest") (auto simp: min_def split: if_splits)
    then show ?thesis
      using f(1) a pj' y(4) k1 acknowledge_keeps [OF a(1)] by (intro exI [of _ "length ?e"]) (auto simp: min_def)
  qed
qed

section \<open>The processes of a system\<close>

text \<open>A process as the log sees it: its state, whether it still reads, and its consumer. It holds the state of a
  part of the log and, while it reads, continues right there.\<close>

definition up_to_date :: "Destination \<Rightarrow> event list \<Rightarrow> 'a \<Rightarrow> 'b process \<Rightarrow> bool" where
  "up_to_date ev es w = (\<lambda>(s, active, consumer).
     \<exists>k\<le>length es. fold_events reducer_step EmptySnapshot (take k es) = Inr s \<and>
       (active \<longrightarrow> (\<exists>c rest. consumer = Some c \<and> dest c = ev \<and> inflight (w, c) [] rest \<and> list_all2 holds_event rest (drop k es))))"

definition apart :: "'b process list \<Rightarrow> bool" where
  "apart ps \<longleftrightarrow>
     (\<forall>i j c d. i < length ps \<and> j < length ps \<and> i \<noteq> j \<and> snd (ps ! i) = (True, Some c) \<and> snd (ps ! j) = (True, Some d) \<longrightarrow> key c \<noteq> key d)"

text \<open>One process acts and the others stay where they are.\<close>

lemma one_acts:
  assumes "\<forall>p\<in>set ps. up_to_date ev es w p" "apart ps" "i < length ps" "snd (ps ! i) = (True, Some c)" "up_to_date ev es w' p"
    "\<And>d. snd p = (True, Some d) \<Longrightarrow> key d = key c"
    "\<And>c2 rest. key c2 \<noteq> key c \<Longrightarrow> dest c2 = ev \<Longrightarrow> inflight (w, c2) [] rest \<Longrightarrow> inflight (w', c2) [] rest"
  shows "(\<forall>p\<in>set (ps[i := p]). up_to_date ev es w' p) \<and> apart (ps[i := p])"
proof
  have "up_to_date ev es w' (ps ! j)" if j: "j < length ps" "j \<noteq> i" for j
  proof -
    obtain s active consumer where q: "ps ! j = (s, active, consumer)" by (cases "ps ! j") auto
    have "up_to_date ev es w (ps ! j)" using assms(1) j(1) by simp
    moreover have "key d \<noteq> key c" if "active" "consumer = Some d" for d
    proof -
      have "snd (ps ! j) = (True, Some d)" using q that by simp
      with assms(2-4) j show ?thesis unfolding apart_def by blast
    qed
    ultimately show ?thesis unfolding q up_to_date_def prod.case using assms(7) by blast
  qed
  then have "up_to_date ev es w' (ps[i := p] ! j)" if "j < length ps" for j
    using assms(5) that by (cases "j = i") simp_all
  then show "\<forall>p\<in>set (ps[i := p]). up_to_date ev es w' p" unfolding all_set_conv_all_nth length_list_update by blast
  show "apart (ps[i := p])"
    unfolding apart_def
  proof (intro allI impI)
    fix a b x y
    assume h: "a < length (ps[i := p]) \<and> b < length (ps[i := p]) \<and> a \<noteq> b \<and> snd (ps[i := p] ! a) = (True, Some x) \<and> snd (ps[i := p] ! b) = (True, Some y)"
    have apart: "key x' \<noteq> key y'" if "a' < length ps" "b' < length ps" "a' \<noteq> b'" "snd (ps ! a') = (True, Some x')" "snd (ps ! b') = (True, Some y')"
      for a' b' x' y' using assms(2) that unfolding apart_def by blast
    consider "a = i" "b \<noteq> i" | "b = i" "a \<noteq> i" | "a \<noteq> i" "b \<noteq> i" using h by auto
    then show "key x \<noteq> key y"
    proof cases
      case 1
      then have "key x = key c" "snd (ps ! b) = (True, Some y)" using assms(3,6) h by auto
      then show ?thesis using apart [OF assms(3), of b c y] 1 h assms(4) by auto
    next
      case 2
      then have "key y = key c" "snd (ps ! a) = (True, Some x)" using assms(3,6) h by auto
      then show ?thesis using apart [OF assms(3), of a c x] 2 h assms(4) by auto
    next
      case 3
      then show ?thesis using apart [of a b x y] h by auto
    qed
  qed
qed

text \<open>A writer acts and every process has one more event to read.\<close>

lemma append_acts:
  assumes "up_to_date ev es w p" "Append pv opts (Some e) w = (w', None)" "event_storable e" "so_EventsDestination opts = ev"
    "Suc (length (sent w ev)) < 2 ^ 63"
  shows "up_to_date ev (es @ [e]) w' p"
proof -
  obtain body where b: "EncodeEvent (Some e) = Inr body" "portable_event e" using assms(3) by (auto simp: event_storable_def)
  have w': "pv_Send pv ev (event_message e body) w = (w', None)" using assms(2,4) b(1) by (simp add: Append_def)
  obtain s active consumer where p: "p = (s, active, consumer)" by (cases p) auto
  obtain k where k: "k \<le> length es" "fold_events reducer_step EmptySnapshot (take k es) = Inr s"
    "active \<Longrightarrow> \<exists>c rest. consumer = Some c \<and> dest c = ev \<and> inflight (w, c) [] rest \<and> list_all2 holds_event rest (drop k es)"
    using assms(1) unfolding p up_to_date_def prod.case by blast
  have "\<exists>c rest. consumer = Some c \<and> dest c = ev \<and> inflight (w', c) [] rest \<and> list_all2 holds_event rest (drop k (es @ [e]))" if act: active
  proof -
    obtain c rest where c: "consumer = Some c" "dest c = ev" "inflight (w, c) [] rest" "list_all2 holds_event rest (drop k es)"
      using k(3) [OF act] by blast
    obtain q where "inflight (w', c) [] (rest @ [\<lparr>rcv_Message = event_message e body, rcv_Receipt = q\<rparr>])"
      using send_own [OF c(3) w' [folded c(2)]] assms(5) c(2) by blast
    moreover have "list_all2 holds_event (rest @ [\<lparr>rcv_Message = event_message e body, rcv_Receipt = q\<rparr>]) (drop k (es @ [e]))"
      using c(4) k(1) stored_event_message [OF b] by (auto simp: holds_event_def intro: list_all2_appendI)
    ultimately show ?thesis using c by blast
  qed
  then show ?thesis using k(1,2) unfolding p up_to_date_def prod.case by (intro exI [of _ k]) auto
qed

text \<open>A hub joins while nothing is left to read: it continues behind the whole log.\<close>

lemma join_acts:
  assumes "good w" "usable ev" "length (sent w ev) < 2 ^ 63" "so_EventsDestination opts = ev" "HubStateConsumerID server = Inr k"
    "OpenEvents pv opts k StartLatest w = (w', Inr c)" "pv_CaughtUp pv (w', c) = ((w', c), Inr True)"
    "fold_events reducer_step EmptySnapshot es = Inr s"
  shows "up_to_date ev es w' (s, True, Some c) \<and> good w' \<and> sent w' = sent w \<and>
    (\<forall>c2 batch rest. key c2 \<noteq> key c \<and> inflight (w, c2) batch rest \<longrightarrow> inflight (w', c2) batch rest)"
proof -
  have "k \<noteq> []" using assms(5) by (auto simp: HubStateConsumerID_def split: if_splits)
  note o = open_latest [OF assms(1-2) this assms(3) assms(6) [unfolded OpenEvents_def assms(4)]]
  then obtain rest where "inflight (w', c) [] rest" by blast
  with caught_up [OF this] assms(7) have "inflight (w', c) [] []" by simp
  with o assms(8) show ?thesis by (auto simp: up_to_date_def intro: exI [of _ "length es"])
qed

definition system_inv :: "StateOptions \<Rightarrow> event list \<Rightarrow> 'a \<Rightarrow> 'b Service \<Rightarrow> 'b Projection list \<Rightarrow> bool" where
  "system_inv opts es w sv pjs \<longleftrightarrow>
     good w \<and> list_all2 (\<lambda>m e. stored_event m = Inr e) (sent w (so_EventsDestination opts)) es \<and> (\<forall>e\<in>set es. event_storable e) \<and>
     length es < 2 ^ 63 \<and>
     (sv_consumerActive sv \<longrightarrow> sv_initialized sv \<and> sv_validSnapshot sv \<and> published opts (sent w) (sv_snapshot sv)) \<and>
     (\<forall>p\<in>set (processes sv pjs). up_to_date (so_EventsDestination opts) es w p) \<and> apart (processes sv pjs)"

lemma inv_append:
  assumes "system_inv opts es w sv pjs" "Append pv opts (Some e) w = (w', None)" "event_storable e"
    "so_EventsDestination opts \<noteq> so_SnapshotsDestination opts" "Suc (length (sent w (so_EventsDestination opts))) < 2 ^ 63"
  shows "system_inv opts (es @ [e]) w' sv pjs"
proof -
  let ?ev = "so_EventsDestination opts"
  obtain body where b: "EncodeEvent (Some e) = Inr body" "portable_event e" using assms(3) by (auto simp: event_storable_def)
  have w': "pv_Send pv ?ev (event_message e body) w = (w', None)" using assms(2) b(1) by (simp add: Append_def)
  have inv: "good w" "list_all2 (\<lambda>m e. stored_event m = Inr e) (sent w ?ev) es" using assms(1) by (simp_all add: system_inv_def)
  have s: "good w'" "sent w' = (sent w)(?ev := sent w ?ev @ [event_message e body])" using send [OF inv(1), of ?ev "event_message e body"] w' by auto
  have "list_all2 (\<lambda>m e. stored_event m = Inr e) (sent w' ?ev) (es @ [e])"
    using inv(2) s(2) stored_event_message [OF b] by (auto intro: list_all2_appendI)
  moreover have "length es = length (sent w ?ev)" using list_all2_lengthD [OF inv(2)] by simp
  moreover have "sent w' (so_SnapshotsDestination opts) = sent w (so_SnapshotsDestination opts)" using s(2) assms(4) by simp
  moreover have "\<forall>p\<in>set (processes sv pjs). up_to_date ?ev (es @ [e]) w' p"
    using append_acts [OF _ assms(2,3) refl assms(5)] assms(1) by (auto simp: system_inv_def)
  ultimately show ?thesis using assms(1,3,5) s(1) by (auto simp: system_inv_def published_def)
qed

lemma part_sound:
  assumes "\<forall>e\<in>set es. event_storable e" "length es < 2 ^ 63" "k \<le> length es" "fold_events reducer_step EmptySnapshot (take k es) = Inr s"
  shows "sound (length (drop k es)) s"
proof -
  have "length (take k es) + length (drop k es) = length es" by simp
  then have "sound (length (take k es) + length (drop k es)) EmptySnapshot"
    using EmptySnapshot_sound [of "length es"] assms(2) by (simp add: max_revision_def)
  moreover have "\<forall>e\<in>set (take k es). event_storable e" using assms(1) by (auto dest: in_set_takeD)
  ultimately show ?thesis using fold_sound(1) assms(4) by blast
qed

text \<open>A process that takes \<open>j\<close> more events.\<close>

lemma advance:
  assumes "k \<le> length es" "fold_events reducer_step EmptySnapshot (take k es) = Inr s" "list_all2 holds_event rest (drop k es)"
    "j \<le> length (drop k es)" "fold_events reducer_step s (take j (drop k es)) = Inr s'"
    "active \<Longrightarrow> \<exists>c'. consumer = Some c' \<and> dest c' = ev \<and> inflight (w', c') [] (drop j rest)"
  shows "up_to_date ev es w' (s', active, consumer)"
proof -
  have "take (k + j) es = take k es @ take j (drop k es)" by (simp add: take_add)
  then have "fold_events reducer_step EmptySnapshot (take (k + j) es) = Inr s'" using assms(2,5) by (simp add: fold_events_append)
  moreover have "list_all2 holds_event (drop j rest) (drop (k + j) es)"
    using list_all2_dropI [OF assms(3), of j] by (simp add: add.commute)
  ultimately show ?thesis using assms(1,4,6) unfolding up_to_date_def prod.case by (intro exI [of _ "k + j"]) auto
qed

lemma inv_consolidate:
  assumes "system_inv opts es w sv pjs" "consume pv opts ctx n (sv, w) = ((sv', w'), res)" "1 \<le> n"
    "so_EventsDestination opts \<noteq> so_SnapshotsDestination opts"
  shows "system_inv opts es w' sv' pjs"
proof (cases "sv_consumerActive sv")
  case False
  then show ?thesis using assms(1,2) by (auto simp: consume_def)
next
  case True
  let ?ev = "so_EventsDestination opts" and ?p = "\<lambda>sv. (sv_snapshot sv, sv_consumerActive sv, sv_consumer sv)"
  have inv: "good w" "list_all2 (\<lambda>m e. stored_event m = Inr e) (sent w ?ev) es" "\<forall>e\<in>set es. event_storable e" "length es < 2 ^ 63"
    "sv_initialized sv" "sv_validSnapshot sv" "published opts (sent w) (sv_snapshot sv)"
    "\<forall>p\<in>set (processes sv pjs). up_to_date ?ev es w p" "apart (processes sv pjs)"
    using assms(1) True by (simp_all add: system_inv_def)
  have "up_to_date ?ev es w (?p sv)" using inv(8) by (simp add: processes_def)
  then obtain k c rest where k: "k \<le> length es" "fold_events reducer_step EmptySnapshot (take k es) = Inr (sv_snapshot sv)"
    "sv_consumer sv = Some c" "dest c = ?ev" "inflight (w, c) [] rest" "list_all2 holds_event rest (drop k es)"
    using True unfolding up_to_date_def prod.case by blast
  have st: "\<forall>e\<in>set (drop k es). event_storable e" using inv(3) by (auto dest: in_set_dropD)
  have d: "dest c \<noteq> so_SnapshotsDestination opts" using k(4) assms(4) by simp
  obtain j where j: "j \<le> length (drop k es)" "fold_events reducer_step (sv_snapshot sv) (take j (drop k es)) = Inr (sv_snapshot sv')" "good w'"
    "published opts (sent w') (sv_snapshot sv')"
    "sv_consumerActive sv' \<Longrightarrow> sv_initialized sv' \<and> sv_validSnapshot sv' \<and>
        (\<exists>c'. sv_consumer sv' = Some c' \<and> dest c' = dest c \<and> inflight (w', c') [] (drop j rest))"
    using consume_turn [OF True inv(5,6) k(3,5,6) st part_sound [OF inv(3,4) k(1,2)] inv(1) d inv(7) assms(3,2)] by metis
  note keep = consume_keeps [OF assms(2) k(3)]
  have upd: "up_to_date ?ev es w' (?p sv')" by (rule advance [OF k(1,2,6) j(1,2)]) (use j(5) k(4) in auto)
  have "(\<forall>p\<in>set ((processes sv pjs)[0 := ?p sv']). up_to_date ?ev es w' p) \<and> apart ((processes sv pjs)[0 := ?p sv'])"
    by (rule one_acts [where c = c, OF inv(8,9) _ _ upd]) (use True k(3) keep assms(4) in \<open>auto simp: processes_def\<close>)
  moreover have "(processes sv pjs)[0 := ?p sv'] = processes sv' pjs" by (simp add: processes_def)
  ultimately show ?thesis using inv j(3-5) keep assms(4) by (simp add: system_inv_def)
qed

lemma inv_follow:
  assumes "system_inv opts es w sv pjs" "i < length pjs" "projection_Consume pv n (pjs ! i, w) = ((pj', w'), res)" "1 \<le> n"
  shows "system_inv opts es w' sv (pjs[i := pj'])"
proof (cases "pj_ready (pjs ! i)")
  case False
  then have "pj' = pjs ! i" "w' = w" using assms(3) by (auto simp: projection_Consume_def)
  then show ?thesis using assms(1,2) by simp
next
  case True
  let ?ev = "so_EventsDestination opts" and ?p = "\<lambda>pj. (pj_snapshot pj, pj_ready pj, pj_consumer pj)" and ?pj = "pjs ! i"
  have inv: "good w" "\<forall>p\<in>set (processes sv pjs). up_to_date ?ev es w p" "apart (processes sv pjs)"
    using assms(1) by (simp_all add: system_inv_def)
  have at: "processes sv pjs ! Suc i = ?p ?pj" "Suc i < length (processes sv pjs)" using assms(2) by (simp_all add: processes_def)
  have "up_to_date ?ev es w (?p ?pj)" using inv(2) at nth_mem by metis
  then obtain k c rest where k: "k \<le> length es" "fold_events reducer_step EmptySnapshot (take k es) = Inr (pj_snapshot ?pj)"
    "pj_consumer ?pj = Some c" "dest c = ?ev" "inflight (w, c) [] rest" "list_all2 holds_event rest (drop k es)"
    using True unfolding up_to_date_def prod.case by blast
  obtain j where j: "j \<le> length (drop k es)" "fold_events reducer_step (pj_snapshot ?pj) (take j (drop k es)) = Inr (pj_snapshot pj')" "good w'"
    "sent w' = sent w"
    "pj_ready pj' \<Longrightarrow> \<exists>c'. pj_consumer pj' = Some c' \<and> key c' = key c \<and> dest c' = dest c \<and> inflight (w', c') [] (drop j rest)"
    "\<And>c2 batch more. key c2 \<noteq> key c \<Longrightarrow> inflight (w, c2) batch more \<Longrightarrow> inflight (w', c2) batch more"
    using project_turn [OF True k(3,5,6) inv(1) assms(4,3)] by metis
  have upd: "up_to_date ?ev es w' (?p pj')" by (rule advance [OF k(1,2,6) j(1,2)]) (use j(5) k(4) in auto)
  have "(\<forall>p\<in>set ((processes sv pjs)[Suc i := ?p pj']). up_to_date ?ev es w' p) \<and> apart ((processes sv pjs)[Suc i := ?p pj'])"
    by (rule one_acts [where c = c, OF inv(2,3) at(2) _ upd]) (use True k(3) j(5,6) at(1) in auto)
  moreover have "(processes sv pjs)[Suc i := ?p pj'] = processes sv (pjs[i := pj'])" by (simp add: processes_def map_update)
  ultimately show ?thesis using assms(1) j(3,4) by (simp add: system_inv_def)
qed

lemma one_joins:
  assumes "\<forall>p\<in>set ps. up_to_date ev es w p" "apart ps" "up_to_date ev es w' (s, True, Some c)"
    "\<And>p d. p \<in> set ps \<Longrightarrow> snd p = (True, Some d) \<Longrightarrow> key d \<noteq> key c"
    "\<And>c2 rest. key c2 \<noteq> key c \<Longrightarrow> inflight (w, c2) [] rest \<Longrightarrow> inflight (w', c2) [] rest"
  shows "(\<forall>p\<in>set (ps @ [(s, True, Some c)]). up_to_date ev es w' p) \<and> apart (ps @ [(s, True, Some c)])"
proof
  have "up_to_date ev es w' p" if p: "p \<in> set ps" for p
  proof -
    obtain s1 active consumer where q: "p = (s1, active, consumer)" by (cases p) auto
    have "up_to_date ev es w p" using assms(1) p by blast
    moreover have "key d \<noteq> key c" if "active" "consumer = Some d" for d using assms(4) [OF p] q that by simp
    ultimately show ?thesis unfolding q up_to_date_def prod.case using assms(5) by blast
  qed
  then show "\<forall>p\<in>set (ps @ [(s, True, Some c)]). up_to_date ev es w' p" using assms(3) by auto
  show "apart (ps @ [(s, True, Some c)])"
    unfolding apart_def
  proof (intro allI impI)
    fix i j x y
    assume "i < length (ps @ [(s, True, Some c)]) \<and> j < length (ps @ [(s, True, Some c)]) \<and> i \<noteq> j \<and>
      snd ((ps @ [(s, True, Some c)]) ! i) = (True, Some x) \<and> snd ((ps @ [(s, True, Some c)]) ! j) = (True, Some y)"
    moreover have "key d \<noteq> key c" if "i < length ps" "snd (ps ! i) = (True, Some d)" for i d
      using assms(4) [OF nth_mem [OF that(1)] that(2)] .
    ultimately show "key x \<noteq> key y"
      using assms(2) unfolding apart_def by (auto simp: nth_append less_Suc_eq split: if_splits) metis+
  qed
qed

lemma quiet_Start:
  assumes "HubStateConsumerID (pj_serverID pj0) = Inr k" "OpenEvents pv opts k StartLatest w = (w1, Inr c)"
    "pv_CaughtUp pv (w1, c) = ((w1, c), Inr True)" "projection_Start pv opts None (Inr s) (pj0, w) = ((pj, w'), None)"
  shows "pj = pj0\<lparr>pj_snapshot := s, pj_consumer := Some c, pj_ready := True\<rparr> \<and> w' = w1"
  using assms by (auto simp: projection_Start_def startup_buffer_def startup_fail_def Let_def split: sum.splits prod.splits)

lemma served_whole_log:
  assumes "system_inv opts es w sv pjs" "serveSnapshot pv opts ctx ''GET'' (sv, w) = Some ((sv, w), reply)"
    "client_Snapshot cl (Inr reply) = Inr s" "so_EventsDestination opts \<noteq> so_SnapshotsDestination opts"
  shows "fold_events reducer_step EmptySnapshot es = Inr s"
proof -
  let ?ev = "so_EventsDestination opts"
  have ok: "rp_Status reply = 200" using assms(3) by (auto simp: client_Snapshot_def split: if_splits)
  then have "service_Ready sv" using assms(2) by (auto simp: serveSnapshot_def http_error_def split: if_splits)
  then have sv: "sv_consumerActive sv" "sv_initialized sv" "sv_validSnapshot sv" "sv_caughtUp sv" by (simp_all add: service_Ready_def)
  have inv: "good w" "\<forall>e\<in>set es. event_storable e" "length es < 2 ^ 63" "published opts (sent w) (sv_snapshot sv)"
    "up_to_date ?ev es w (sv_snapshot sv, sv_consumerActive sv, sv_consumer sv)"
    using assms(1) sv(1) by (simp_all add: system_inv_def processes_def)
  then obtain k c rest where k: "k \<le> length es" "fold_events reducer_step EmptySnapshot (take k es) = Inr (sv_snapshot sv)"
    "sv_consumer sv = Some c" "dest c = ?ev" "inflight (w, c) [] rest" "list_all2 holds_event rest (drop k es)"
    using sv(1) unfolding up_to_date_def prod.case by blast
  have d: "dest c \<noteq> so_SnapshotsDestination opts" "\<forall>e\<in>set (drop k es). event_storable e" using k(4) assms(4) inv(2) by (auto dest: in_set_dropD)
  obtain s' left where r: "replay (sv_snapshot sv) (drop k es) = (s', left)" by fastforce
  from serve_current [OF sv k(3,5,6) d(2) part_sound [OF inv(2,3) k(1,2)] inv(1) d(1) inv(4) r, of ctx] assms(2) ok
  have "left = []" "DecodeSnapshot (rp_Body reply) = Inr s'" by (auto split: if_splits)
  moreover have "s' = s" using calculation(2) assms(3) by (auto simp: client_Snapshot_def split: if_splits option.splits prod.splits)
  moreover have "fold_events reducer_step (sv_snapshot sv) (drop k es) = Inr s'" using replay_taken [OF r] calculation(1) by simp
  ultimately show ?thesis using fold_events_append [of reducer_step EmptySnapshot "take k es" "drop k es"] k(2) by simp
qed

lemma inv_join:
  assumes "system_inv opts es w sv pjs" "serveSnapshot pv opts ctx ''GET'' (sv, w) = Some ((sv, w), reply)"
    "client_Snapshot cl (Inr reply) = Inr s" "HubStateConsumerID (pj_serverID pj0) = Inr k"
    "OpenEvents pv opts k StartLatest w = (w1, Inr c)" "pv_CaughtUp pv (w1, c) = ((w1, c), Inr True)"
    "\<And>p d. p \<in> set (processes sv pjs) \<Longrightarrow> snd p = (True, Some d) \<Longrightarrow> key d \<noteq> key c"
    "projection_Start pv opts None (Inr s) (pj0, w) = ((pj, w'), None)"
    "so_EventsDestination opts \<noteq> so_SnapshotsDestination opts" "usable (so_EventsDestination opts)"
  shows "system_inv opts es w' sv (pjs @ [pj])"
proof -
  let ?ev = "so_EventsDestination opts"
  have inv: "good w" "\<forall>p\<in>set (processes sv pjs). up_to_date ?ev es w p" "apart (processes sv pjs)"
      "length (sent w ?ev) < 2 ^ 63"
    using assms(1) list_all2_lengthD [of _ "sent w ?ev" es] by (auto simp: system_inv_def)
  have pj: "pj = pj0\<lparr>pj_snapshot := s, pj_consumer := Some c, pj_ready := True\<rparr>" "w' = w1" using quiet_Start [OF assms(4-6,8)] by simp_all
  note j = join_acts [OF inv(1) assms(10) inv(4) refl assms(4-6) served_whole_log [OF assms(1-3,9)]]
  have "(\<forall>p\<in>set (processes sv pjs @ [(s, True, Some c)]). up_to_date ?ev es w1 p) \<and> apart (processes sv pjs @ [(s, True, Some c)])"
    by (rule one_joins [OF inv(2,3) conjunct1 [OF j] assms(7)]) (use j in auto)
  moreover have "processes sv (pjs @ [pj]) = processes sv pjs @ [(s, True, Some c)]" by (simp add: processes_def pj(1))
  ultimately show ?thesis using assms(1) j pj(2) by (simp add: system_inv_def)
qed

lemma inv_start:
  assumes "good w" "usable (so_EventsDestination opts)" "usable (so_SnapshotsDestination opts)" "validate_options opts = None"
    "sent w (so_EventsDestination opts) = []" "sent w (so_SnapshotsDestination opts) = []"
    "backlog w (so_EventsDestination opts) ConsolidatorConsumerID = []" "backlog w (so_SnapshotsDestination opts) snapshotConsumerID = []"
    "service_Start pv opts ctx (sv0, w) = Some ((sv, w'), err)"
  shows "system_inv opts [] w' sv [] \<and> service_Ready sv \<and>
    (\<exists>w2 c. OpenEvents pv opts ConsolidatorConsumerID StartEarliest w2 = (w2, Inr c) \<and> sv_consumer sv = Some c)"
proof -
  let ?ev = "so_EventsDestination opts" and ?sn = "so_SnapshotsDestination opts"
  have opts: "1 \<le> so_SnapshotLoadBatch opts" "?ev \<noteq> ?sn" using assms(4) by (auto simp: validate_options_def split: if_splits)
  obtain w1 where w1: "Initialize pv opts w = (w1, None)" "good w1" "sent w1 = sent w" "backlog w1 = backlog w"
    using Initialize_ok [OF assms(1-3)] by blast
  have "length (sent w1 ?sn) < 2 ^ 63" using w1(3) assms(6) by simp
  from LoadSnapshot_newest [OF w1(2) assms(3) opts(1) this] w1(4) assms(8) obtain w2 where
    w2: "LoadSnapshot pv opts w1 = Some (w2, Inr EmptySnapshot)" "sent w2 = sent w1" "good w2"
      "backlog w2 ?ev ConsolidatorConsumerID = backlog w ?ev ConsolidatorConsumerID"
    using assms(2) opts(2) by auto
  have "length (sent w2 ?ev) < 2 ^ 63" "ConsolidatorConsumerID \<noteq> []" using w1(3) w2(2) assms(5) by simp_all
  from open_earliest [OF w2(3) assms(2) this(2,1)] w2(4) assms(7) obtain c where
    c: "OpenEvents pv opts ConsolidatorConsumerID StartEarliest w2 = (w2, Inr c)" "dest c = ?ev" "inflight (w2, c) [] []"
    by (auto simp: OpenEvents_def)
  have sd: "sound 0 EmptySnapshot" by (simp add: EmptySnapshot_sound)
  obtain body where body: "EncodeSnapshot EmptySnapshot = Inr body" using sound_encodes [OF sd] by blast
  have d: "dest c \<noteq> ?sn" using c(2) opts(2) by simp
  obtain w3 where w3: "SaveSnapshot pv opts EmptySnapshot w2 = (w3, None)" "good w3" "published opts (sent w3) EmptySnapshot" "inflight (w3, c) [] []"
    using save_publishes [OF sd w2(3) c(3) d] by blast
  let ?sv = "\<lparr>sv_snapshot = EmptySnapshot, sv_consumer = Some c, sv_initialized = True, sv_consumerActive = True, sv_validSnapshot = True, sv_caughtUp = False\<rparr>"
  have "service_Start pv opts ctx (sv0, w) = Refresh pv opts ctx (?sv, w3)"
    using w1(1) w2(1) body c(1) w3(1) by (simp add: service_Start_def)
  also have "\<dots> = Some ((?sv\<lparr>sv_caughtUp := True\<rparr>, w3), None)"
    using caught_up [OF w3(4)] by (subst Refresh.simps) (simp add: consume_def)
  finally have st: "sv = ?sv\<lparr>sv_caughtUp := True\<rparr>" "w' = w3" using assms(9) by simp_all
  have "sent w3 ?ev = []" using SaveSnapshot_sent [OF w3(1) opts(2)] w2(2) w1(3) assms(5) by simp
  then show ?thesis
    using w3 c(1,2) by (auto simp: st system_inv_def processes_def up_to_date_def apart_def service_Ready_def)
qed

text \<open>What the invariant says of a process that has nothing left to read.\<close>

lemma caught_up_state:
  assumes "up_to_date ev es w (s, True, Some c)" "pv_CaughtUp pv (w, c) = ((w, c), Inr True)"
  shows "fold_events reducer_step EmptySnapshot es = Inr s"
proof -
  obtain k rest where k: "k \<le> length es" "fold_events reducer_step EmptySnapshot (take k es) = Inr s" "inflight (w, c) [] rest"
    "list_all2 holds_event rest (drop k es)" using assms(1) by (auto simp: up_to_date_def)
  have "drop k es = []" using caught_up [OF k(3)] assms(2) k(4) by simp
  then show ?thesis using k(1,2) by simp
qed

end

section \<open>The in-memory store is a shared log\<close>

lemma memory_inflight_at:
  assumes "stored s' = stored s" "position_of s' (mc_key c) = position_of s (mc_key c)"
  shows "memory_inflight (s', c) batch rest = memory_inflight (s, c) batch rest"
proof -
  have "received (s', c) = received (s, c)" using assms(1) by (simp add: received_def fun_eq_iff)
  with assms show ?thesis by (simp add: memory_inflight_def memory_inv_def memory_pend_def)
qed

lemma memory_Ack_effect:
  "memory_Ack () q x = (x', err) \<Longrightarrow>
   snd x' = snd x \<and> stored (fst x') = stored (fst x) \<and> (k \<noteq> mc_key (snd x) \<longrightarrow> position_of (fst x') k = position_of (fst x) k)"
  by (auto simp: memory_Ack_def position_of_def stored_def fun_eq_iff split: if_splits option.splits)

lemma memory_send_own:
  assumes "memory_inflight (w, c) batch rest" "Suc (length (stored w (memory_dest c))) < 2 ^ 63"
  shows "\<exists>q. memory_inflight (memory_Send w (memory_dest c) msg, c) batch (rest @ [\<lparr>rcv_Message = msg, rcv_Receipt = q\<rparr>])"
proof -
  let ?w = "memory_Send w (memory_dest c) msg" and ?n = "length (stored w (memory_dest c))"
  have inv: "memory_inv (w, c)" "memory_pend (w, c) = batch @ rest" using assms(1) by (simp_all add: memory_inflight_def)
  then have p: "nat (position (w, c)) \<le> ?n" by (auto simp: memory_inv_def memory_dest_def nat_le_iff)
  have same: "map (received (?w, c)) [nat (position (w, c)) ..< ?n] = memory_pend (w, c)"
    by (simp add: memory_pend_def received_def memory_dest_def nth_append)
  have "memory_pend (?w, c) = map (received (?w, c)) [nat (position (w, c)) ..< ?n] @ [received (?w, c) ?n]"
    using p by (simp add: memory_pend_def memory_dest_def)
  then have "memory_pend (?w, c) = batch @ rest @ [received (?w, c) ?n]" unfolding same inv(2) append_assoc .
  moreover have "received (?w, c) ?n = \<lparr>rcv_Message = msg, rcv_Receipt = rcv_Receipt (received (?w, c) ?n)\<rparr>"
    by (simp add: received_def memory_dest_def)
  ultimately have "memory_inflight (?w, c) batch (rest @ [\<lparr>rcv_Message = msg, rcv_Receipt = rcv_Receipt (received (?w, c) ?n)\<rparr>])"
    using assms inv(1) by (simp add: memory_inflight_def memory_inv_def memory_dest_def)
  then show ?thesis by blast
qed

lemma memory_open_latest:
  assumes "memory_good w" "memory_usable d" "k \<noteq> []" "length (stored w d) < 2 ^ 63"
    "memory_OpenConsumer w \<lparr>spec_ID = k, spec_Destination = d, spec_StartPosition = StartLatest, spec_Subscription = None\<rparr> = (w', Inr c)"
  shows "memory_good w'" "stored w' = stored w" "memory_dest c = d" "\<exists>rest. memory_inflight (w', c) [] rest"
    "mc_key c2 \<noteq> mc_key c \<Longrightarrow> memory_inflight (w, c2) batch rest \<Longrightarrow> memory_inflight (w', c2) batch rest"
proof -
  let ?k = "progress_key d k"
  have c: "c = \<lparr>mc_metadata = \<lparr>meta_ID = k, meta_Destination = d, meta_StartPosition = StartLatest\<rparr>, mc_key = ?k, mc_observed = position_of w' ?k, mc_closed = False\<rparr>"
    and w': "w' = (if mget (store_progress w) ?k = None then w\<lparr>store_progress := mput (store_progress w) ?k (int (length (stored w d)))\<rparr> else w)"
    using assms(2,3,5) by (auto simp: memory_OpenConsumer_def memory_usable_def Let_def)
  show st: "stored w' = stored w" by (simp add: w' stored_def fun_eq_iff)
  have pos: "position_of w' k2 = (if k2 = ?k \<and> mget (store_progress w) ?k = None then int (length (stored w d)) else position_of w k2)" for k2
    by (auto simp: w' position_of_def)
  show good: "memory_good w'"
    using assms(1) progress_key_inject [OF _ assms(2)] unfolding memory_good_def st pos by auto
  show dst: "memory_dest c = d" by (simp add: c memory_dest_def)
  show "\<exists>rest. memory_inflight (w', c) [] rest"
    using good assms(2,4) by (simp add: memory_inflight_def memory_inv_def memory_good_def memory_dest_def c st)
  show "memory_inflight (w', c2) batch rest" if "mc_key c2 \<noteq> mc_key c" "memory_inflight (w, c2) batch rest"
    using that pos [of "mc_key c2"] memory_inflight_at [OF st] by (simp add: c)
qed

interpretation memory_log: shared_log memory_provider memory_inflight memory_dest stored memory_backlog memory_good memory_usable mc_key
proof
  fix x x' :: memory and r
  show "pv_CaughtUp memory_provider x = (x', r) \<Longrightarrow> x' = x" by (simp add: memory_provider_def)
next
  fix x x' :: memory and n b
  show "pv_Receive memory_provider n x = (x', b) \<Longrightarrow> fst x' = fst x \<and> mc_key (snd x') = mc_key (snd x)"
    by (auto simp: memory_provider_def memory_Receive_def Let_def split: if_splits)
next
  fix x x' :: memory and q err
  show "pv_Ack memory_provider q x = (x', err) \<Longrightarrow> mc_key (snd x') = mc_key (snd x) \<and> stored (fst x') = stored (fst x)"
    using memory_Ack_effect [of q x x' err] by (simp add: memory_provider_def)
next
  fix w w' :: Store and c c' c2 :: memory_consumer and q err batch rest
  assume "pv_Ack memory_provider q (w, c) = ((w', c'), err)" "mc_key c2 \<noteq> mc_key c" "memory_inflight (w, c2) batch rest"
  then show "memory_inflight (w', c2) batch rest"
    using memory_Ack_effect [of q "(w, c)" "(w', c')" err "mc_key c2"] memory_inflight_at [of w' w c2 batch rest] by (simp add: memory_provider_def)
next
  fix w w' :: Store and c :: memory_consumer and d msg err batch rest
  assume "pv_Send memory_provider d msg w = (w', err)" "memory_inflight (w, c) batch rest" "d \<noteq> memory_dest c"
  then show "memory_inflight (w', c) batch rest" using memory_inflight_Send by (auto simp: memory_provider_def)
next
  fix w w' :: Store and d d' msg err
  show "pv_Send memory_provider d msg w = (w', err) \<Longrightarrow> d' \<noteq> d \<Longrightarrow> stored w' d' = stored w d'" by (auto simp: memory_provider_def)
next
  fix w w' :: Store and c :: memory_consumer and msg batch rest
  assume "memory_inflight (w, c) batch rest" "pv_Send memory_provider (memory_dest c) msg w = (w', None)" "Suc (length (stored w (memory_dest c))) < 2 ^ 63"
  then show "\<exists>q. memory_inflight (w', c) batch (rest @ [\<lparr>rcv_Message = msg, rcv_Receipt = q\<rparr>])"
    using memory_send_own [of w c batch rest msg] by (auto simp: memory_provider_def)
next
  fix w w' :: Store and c :: memory_consumer and d k
  assume "memory_good w" "memory_usable d" "k \<noteq> []" "length (stored w d) < 2 ^ 63"
    "pv_OpenConsumer memory_provider \<lparr>spec_ID = k, spec_Destination = d, spec_StartPosition = StartLatest, spec_Subscription = None\<rparr> w = (w', Inr c)"
  note o = memory_open_latest [OF this(1-4) this(5) [unfolded memory_provider_def provider.simps]]
  show "memory_good w' \<and> stored w' = stored w \<and> memory_dest c = d \<and> (\<exists>rest. memory_inflight (w', c) [] rest) \<and>
      (\<forall>c2 batch rest. mc_key c2 \<noteq> mc_key c \<and> memory_inflight (w, c2) batch rest \<longrightarrow> memory_inflight (w', c2) batch rest)"
    using o by blast
qed

section \<open>Any interleaving\<close>

text \<open>The state of a system: the store, the consolidator and the hubs' projections. A hub joins with the snapshot that
  the consolidator serves, under a consumer identifier of its own, while nothing is appended. A request for the snapshot
  that finds events to read takes the steps of \<open>consolidates\<close> first.\<close>

type_synonym system = "Store \<times> memory_consumer Service \<times> memory_consumer Projection list"

inductive system_step :: "system \<Rightarrow> system \<Rightarrow> bool" where
  appends: "Append memory_provider DefaultOptions (Some e) w = (w', None) \<Longrightarrow> event_storable e \<Longrightarrow>
     Suc (length (stored w StateEventsDestination)) < 2 ^ 63 \<Longrightarrow> system_step (w, sv, pjs) (w', sv, pjs)"
| consolidates: "consume memory_provider DefaultOptions ctx n (sv, w) = ((sv', w'), res) \<Longrightarrow> 1 \<le> n \<Longrightarrow>
     system_step (w, sv, pjs) (w', sv', pjs)"
| follows: "i < length pjs \<Longrightarrow> projection_Consume memory_provider n (pjs ! i, w) = ((pj', w'), res) \<Longrightarrow> 1 \<le> n \<Longrightarrow>
     system_step (w, sv, pjs) (w', sv, pjs[i := pj'])"
| joins: "serveSnapshot memory_provider DefaultOptions ctx ''GET'' (sv, w) = Some ((sv, w), reply) \<Longrightarrow>
     client_Snapshot cl (Inr reply) = Inr s \<Longrightarrow> HubStateConsumerID (pj_serverID pj0) = Inr k \<Longrightarrow>
     OpenEvents memory_provider DefaultOptions k StartLatest w = (w1, Inr c) \<Longrightarrow> memory_CaughtUp (w1, c) = Inr True \<Longrightarrow>
     \<forall>p\<in>set (processes sv pjs). \<forall>d. snd p = (True, Some d) \<longrightarrow> mc_key d \<noteq> mc_key c \<Longrightarrow>
     projection_Start memory_provider DefaultOptions None (Inr s) (pj0, w) = ((pj, w'), None) \<Longrightarrow>
     system_step (w, sv, pjs) (w', sv, pjs @ [pj])"

inductive reachable_system :: "system \<Rightarrow> bool" where
  starts: "service_Start memory_provider DefaultOptions ctx (consolidator_New, memory_New caps) = Some ((sv, w), err) \<Longrightarrow>
     reachable_system (w, sv, [])"
| steps: "reachable_system st \<Longrightarrow> system_step st st' \<Longrightarrow> reachable_system st'"

lemma memory_caught_up: "memory_CaughtUp x = Inr b \<Longrightarrow> pv_CaughtUp memory_provider x = (x, Inr b)"
  by (simp add: memory_provider_def)

lemma default_apart: "so_EventsDestination DefaultOptions \<noteq> so_SnapshotsDestination DefaultOptions"
  by (simp add: DefaultOptions_def)

lemma new_system:
  assumes "service_Start memory_provider DefaultOptions ctx (consolidator_New, memory_New caps) = Some ((sv, w), err)"
  shows "memory_log.system_inv DefaultOptions [] w sv [] \<and> service_Ready sv \<and>
    (\<exists>c. sv_consumer sv = Some c \<and> mc_key c = progress_key StateEventsDestination ConsolidatorConsumerID)"
proof -
  have "OpenEvents memory_provider DefaultOptions k StartEarliest w2 = (w2, Inr c) \<Longrightarrow> mc_key c = progress_key StateEventsDestination k" for k w2 c
    by (auto simp: OpenEvents_def memory_provider_def memory_OpenConsumer_def DefaultOptions_def Let_def split: if_splits)
  then show ?thesis
    using memory_log.inv_start [OF memory_New_good(1) default_options(3,2,1) _ _ _ _ assms] memory_New_good(2)
    unfolding memory_backlog_def by simp blast
qed

lemma system_step_inv:
  assumes "system_step st st'" "case st of (w, sv, pjs) \<Rightarrow> \<exists>es. memory_log.system_inv DefaultOptions es w sv pjs"
  shows "case st' of (w, sv, pjs) \<Rightarrow> \<exists>es. memory_log.system_inv DefaultOptions es w sv pjs"
  using assms
proof cases
  case (appends e w w' sv pjs)
  moreover obtain es where "memory_log.system_inv DefaultOptions es w sv pjs" using assms(2) appends(1) by auto
  moreover have "so_EventsDestination DefaultOptions = StateEventsDestination" by (simp add: DefaultOptions_def)
  ultimately show ?thesis using memory_log.inv_append [of DefaultOptions es w sv pjs e w'] default_apart by auto
next
  case (consolidates ctx n sv w sv' w' res pjs)
  then show ?thesis using memory_log.inv_consolidate [OF _ consolidates(3,4) default_apart] assms(2) by auto
next
  case (follows i pjs n w pj' w' res sv)
  then show ?thesis using memory_log.inv_follow [OF _ follows(3-5)] assms(2) by auto
next
  case (joins ctx sv w reply cl s pj0 k w1 c pjs pj w')
  obtain es where "memory_log.system_inv DefaultOptions es w sv pjs" using assms(2) joins(1) by auto
  from memory_log.inv_join [OF this joins(3-6) memory_caught_up [OF joins(7)] _ joins(9) default_apart default_options(3)] joins(8)
  show ?thesis unfolding joins(2) prod.case by blast
qed

lemma reachable_system_inv:
  "reachable_system st \<Longrightarrow> case st of (w, sv, pjs) \<Rightarrow> \<exists>es. memory_log.system_inv DefaultOptions es w sv pjs"
proof (induction rule: reachable_system.induct)
  case (starts ctx caps sv w err)
  then show ?case using new_system [OF starts] unfolding prod.case by blast
qed (rule system_step_inv)

section \<open>Properties\<close>


text \<open>A consolidator on a new store, and a hub that joins it.\<close>

lemma new_consolidator:
  obtains sv w c where "reachable_system (w, sv, [])" "service_Ready sv" "sv_consumer sv = Some c" "memory_inflight (w, c) [] []"
    "memory_log.system_inv DefaultOptions [] w sv []" "mc_key c = progress_key StateEventsDestination ConsolidatorConsumerID"
proof -
  let ?w = "memory_New \<lparr>Provider = ''memory'', Statuses = None\<rparr>"
  have b: "memory_backlog ?w d k = []" for d k by (simp add: memory_backlog_def memory_New_good(2))
  have len: "length (stored ?w d) < 2 ^ 63" for d by (simp add: memory_New_good(2))
  have "newest EmptySnapshot (map rcv_Message (memory_backlog ?w (so_SnapshotsDestination DefaultOptions) snapshotConsumerID)) = Inr EmptySnapshot"
    "list_all2 holds_event (memory_backlog ?w (so_EventsDestination DefaultOptions) ConsolidatorConsumerID) []" by (simp_all add: b)
  from memory_replay.Start_replay [OF memory_New_good(1) default_options(3,2,1) len len this, of EmptySnapshot "[]" None consolidator_New]
  have "\<exists>sv w err. service_Start memory_provider DefaultOptions None (consolidator_New, ?w) = Some ((sv, w), err)"
    using EmptySnapshot_sound [of 0] by auto
  then obtain sv w err where st: "service_Start memory_provider DefaultOptions None (consolidator_New, ?w) = Some ((sv, w), err)" by blast
  note n = new_system [OF st]
  then obtain c where "sv_consumer sv = Some c" "memory_inflight (w, c) [] []" "mc_key c = progress_key StateEventsDestination ConsolidatorConsumerID"
    by (auto simp: memory_log.system_inv_def processes_def memory_log.up_to_date_def service_Ready_def DefaultOptions_def)
  with that starts [OF st] n show thesis by blast
qed

lemma idle_snapshot:
  assumes "service_Ready sv" "sv_consumer sv = Some c" "memory_inflight (w, c) [] []" "memory_log.system_inv DefaultOptions [] w sv []"
  shows "\<exists>reply cl. serveSnapshot memory_provider DefaultOptions None ''GET'' (sv, w) = Some ((sv, w), reply) \<and>
    client_Snapshot cl (Inr reply) = Inr EmptySnapshot"
proof -
  have sv: "sv_consumerActive sv" "sv_initialized sv" "sv_validSnapshot sv" "sv_caughtUp sv" using assms(1) by (simp_all add: service_Ready_def)
  have s: "sv_snapshot sv = EmptySnapshot" using assms(4) by (auto simp: memory_log.system_inv_def processes_def memory_log.up_to_date_def)
  have "Refresh memory_provider DefaultOptions None (sv, w) = Some ((sv, w), None)"
    using sv(1,4) assms(2) memory_replay.caught_up [OF assms(3)] by (subst Refresh.simps) (simp add: consume_def)
  moreover obtain body where b: "EncodeSnapshot EmptySnapshot = Inr body" "DecodeSnapshot body = Inr EmptySnapshot"
    using storable_encodes [of EmptySnapshot] DecodeSnapshot_roundtrip [of EmptySnapshot] EmptySnapshot_sound [of 0]
    by (auto simp: sound_def hub_invariant_def)
  moreover have "service_Snapshot sv = EmptySnapshot" using s b by (simp add: service_Snapshot_def)
  ultimately have r: "serveSnapshot memory_provider DefaultOptions None ''GET'' (sv, w) = Some ((sv, w),
      \<lparr>rp_Status = 200, rp_ContentType = SnapshotContentType, rp_Revision = Itoa (unat (snap_Revision EmptySnapshot)), rp_Body = body\<rparr>)"
    using assms(1) by (simp add: serveSnapshot_def)
  obtain ps where "ParseMediaType SnapshotContentType = Some (''application/vnd.websubhub.state-snapshot+json'', ps)"
    using SnapshotContentType_parses by blast
  then have "client_Snapshot \<lparr>cl_endpoint = ''http://c'', cl_maxBytes = int (length body)\<rparr> (Inr
      \<lparr>rp_Status = 200, rp_ContentType = SnapshotContentType, rp_Revision = Itoa (unat (snap_Revision EmptySnapshot)), rp_Body = body\<rparr>) = Inr EmptySnapshot"
    using b(2) by (simp add: client_Snapshot_def)
  with r show ?thesis by blast
qed


end
