(* ===== verification/Processes.thy ===== *)
theory Processes
  imports Hub_Runtime Transport Resource_Hub Ingest Secrets Callback_Policy Kafka_Admin
begin

text \<open>
  The two processes as a whole (\<open>RunHub\<close> and \<open>RunConsolidator\<close> of \<open>internal/app/runtime\<close>): the order in which
  the components are built, what is closed when, and the error a process ends with. What code outside the repository
  answers is in the record \<open>boot\<close>. The record of what was opened and closed is part of the result.
\<close>

section \<open>Opening and closing\<close>

datatype part = ProducerPart | AdministratorPart | ServicePart | ProjectionPart | ProtocolPart | ManagerPart

datatype lifecycle = Opened part | Closed part

text \<open>\<open>errors.Join\<close>: nil errors are left out, and nil is the result when none is left.\<close>

definition errors_Join :: "goerr option list \<Rightarrow> goerr option" where
  "errors_Join errs =
     (case filter (\<lambda>e. e \<noteq> None) errs of [] \<Rightarrow> None | es \<Rightarrow> Some (Joined (map the es)))"

text \<open>\<open>kgo\<close> is what \<open>kgo.NewClient\<close> answers for the options made of a configuration.\<close>

definition NewProducer :: "(Config \<Rightarrow> goerr option) \<Rightarrow> Config \<Rightarrow> Producer result" where
  "NewProducer kgo config =
     (case config_validate config of
        Some err \<Rightarrow> Inl err
      | None \<Rightarrow> (case kgo (config_normalized config) of Some err \<Rightarrow> Inl err | None \<Rightarrow> Inr \<lparr>prod_closed = False\<rparr>))"

definition NewAdministrator :: "(Config \<Rightarrow> goerr option) \<Rightarrow> Config \<Rightarrow> Administrator result" where
  "NewAdministrator kgo config =
     (case config_validate config of
        Some err \<Rightarrow> Inl err
      | None \<Rightarrow>
          let config = config_normalized config in
          (case kgo config of
             Some err \<Rightarrow> Inl err
           | None \<Rightarrow> (case NewProducer kgo config of Inl err \<Rightarrow> Inl err | Inr _ \<Rightarrow> Inr \<lparr>adm_config = config, adm_closed = False\<rparr>)))"

text \<open>The start both processes share, and the deferred call that closes the administrator and then the producer;
  their \<open>Close\<close> answers nil.\<close>

definition with_kafka ::
  "(Config \<Rightarrow> goerr option) \<Rightarrow> Config \<Rightarrow> (lifecycle list \<times> goerr option) option \<Rightarrow> (lifecycle list \<times> goerr option) option" where
  "with_kafka kgo kafka body =
     (case NewProducer kgo kafka of
        Inl err \<Rightarrow> Some ([], Some (Wrap ''open Kafka producer'' err))
      | Inr _ \<Rightarrow>
          (case NewAdministrator kgo kafka of
             Inl err \<Rightarrow> Some ([Opened ProducerPart, Closed ProducerPart], Some (Wrap ''open Kafka administrator'' err))
           | Inr _ \<Rightarrow>
               map_option (\<lambda>(tr, res).
                 ([Opened ProducerPart, Opened AdministratorPart] @ tr @ [Closed AdministratorPart, Closed ProducerPart],
                  errors_Join [res, None, None])) body))"

section \<open>Running\<close>

text \<open>What ends the wait of a process first: its own context, a server, or the state loop, which cancels the run with
  its error unless the run was cancelled before.\<close>

datatype ending = LoopFailed goerr | ParentDone goerr | ServerStopped "goerr option"

definition ending_of :: "goerr option \<Rightarrow> bool \<Rightarrow> ending \<Rightarrow> ending" where
  "ending_of loop alive other =
     (case loop of Some err \<Rightarrow> if alive then LoopFailed err else other | None \<Rightarrow> other)"

definition run_result :: "goerr option \<Rightarrow> duration \<Rightarrow> bool list \<Rightarrow> goerr list \<Rightarrow> ending \<Rightarrow> goerr option" where
  "run_result parent timeout servers shutdownErrors e =
     (let first = (case e of LoopFailed _ \<Rightarrow> ContextDone Canceled | ParentDone err \<Rightarrow> ContextDone err | ServerStopped r \<Rightarrow> ServerReturned r);
          serverErr = http_Run True timeout servers first shutdownErrors;
          cause = (case e of LoopFailed err \<Rightarrow> err | ParentDone err \<Rightarrow> err | ServerStopped _ \<Rightarrow> serverErr)
      in runtimeResult parent (Some cause) (Some serverErr))"

record ('w, 'c, 'cert, 'pool) boot =
  bt_ctx :: bool
  bt_logger :: bool
  bt_files :: "('cert, 'pool) tls_files"
  bt_kgo :: "Config \<Rightarrow> goerr option"
  bt_provider :: "('w, 'c) provider"
  bt_startErr :: "goerr option"
  bt_running :: bool
  bt_other :: ending
  bt_parent :: "goerr option"
  bt_shutdown :: "goerr list"

section \<open>The consolidator\<close>

definition consolidator_options :: "ConsolidatorConfig \<Rightarrow> StateOptions" where
  "consolidator_options cfg = (let s = con_State cfg in
     \<lparr>so_EventsDestination = sd_Destination (cst_Events s), so_SnapshotsDestination = sd_Destination (Snapshots s),
      so_EventsRetention = sd_Retention (cst_Events s), so_SnapshotsRetention = sd_Retention (Snapshots s),
      so_SnapshotLoadBatch = sc_BatchSize (cst_Consumer s)\<rparr>)"

definition consolidator_serve ::
  "('w, 'c, 'cert, 'pool) boot \<Rightarrow> poll list \<Rightarrow> ConsolidatorConfig \<Rightarrow> ('w, 'c) running \<Rightarrow> ('w, 'c) running \<times> goerr option" where
  "consolidator_serve b polls cfg st =
     (case mtls_Server (bt_files b) (sa_Mode (cs_Auth (con_Server cfg))) (sa_MTLS (cs_Auth (con_Server cfg))) of
        Inl err \<Rightarrow> (st, Some err)
      | Inr _ \<Rightarrow>
          (case consumeConsolidator (bt_provider b) (consolidator_options cfg) (sc_BatchSize (cst_Consumer (con_State cfg))) polls st of
             (st, loop) \<Rightarrow>
               (st, run_result (bt_parent b) (cs_ShutdownTimeout (con_Server cfg)) [True] (bt_shutdown b)
                 (ending_of loop (bt_running b) (bt_other b)))))"

text \<open>When \<open>Start\<close> fails after it opened its consumer, nothing closes that.\<close>

definition consolidator_body ::
  "('w, 'c, 'cert, 'pool) boot \<Rightarrow> poll list \<Rightarrow> ConsolidatorConfig \<Rightarrow> 'w \<Rightarrow> (lifecycle list \<times> goerr option) option" where
  "consolidator_body b polls cfg w =
     (let pv = bt_provider b; opts = consolidator_options cfg in
      case statestore_New (Some pv) opts of
        Inl err \<Rightarrow> Some ([], Some err)
      | Inr _ \<Rightarrow>
          map_option (\<lambda>((sv, w), err).
            case err of
              Some e \<Rightarrow> (if sv_consumer sv = None then [] else [Opened ServicePart], Some e)
            | None \<Rightarrow>
                (case consolidator_serve b polls cfg (sv, w) of
                   (st, res) \<Rightarrow>
                     (case service_Close pv st of
                        (_, closeErr) \<Rightarrow> ([Opened ServicePart, Closed ServicePart], errors_Join [res, closeErr]))))
            (service_Start pv opts (bt_startErr b) (consolidator_New, w)))"

definition RunConsolidator ::
  "('w, 'c, 'cert, 'pool) boot \<Rightarrow> poll list \<Rightarrow> ConsolidatorConfig \<Rightarrow> 'w \<Rightarrow> (lifecycle list \<times> goerr option) option" where
  "RunConsolidator b polls cfg w =
     (if \<not> bt_ctx b then Some ([], Some (Error ''context is required''))
      else if \<not> bt_logger b then Some ([], Some (Error ''logger is required''))
      else case ConsolidatorConfig_Validate cfg of
          Some err \<Rightarrow> Some ([], Some err)
        | None \<Rightarrow>
            (case provider_Kafka (bt_files b) (con_MessageStore cfg) of
               Inl err \<Rightarrow> Some ([], Some err)
             | Inr (kafka, _) \<Rightarrow> with_kafka (bt_kgo b) kafka (consolidator_body b polls cfg w)))"

section \<open>The hub\<close>

text \<open>What the hub meets beyond that: the replies of the consolidator, the libraries, the random source, what the protocol
  handler's and the workers' ends answer, and the turns of its loop.\<close>

record ('w, 'c, 'cert, 'pool, 'alg, 'key, 'set, 'h) hub_boot = "('w, 'c, 'cert, 'pool) boot" +
  hb_ready :: "http_reply result"
  hb_snapshot :: "http_reply result"
  hb_jwx :: "('alg, 'key, 'set) jwx"
  hb_newGCM :: "string \<Rightarrow> aead result"
  hb_send :: "Destination \<Rightarrow> Message \<Rightarrow> goerr option"
  hb_random :: "string result"
  hb_NewHandler :: "websub_config \<Rightarrow> 'h result"
  hb_protocolClose :: "goerr option"
  hb_interrupted :: "string \<Rightarrow> goerr option"
  hb_first :: turn
  hb_turns :: "turn list"

definition management_New :: "bool \<Rightarrow> goerr option" where
  "management_New given = (if \<not> given then Some (Error ''canonical snapshot source is required'') else None)"

definition admin_New :: "bool \<Rightarrow> bool \<Rightarrow> bool \<Rightarrow> bool \<Rightarrow> bool \<Rightarrow> goerr option" where
  "admin_New authentication readiness projection capabilities1 queries =
     (if \<not> authentication \<or> \<not> readiness \<or> \<not> projection \<or> \<not> capabilities1 \<or> \<not> queries
      then Some (Error ''authentication, readiness, projection, capabilities, and management queries are required'')
      else None)"

definition hub_serve ::
  "('w, 'c, 'cert, 'pool, 'alg, 'key, 'set, 'h) hub_boot \<Rightarrow> HubConfig \<Rightarrow> ('w, 'c) hub_run \<Rightarrow> ('w, 'c) hub_run \<times> goerr option" where
  "hub_serve b cfg st =
     (let pv = bt_provider b; factory = Factory_New (hub_Delivery cfg) in
      case reconcileHub pv factory (hb_first b) (projection_Snapshot (hr_projection st)) (DLQDestination (hub_Delivery cfg)) (hr_world st, hr_manager st) of
        ((w, m), Some err) \<Rightarrow> (st\<lparr>hr_world := w, hr_manager := m\<rparr>, Some err)
      | ((w, m), None) \<Rightarrow>
          let st = st\<lparr>hr_world := w, hr_manager := m\<rparr> in
          (case management_New True of
             Some err \<Rightarrow> (st, Some err)
           | None \<Rightarrow>
               (case admin_New True True True True True of
                  Some err \<Rightarrow> (st, Some err)
                | None \<Rightarrow>
                    (case publicMux (PublicURL (hub_Server cfg)) of
                       Inl err \<Rightarrow> (st, Some err)
                     | Inr _ \<Rightarrow>
                         (case consumeHub pv factory cfg (hb_turns b) st of
                            (st, loop) \<Rightarrow>
                              (st, run_result (bt_parent b)
                                 (if srv_ShutdownTimeout (hub_Server cfg) < op_ShutdownTimeout (Operations cfg)
                                  then op_ShutdownTimeout (Operations cfg) else srv_ShutdownTimeout (hub_Server cfg))
                                 [True, True] (bt_shutdown b) (ending_of loop (bt_running b) (bt_other b))))))))"

definition hub_managed ::
  "('w, 'c, 'cert, 'pool, 'alg, 'key, 'set, 'h) hub_boot \<Rightarrow> HubConfig \<Rightarrow> 'c Projection \<times> 'w \<Rightarrow>
   ('c Projection \<times> 'w) \<times> lifecycle list \<times> goerr option" where
  "hub_managed b cfg = (\<lambda>(pj, w).
     case NewManager (srv_ID (hub_Server cfg)) of
       Inl err \<Rightarrow> ((pj, w), [], Some err)
     | Inr m \<Rightarrow>
         (case hub_serve b cfg \<lparr>hr_projection = pj, hr_world = w, hr_manager = m, hr_lastRevision = 0\<rparr> of
            (st, res) \<Rightarrow>
              (case Manager_Close (hb_interrupted b) (sorted_list_of_fset (fmdom (mgr_workers (hr_manager st)))) (hr_manager st) of
                 (_, closeErr) \<Rightarrow> ((hr_projection st, hr_world st), [Opened ManagerPart, Closed ManagerPart], errors_Join [res, closeErr]))))"

definition hub_protocol ::
  "('w, 'c, 'cert, 'pool, 'alg, 'key, 'set, 'h) hub_boot \<Rightarrow> HubConfig \<Rightarrow> 'c Projection \<times> 'w \<Rightarrow>
   ('c Projection \<times> 'w) \<times> lifecycle list \<times> goerr option" where
  "hub_protocol b cfg st =
     (case policy_FromConfig (Callbacks (hub_Security cfg)) of
        Inl err \<Rightarrow> (st, [], Some err)
      | Inr _ \<Rightarrow>
          (case OpenFile (hb_newGCM b) (tf_ReadFile (bt_files b)) (KeyFile (Configuration.Secrets (hub_Security cfg))) (KeyID (Configuration.Secrets (hub_Security cfg))) of
             Inl err \<Rightarrow> (st, [], Some err)
           | Inr _ \<Rightarrow>
               (case listenerAuthentications (hb_jwx b) cfg of
                  Inl err \<Rightarrow> (st, [], Some err)
                | Inr _ \<Rightarrow>
                    (case ingest_New True (projection_Snapshot (fst st)) (hb_send b) None (hb_random b) of
                       Inl err \<Rightarrow> (st, [], Some err)
                     | Inr _ \<Rightarrow>
                         (case handler_New True cfg (hb_NewHandler b) of
                            Inl err \<Rightarrow> (st, [], Some err)
                          | Inr _ \<Rightarrow>
                              (case hub_managed b cfg st of
                                 (st, tr, res) \<Rightarrow> (st, [Opened ProtocolPart] @ tr @ [Closed ProtocolPart], errors_Join [res, hb_protocolClose b])))))))"

definition hub_body ::
  "('w, 'c, 'cert, 'pool, 'alg, 'key, 'set, 'h) hub_boot \<Rightarrow> HubConfig \<Rightarrow> 'w \<Rightarrow> lifecycle list \<times> goerr option" where
  "hub_body b cfg w =
     (let pv = bt_provider b; opts = DefaultOptions\<lparr>so_EventsDestination := hse_Destination (hs_Events (hub_State cfg))\<rparr> in
      case statestore_New (Some pv) opts of
        Inl err \<Rightarrow> ([], Some err)
      | Inr _ \<Rightarrow>
          (case mtls_Client (bt_files b) (ca_Mode (cc_Auth (Consolidator cfg))) (ca_MTLS (cc_Auth (Consolidator cfg))) of
             Inl err \<Rightarrow> ([], Some err)
           | Inr _ \<Rightarrow>
               (case Consolidator.NewClient (Endpoint (Consolidator cfg)) True 0 of
                  Inl err \<Rightarrow> ([], Some err)
                | Inr cl \<Rightarrow>
                    (case projection_New True (srv_ID (hub_Server cfg)) (BufferMax (Startup (hub_State cfg))) of
                       Inl err \<Rightarrow> ([], Some err)
                     | Inr pj \<Rightarrow>
                         (case projection_Start pv opts (client_Ready (hb_ready b)) (client_Snapshot cl (hb_snapshot b)) (pj, w) of
                            (_, Some err) \<Rightarrow> ([], Some err)
                          | (st, None) \<Rightarrow>
                              (case hub_protocol b cfg st of
                                 (st, tr, res) \<Rightarrow>
                                   (case projection_Close pv st of
                                      (_, closeErr) \<Rightarrow> ([Opened ProjectionPart] @ tr @ [Closed ProjectionPart], errors_Join [res, closeErr]))))))))"

definition RunHub ::
  "('w, 'c, 'cert, 'pool, 'alg, 'key, 'set, 'h) hub_boot \<Rightarrow> HubConfig \<Rightarrow> 'w \<Rightarrow> lifecycle list \<times> goerr option" where
  "RunHub b cfg w =
     (if \<not> bt_ctx b then ([], Some (Error ''context is required''))
      else if \<not> bt_logger b then ([], Some (Error ''logger is required''))
      else case HubConfig_Validate cfg of
          Some err \<Rightarrow> ([], Some err)
        | None \<Rightarrow>
            (case provider_Kafka (bt_files b) (hub_MessageStore cfg) of
               Inl err \<Rightarrow> ([], Some err)
             | Inr (kafka, _) \<Rightarrow> the (with_kafka (bt_kgo b) kafka (Some (hub_body b cfg w)))))"

section \<open>What is opened is closed\<close>

text \<open>The parts that are open after a record of openings and closings, the last one first; \<^const>\<open>None\<close> when one is closed out
  of order or without being open.\<close>

fun still_open :: "part list \<Rightarrow> lifecycle list \<Rightarrow> part list option" where
  "still_open ps [] = Some ps"
| "still_open ps (Opened p # tr) = still_open (p # ps) tr"
| "still_open ps (Closed p # tr) = (case ps of q # qs \<Rightarrow> if p = q then still_open qs tr else None | [] \<Rightarrow> None)"

lemma still_open_append: "still_open ps (xs @ ys) = Option.bind (still_open ps xs) (\<lambda>qs. still_open qs ys)"
  by (induction ps xs rule: still_open.induct) (auto split: list.splits)

definition closes :: "lifecycle list \<Rightarrow> bool" where
  "closes tr \<longleftrightarrow> (\<forall>ps. still_open ps tr = Some ps)"

lemma closes_Nil [simp]: "closes []"
  by (simp add: closes_def)

lemma closes_within: "closes tr \<Longrightarrow> closes (Opened p # tr @ [Closed p])"
  by (simp add: closes_def still_open_append)

lemma hub_managed_closes: "hub_managed b cfg st = (st', tr, res) \<Longrightarrow> closes tr"
  using closes_within [OF closes_Nil] by (auto simp: hub_managed_def split: sum.splits prod.splits)

lemma hub_protocol_closes: "hub_protocol b cfg st = (st', tr, res) \<Longrightarrow> closes tr"
  using hub_managed_closes closes_within by (fastforce simp: hub_protocol_def split: sum.splits prod.splits)

lemma hub_body_closes: "closes (fst (hub_body b cfg w))"
  using hub_protocol_closes closes_within
  by (fastforce simp: hub_body_def Let_def split: sum.splits prod.splits option.splits)

lemma with_kafka_closes:
  assumes "with_kafka kgo kafka body = Some (tr, res)" "\<And>tr1 res1. body = Some (tr1, res1) \<Longrightarrow> closes tr1"
  shows "closes tr"
proof -
  have "closes (Opened ProducerPart # (Opened AdministratorPart # tr1 @ [Closed AdministratorPart]) @ [Closed ProducerPart])" if "closes tr1" for tr1
    using that closes_within by blast
  then show ?thesis using assms closes_within [OF closes_Nil] by (auto simp: with_kafka_def split: sum.splits)
qed

lemma with_kafka_total: "\<exists>x. with_kafka kgo kafka (Some y) = Some x"
  by (simp add: with_kafka_def split: sum.splits)

lemma RunHub_closes: "closes (fst (RunHub b cfg w))"
proof (cases "HubConfig_Validate cfg")
  case None
  show ?thesis
  proof (cases "provider_Kafka (bt_files b) (hub_MessageStore cfg)")
    case (Inr r)
    obtain kafka rest where r: "r = (kafka, rest)" by (cases r)
    obtain tr res where k: "with_kafka (bt_kgo b) kafka (Some (hub_body b cfg w)) = Some (tr, res)"
      using with_kafka_total [of "bt_kgo b" kafka "hub_body b cfg w"] by auto
    have "closes tr" by (rule with_kafka_closes [OF k]) (use hub_body_closes [of b cfg w] in auto)
    then show ?thesis using None Inr r k by (simp add: RunHub_def)
  qed (use None in \<open>simp add: RunHub_def\<close>)
qed (simp add: RunHub_def)

lemma RunConsolidator_closes:
  assumes "RunConsolidator b polls cfg w = Some (tr, res)"
    "\<And>sv w1 err. service_Start (bt_provider b) (consolidator_options cfg) (bt_startErr b) (consolidator_New, w) = Some ((sv, w1), Some err) \<Longrightarrow>
       sv_consumer sv = None"
  shows "closes tr"
proof -
  have body: "closes tr1" if "consolidator_body b polls cfg w = Some (tr1, res1)" for tr1 res1
    using that assms(2) closes_within [OF closes_Nil, of ServicePart]
    by (auto simp: consolidator_body_def Let_def split: sum.splits option.splits prod.splits if_splits)
  then show ?thesis
    using assms(1) with_kafka_closes [OF _ body]
    by (auto simp: RunConsolidator_def split: if_splits option.splits sum.splits)
qed


section \<open>What validation promises the components\<close>

lemma ToLower_Nil: "ToLower s = [] \<longleftrightarrow> s = []"
  by (induction s rule: ToLower.induct) auto

lemma lower_char_bad: "lower_char c \<in> set ''/:@[]'' \<longleftrightarrow> c \<in> set ''/:@[]''"
proof -
  have "byte (lower_char c) = (if 65 \<le> byte c \<and> byte c \<le> 90 then byte c + 32 else byte c)"
    by (simp add: lower_char_def byte_def)
  moreover have "x \<in> set ''/:@[]'' \<longleftrightarrow> byte x \<in> {47, 58, 64, 91, 93}" for x
  proof -
    have eq: "x = y \<longleftrightarrow> byte x = byte y" for y by (simp add: byte_def)
    have "byte CHR ''/'' = 47" "byte CHR '':'' = 58" "byte CHR ''@'' = 64" "byte CHR ''['' = 91" "byte CHR '']'' = 93" by (simp_all add: byte_def)
    then show ?thesis by (simp add: eq)
  qed
  ultimately show ?thesis by auto
qed

lemma ToLower_ContainsAny: "ContainsAny (ToLower s) ''/:@[]'' \<Longrightarrow> ContainsAny s ''/:@[]''"
proof (induction s rule: ToLower.induct)
  case (2 a b c s)
  then show ?case using lower_char_bad [of a] unfolding ContainsAny_def by (auto split: if_splits)
next
  case (3 a b)
  then show ?case using lower_char_bad [of a] lower_char_bad [of b] unfolding ContainsAny_def by (auto split: if_splits)
next
  case (4 a)
  then show ?case using lower_char_bad [of a] unfolding ContainsAny_def by auto
qed simp

lemma set_TrimLeft: "set (TrimLeft s) \<subseteq> set s"
proof (induction s rule: TrimLeft.induct)
  case (1 s)
  then show ?case by (subst TrimLeft.simps) (auto dest: in_set_dropD)
qed

lemma set_TrimRight: "set (TrimRight s) \<subseteq> set s"
proof (induction s rule: TrimRight.induct)
  case (1 s)
  then show ?case by (subst TrimRight.simps) (auto dest: in_set_takeD)
qed

lemma parse_cidrs_Inr: "(\<exists>ps. parse_cidrs cidrs = Inr ps) \<longleftrightarrow> list_all (\<lambda>v. ParsePrefix v \<noteq> None) cidrs"
  by (induction cidrs) (auto split: option.splits sum.splits)

lemma accepted_policy:
  assumes "validate_callback c = None"
  shows "(\<exists>p. policy_FromConfig c = Inr p) \<longleftrightarrow> \<not> (\<exists>h\<in>set (AllowedHosts c). TrimSpace h = ''.'')"
proof -
  have c: "AllowedPorts c \<noteq> []" "validate_ports (AllowedPorts c) [] = None" "list_all (\<lambda>v. ParsePrefix v \<noteq> None) (AllowedCIDRs c)"
    "\<And>h. h \<in> set (AllowedHosts c) \<Longrightarrow> TrimSpace h \<noteq> [] \<and> \<not> ContainsAny h ''/:@[]''"
    using assms unfolding validate_callback_def first_error_None by (auto simp: list_all_iff list_ex_iff split: if_splits)
  have "list_all (\<lambda>port. 1 \<le> port \<and> port \<le> 65535) ps" if "validate_ports ps seen = None" for ps seen
    using that by (induction ps arbitrary: seen) (auto split: if_splits)
  from this [OF c(2)] have ports: "\<not> list_ex (\<lambda>port. port < 1 \<or> 65535 < port) (AllowedPorts c)" by (auto simp: list_all_iff list_ex_iff)
  have clean: "\<not> ContainsAny (ToLower (TrimSuffixDot (TrimSpace h))) ''/:@[]''" if "h \<in> set (AllowedHosts c)" for h
  proof -
    have "set (TrimSuffixDot (TrimSpace h)) \<subseteq> set h"
      using set_TrimLeft [of h] set_TrimRight [of "TrimLeft h"] by (auto simp: TrimSuffixDot_def TrimSpace_def dest: in_set_butlastD)
    then have "\<not> ContainsAny (TrimSuffixDot (TrimSpace h)) ''/:@[]''" using c(4) [OF that] unfolding ContainsAny_def list_ex_iff by blast
    then show ?thesis using ToLower_ContainsAny by blast
  qed
  have name: "ToLower (TrimSuffixDot (TrimSpace h)) = [] \<longleftrightarrow> TrimSpace h = ''.''" if "h \<in> set (AllowedHosts c)" for h
    using c(4) [OF that] unfolding ToLower_Nil TrimSuffixDot_def by (cases "TrimSpace h" rule: rev_cases) auto
  have hosts: "list_ex (\<lambda>h. h = [] \<or> ContainsAny h ''/:@[]'') (map (\<lambda>h. ToLower (TrimSuffixDot (TrimSpace h))) (AllowedHosts c)) \<longleftrightarrow>
      (\<exists>h\<in>set (AllowedHosts c). TrimSpace h = ''.'')"
    using clean name unfolding list_ex_iff by auto
  have "map of_int (AllowedPorts c) \<noteq> []" using c(1) by simp
  with ports hosts parse_cidrs_Inr [of "AllowedCIDRs c"] c(3) show ?thesis
    unfolding policy_FromConfig_def policy_New_def Let_def by (auto split: sum.splits)
qed


lemma errors_Join_Some: "errors_Join (Some e # es) \<noteq> None"
  by (simp add: errors_Join_def)

lemma hub_serve_fails:
  assumes "url_Parse (PublicURL (hub_Server cfg)) = Some u" "Path u = []"
  shows "\<exists>st' e. hub_serve b cfg st = (st', Some e)"
  using assms by (auto simp: hub_serve_def publicMux_def management_New_def admin_New_def Let_def split: prod.splits option.splits)

lemma hub_managed_fails:
  assumes "url_Parse (PublicURL (hub_Server cfg)) = Some u" "Path u = []"
  shows "\<exists>e. snd (snd (hub_managed b cfg st)) = Some e"
proof (cases "NewManager (srv_ID (hub_Server cfg))")
  case (Inr m)
  obtain st' e where "hub_serve b cfg \<lparr>hr_projection = fst st, hr_world = snd st, hr_manager = m, hr_lastRevision = 0\<rparr> = (st', Some e)"
    using hub_serve_fails [OF assms] by blast
  with Inr errors_Join_Some show ?thesis by (auto simp: hub_managed_def split: prod.splits)
qed (simp add: hub_managed_def split: prod.splits)

lemma hub_protocol_fails:
  assumes "url_Parse (PublicURL (hub_Server cfg)) = Some u" "Path u = []"
  shows "\<exists>st' tr e. hub_protocol b cfg st = (st', tr, Some e)"
proof -
  obtain st' tr e where "hub_managed b cfg st = (st', tr, Some e)" using hub_managed_fails [OF assms, of b st] by (metis prod.collapse)
  then show ?thesis using errors_Join_Some by (auto simp: hub_protocol_def split: sum.splits)
qed

lemma hub_body_fails:
  assumes "url_Parse (PublicURL (hub_Server cfg)) = Some u" "Path u = []"
  shows "\<exists>tr e. hub_body b cfg w = (tr, Some e)"
proof -
  have "\<exists>tr e. (case hub_protocol b cfg st of (st, tr, res) \<Rightarrow> case projection_Close pv st of
      (_, closeErr) \<Rightarrow> ([Opened ProjectionPart] @ tr @ [Closed ProjectionPart], errors_Join [res, closeErr])) = (tr, Some e)" for st pv
  proof -
    obtain st' tr e where "hub_protocol b cfg st = (st', tr, Some e)" using hub_protocol_fails [OF assms] by blast
    then show ?thesis using errors_Join_Some by (auto split: prod.splits)
  qed
  then show ?thesis by (simp add: hub_body_def Let_def split: sum.splits option.splits prod.splits)
qed

text \<open>(C37) A public URL without a path passes validation, but no hub ever runs with it: whatever the environment
  answers, the process ends with an error. The check comes last, after destinations were provisioned and workers
  started.\<close>

theorem pathless_url_never_runs:
  assumes "url_Parse (PublicURL (hub_Server cfg)) = Some u" "Path u = []"
  shows "snd (RunHub b cfg w) \<noteq> None"
proof -
  obtain tr e where "hub_body b cfg w = (tr, Some e)" using hub_body_fails [OF assms, of b w] by blast
  then show ?thesis using errors_Join_Some
    by (auto simp: RunHub_def with_kafka_def split: option.splits sum.splits)
qed

theorem pathless_url_never_runs_witness:
  "let cfg = sample_hub_config\<lparr>hub_Server := (hub_Server sample_hub_config)\<lparr>PublicURL := ''https://hub.example''\<rparr>\<rparr> in
     HubConfig_Validate cfg = None \<and> (\<forall>b w. snd (RunHub b cfg w) \<noteq> None)"
proof -
  let ?cfg = "sample_hub_config\<lparr>hub_Server := (hub_Server sample_hub_config)\<lparr>PublicURL := ''https://hub.example''\<rparr>\<rparr>"
  have v: "HubConfig_Validate ?cfg = None" by code_simp
  have "map_option Path (url_Parse (PublicURL (hub_Server ?cfg))) = Some []" by code_simp
  then obtain u where "url_Parse (PublicURL (hub_Server ?cfg)) = Some u" "Path u = []" by auto
  from v pathless_url_never_runs [OF this] show ?thesis unfolding Let_def by blast
qed


end
