(* ===== verification/Go_Strconv.thy ===== *)
theory Go_Strconv
  imports Configuration
begin

text \<open>
  The conversions of text that the configuration uses: \<open>strconv.ParseBool\<close>, \<open>strconv.ParseFloat\<close> and
  \<open>time.ParseDuration\<close>. \<^const>\<open>None\<close> is a syntax or range error.
\<close>

definition ParseBool :: "string \<Rightarrow> bool option" where
  "ParseBool s =
     (if s \<in> {''1'', ''t'', ''T'', ''true'', ''TRUE'', ''True''} then Some True
      else if s \<in> {''0'', ''f'', ''F'', ''false'', ''FALSE'', ''False''} then Some False
      else None)"

section \<open>Rounding\<close>

function bit_len :: "int \<Rightarrow> int" where
  "bit_len n = (if n \<le> 0 then 0 else 1 + bit_len (n div 2))"
  by pat_completeness auto
termination
  by (relation "measure nat") auto

declare bit_len.simps [simp del]

definition pow2 :: "int \<Rightarrow> rat" where
  "pow2 e = (if 0 \<le> e then 2 ^ nat e else 1 / 2 ^ nat (- e))"

text \<open>The exponent of a positive number: the greatest \<open>e\<close> with \<open>2 ^ e \<le> x\<close>.\<close>

definition exponent :: "rat \<Rightarrow> int" where
  "exponent x = (case quotient_of x of (n, d) \<Rightarrow>
     let e = bit_len n - bit_len d in if pow2 e \<le> x then e else e - 1)"

definition round_half_even :: "rat \<Rightarrow> int" where
  "round_half_even q =
     (let f = \<lfloor>q\<rfloor>; r = q - of_int f in if r < 1 / 2 \<or> r = 1 / 2 \<and> even f then f else f + 1)"

text \<open>The nearest binary64 number, ties to even; an exponent beyond the range gives an infinity.\<close>

definition round_float :: "rat \<Rightarrow> float64" where
  "round_float x =
     (if x = 0 then Fin 0
      else let u = max (exponent \<bar>x\<bar> - 52) (- 1074);
               y = of_int (round_half_even (\<bar>x\<bar> / pow2 u)) * pow2 u
        in if pow2 1024 \<le> y then (if 0 < x then PosInf else NegInf) else Fin (sgn x * y))"

section \<open>Floating point numbers\<close>

definition is_hex_digit :: "char \<Rightarrow> bool" where
  "is_hex_digit c = (is_digit c \<or> (let l = byte (lower_char c) in 97 \<le> l \<and> l \<le> 102))"

definition hex_val :: "char \<Rightarrow> int" where
  "hex_val c = int (if is_digit c then digit_val c else byte (lower_char c) - 87)"

text \<open>The mantissa: the digits' value, the number of digits behind the point, whether there was a digit, and
  the rest. Underscores are skipped and a second point ends it.\<close>

fun mantissa :: "bool \<Rightarrow> string \<Rightarrow> int \<Rightarrow> nat \<Rightarrow> bool \<Rightarrow> bool \<Rightarrow> int \<times> nat \<times> bool \<times> string" where
  "mantissa hex [] v k sawdot sawdigits = (v, k, sawdigits, [])"
| "mantissa hex (c # s) v k sawdot sawdigits =
     (if c = CHR ''_'' then mantissa hex s v k sawdot sawdigits
      else if c = CHR ''.'' then if sawdot then (v, k, sawdigits, c # s) else mantissa hex s v k True sawdigits
      else if is_digit c \<or> hex \<and> is_hex_digit c
      then mantissa hex s ((if hex then 16 else 10) * v + hex_val c) (if sawdot then Suc k else k) sawdot True
      else (v, k, sawdigits, c # s))"

text \<open>The exponent's digits; a value of 10000 and more does not grow.\<close>

fun exponent_digits :: "string \<Rightarrow> int \<Rightarrow> int \<times> string" where
  "exponent_digits [] e = (e, [])"
| "exponent_digits (c # s) e =
     (if c = CHR ''_'' then exponent_digits s e
      else if is_digit c then exponent_digits s (if e < 10000 then 10 * e + int (digit_val c) else e)
      else (e, c # s))"

definition exponent_part :: "bool \<Rightarrow> string \<Rightarrow> (int \<times> string) option" where
  "exponent_part hex s =
     (case s of
        [] \<Rightarrow> if hex then None else Some (0, [])
      | c # t \<Rightarrow>
          if lower_char c \<noteq> (if hex then CHR ''p'' else CHR ''e'') then (if hex then None else Some (0, s))
          else let neg = (t \<noteq> [] \<and> hd t = CHR ''-'');
                   u = (if t \<noteq> [] \<and> (hd t = CHR ''-'' \<or> hd t = CHR ''+'') then tl t else t)
            in if u = [] \<or> \<not> is_digit (hd u) then None
               else case exponent_digits u 0 of (e, rest) \<Rightarrow> Some (if neg then - e else e, rest))"

text \<open>\<open>underscoreOK\<close>: an underscore stands between digits, or between the prefix and a digit. \<open>saw\<close> is the kind of the
  last character: a digit, an underscore, or another.\<close>

fun underscores_ok :: "bool \<Rightarrow> string \<Rightarrow> char \<Rightarrow> bool" where
  "underscores_ok hex [] saw = (saw \<noteq> CHR ''_'')"
| "underscores_ok hex (c # s) saw =
     (if is_digit c \<or> hex \<and> is_hex_digit c then underscores_ok hex s (CHR ''0'')
      else if c = CHR ''_'' then saw = CHR ''0'' \<and> underscores_ok hex s (CHR ''_'')
      else saw \<noteq> CHR ''_'' \<and> underscores_ok hex s (CHR ''!''))"

definition underscoreOK :: "string \<Rightarrow> bool" where
  "underscoreOK s =
     (let t = (if s \<noteq> [] \<and> (hd s = CHR ''-'' \<or> hd s = CHR ''+'') then tl s else s);
          prefixed = (2 \<le> length t \<and> hd t = CHR ''0'' \<and> lower_char (t ! 1) \<in> {CHR ''b'', CHR ''o'', CHR ''x''})
      in if prefixed then underscores_ok (lower_char (t ! 1) = CHR ''x'') (drop 2 t) (CHR ''0'') else underscores_ok False t (CHR ''^''))"

definition special_float :: "string \<Rightarrow> float64 option" where
  "special_float s =
     (let l = map lower_char s;
          t = (if l \<noteq> [] \<and> (hd l = CHR ''-'' \<or> hd l = CHR ''+'') then tl l else l)
      in if t = ''inf'' \<or> t = ''infinity'' then Some (if l \<noteq> [] \<and> hd l = CHR ''-'' then NegInf else PosInf)
         else if l = ''nan'' then Some NaN
         else None)"

definition ParseFloat :: "string \<Rightarrow> float64 option" where
  "ParseFloat s =
     (case special_float s of
        Some f \<Rightarrow> Some f
      | None \<Rightarrow>
          let neg = (s \<noteq> [] \<and> hd s = CHR ''-'');
              t = (if s \<noteq> [] \<and> (hd s = CHR ''-'' \<or> hd s = CHR ''+'') then tl s else s);
              hex = (2 < length t \<and> hd t = CHR ''0'' \<and> lower_char (t ! 1) = CHR ''x'')
          in (case mantissa hex (if hex then drop 2 t else t) 0 0 False False of
                (v, k, sawdigits, rest) \<Rightarrow>
                  if \<not> sawdigits then None
                  else case exponent_part hex rest of
                      None \<Rightarrow> None
                    | Some (e, rest) \<Rightarrow>
                        if rest \<noteq> [] \<or> CHR ''_'' \<in> set s \<and> \<not> underscoreOK s then None
                        else let x = (if hex then of_int v * pow2 (e - 4 * int k)
                                      else if int k \<le> e then of_int v * 10 ^ nat (e - int k) else of_int v / 10 ^ nat (int k - e))
                          in (case round_float (if neg then - x else x) of
                                Fin y \<Rightarrow> Some (Fin y)
                              | _ \<Rightarrow> None)))"

section \<open>Durations\<close>

text \<open>\<open>leadingInt\<close>: \<^const>\<open>None\<close> when the number does not fit.\<close>

fun leadingInt :: "string \<Rightarrow> int \<Rightarrow> (int \<times> string) option" where
  "leadingInt [] x = Some (x, [])"
| "leadingInt (c # s) x =
     (if \<not> is_digit c then Some (x, c # s)
      else if 2 ^ 63 div 10 < x then None
      else let x = 10 * x + int (digit_val c) in if 2 ^ 63 < x then None else leadingInt s x)"

text \<open>\<open>leadingFraction\<close>: the digits that fit, the number of these digits, and the rest.\<close>

fun leadingFraction :: "string \<Rightarrow> int \<Rightarrow> nat \<Rightarrow> bool \<Rightarrow> int \<times> nat \<times> string" where
  "leadingFraction [] x k overflow = (x, k, [])"
| "leadingFraction (c # s) x k overflow =
     (if \<not> is_digit c then (x, k, c # s)
      else if overflow \<or> (2 ^ 63 - 1) div 10 < x then leadingFraction s x k True
      else let y = 10 * x + int (digit_val c) in
        if 2 ^ 63 < y then leadingFraction s x k True else leadingFraction s y (Suc k) False)"

definition unitMap :: "string \<Rightarrow> int option" where
  "unitMap = map_of
     [(''ns'', 1), (''us'', 1000), ([char_of (0xC2 :: nat), char_of (0xB5 :: nat), CHR ''s''], 1000),
      ([char_of (0xCE :: nat), char_of (0xBC :: nat), CHR ''s''], 1000), (''ms'', 1000000), (''s'', 1000000000),
      (''m'', 60000000000), (''h'', 3600000000000)]"

text \<open>The nanoseconds of a fraction of a unit, computed in floating point and cut off.\<close>

definition float_value :: "float64 \<Rightarrow> rat" where
  "float_value f = (case f of Fin y \<Rightarrow> y | _ \<Rightarrow> 0)"

definition fraction_ns :: "int \<Rightarrow> nat \<Rightarrow> int \<Rightarrow> int" where
  "fraction_ns f k unit =
     \<lfloor>float_value (round_float (float_value (round_float (of_int f)) * float_value (round_float (of_int unit / 10 ^ k))))\<rfloor>"

text \<open>One number with its unit: its value and the rest.\<close>

definition duration_item :: "string \<Rightarrow> (int \<times> string) option" where
  "duration_item s =
     (if s = [] \<or> hd s \<noteq> CHR ''.'' \<and> \<not> is_digit (hd s) then None
      else case leadingInt s 0 of
          None \<Rightarrow> None
        | Some (v, s1) \<Rightarrow>
            let pre = (length s1 \<noteq> length s);
                dot = (s1 \<noteq> [] \<and> hd s1 = CHR ''.'')
            in (case (if dot then leadingFraction (tl s1) 0 0 False else (0, 0, s1)) of
                  (f, k, s2) \<Rightarrow>
                    let post = (dot \<and> length s2 \<noteq> length (tl s1));
                        u = takeWhile (\<lambda>c. c \<noteq> CHR ''.'' \<and> \<not> is_digit c) s2
                    in if \<not> pre \<and> \<not> post \<or> u = [] then None
                       else case unitMap u of
                           None \<Rightarrow> None
                         | Some unit \<Rightarrow>
                             if 2 ^ 63 div unit < v then None
                             else let w = v * unit + (if 0 < f then fraction_ns f k unit else 0)
                               in if 2 ^ 63 < w then None else Some (w, drop (length u) s2)))"

lemma duration_item_shorter: "duration_item s = Some (w, rest) \<Longrightarrow> length rest < length s"
proof -
  have li: "leadingInt t x = Some (v, r) \<Longrightarrow> length r \<le> length t" for t x v r
    by (induction t x rule: leadingInt.induct) (auto simp: Let_def split: if_splits)
  have lf: "leadingFraction t x k b = (f, k', r) \<Longrightarrow> length r \<le> length t" for t x k b f k' r
    by (induction t x k b rule: leadingFraction.induct) (auto simp: Let_def split: if_splits)
  assume "duration_item s = Some (w, rest)"
  then obtain v s1 f k s2 where h: "leadingInt s 0 = Some (v, s1)"
    "(if s1 \<noteq> [] \<and> hd s1 = CHR ''.'' then leadingFraction (tl s1) 0 0 False else (0, 0, s1)) = (f, k, s2)"
    "takeWhile (\<lambda>c. c \<noteq> CHR ''.'' \<and> \<not> is_digit c) s2 \<noteq> []"
    "rest = drop (length (takeWhile (\<lambda>c. c \<noteq> CHR ''.'' \<and> \<not> is_digit c) s2)) s2"
    by (auto simp: duration_item_def Let_def split: if_splits option.splits prod.splits)
  have "length s2 \<le> length s1" using h(2) lf [of "tl s1" 0 0 False f k s2] by (auto split: if_splits)
  moreover have "length rest < length s2" using h(3,4) by (cases s2) auto
  ultimately show ?thesis using li [OF h(1)] by simp
qed

function duration_items :: "string \<Rightarrow> int \<Rightarrow> int option" where
  "duration_items s d =
     (if s = [] then Some d
      else case duration_item s of
          None \<Rightarrow> None
        | Some (v, rest) \<Rightarrow> if 2 ^ 63 < d + v then None else duration_items rest (d + v))"
  by pat_completeness auto
termination
  by (relation "measure (length \<circ> fst)") (auto dest: duration_item_shorter)

definition ParseDuration :: "string \<Rightarrow> duration option" where
  "ParseDuration s =
     (let neg = (s \<noteq> [] \<and> hd s = CHR ''-'');
          t = (if s \<noteq> [] \<and> (hd s = CHR ''-'' \<or> hd s = CHR ''+'') then tl s else s)
      in if t = ''0'' then Some 0
         else if t = [] then None
         else case duration_items t 0 of
             None \<Rightarrow> None
           | Some d \<Rightarrow> if neg then Some (- d) else if 2 ^ 63 - 1 < d then None else Some d)"

end
