(* ===== verification/Environment.thy ===== *)
theory Environment
  imports Go_Strconv
begin

text \<open>
  Loading a configuration (\<open>load\<close> and \<open>applyEnvironment\<close> of \<open>internal/config/config.go\<close>): defaults, then a file,
  then overrides from the environment, then validation. The reflection over the structs is a tree of their fields
  with the \<open>toml\<close> tags, whose leaves are update functions. The file and the TOML library are arguments.
\<close>

abbreviation EnvPrefix :: string where "EnvPrefix \<equiv> ''WEBSUBHUB__''"

section \<open>Fields\<close>

datatype 't field =
    StringField "(string \<Rightarrow> string) \<Rightarrow> 't \<Rightarrow> 't"
  | BoolField "(bool \<Rightarrow> bool) \<Rightarrow> 't \<Rightarrow> 't"
  | IntField nat "(int \<Rightarrow> int) \<Rightarrow> 't \<Rightarrow> 't"
  | FloatField "(float64 \<Rightarrow> float64) \<Rightarrow> 't \<Rightarrow> 't"
  | DurationField "(duration \<Rightarrow> duration) \<Rightarrow> 't \<Rightarrow> 't"
  | StringsField "(string list \<Rightarrow> string list) \<Rightarrow> 't \<Rightarrow> 't"
  | IntsField "(int list \<Rightarrow> int list) \<Rightarrow> 't \<Rightarrow> 't"

datatype 't node = Leaf "'t field" | Struct "(string \<times> 't node) list"

text \<open>The fields of a struct that is a field itself, as fields of the outer struct.\<close>

fun within_field :: "(('a \<Rightarrow> 'a) \<Rightarrow> 't \<Rightarrow> 't) \<Rightarrow> 'a field \<Rightarrow> 't field" where
  "within_field up (StringField f) = StringField (\<lambda>g. up (f g))"
| "within_field up (BoolField f) = BoolField (\<lambda>g. up (f g))"
| "within_field up (IntField bits f) = IntField bits (\<lambda>g. up (f g))"
| "within_field up (FloatField f) = FloatField (\<lambda>g. up (f g))"
| "within_field up (DurationField f) = DurationField (\<lambda>g. up (f g))"
| "within_field up (StringsField f) = StringsField (\<lambda>g. up (f g))"
| "within_field up (IntsField f) = IntsField (\<lambda>g. up (f g))"

primrec within :: "(('a \<Rightarrow> 'a) \<Rightarrow> 't \<Rightarrow> 't) \<Rightarrow> 'a node \<Rightarrow> 't node" where
  "within up (Leaf f) = Leaf (within_field up f)"
| "within up (Struct ns) = Struct (map (map_prod id (within up)) ns)"

fun join_dots :: "string list \<Rightarrow> string" where
  "join_dots [] = []"
| "join_dots [s] = s"
| "join_dots (s # t # ss) = s @ ''.'' @ join_dots (t # ss)"

primrec indexFields :: "'t node \<Rightarrow> string list \<Rightarrow> (string \<times> 't field) list" where
  "indexFields (Leaf f) = (\<lambda>path. [(join_dots path, f)])"
| "indexFields (Struct ns) = (\<lambda>path. concat (map (\<lambda>(name, index). index (path @ [name])) (map (map_prod id indexFields) ns)))"

section \<open>The structs\<close>

abbreviation leaf_string where "leaf_string name f \<equiv> (name, Leaf (StringField f))"
abbreviation leaf_bool where "leaf_bool name f \<equiv> (name, Leaf (BoolField f))"
abbreviation leaf_int where "leaf_int name f \<equiv> (name, Leaf (IntField 64 f))"
abbreviation leaf_duration where "leaf_duration name f \<equiv> (name, Leaf (DurationField f))"
abbreviation leaf_strings where "leaf_strings name f \<equiv> (name, Leaf (StringsField f))"
abbreviation leaf_ints where "leaf_ints name f \<equiv> (name, Leaf (IntsField f))"

definition logging_node :: "Logging node" where
  "logging_node = Struct [leaf_string ''level'' Level_update]"

definition api_auth_node :: "APIAuth node" where
  "api_auth_node = Struct [leaf_string ''mode'' api_Mode_update]"

definition operations_node :: "OperationsServer node" where
  "operations_node = Struct
     [(''auth'', within op_Auth_update api_auth_node), leaf_string ''listen'' op_Listen_update,
      leaf_duration ''read_header_timeout'' op_ReadHeaderTimeout_update, leaf_duration ''read_timeout'' op_ReadTimeout_update,
      leaf_duration ''write_timeout'' op_WriteTimeout_update, leaf_duration ''idle_timeout'' op_IdleTimeout_update,
      leaf_duration ''shutdown_timeout'' op_ShutdownTimeout_update]"

definition jwt_node :: "JWT node" where
  "jwt_node = Struct
     [leaf_string ''issuer'' Issuer_update, leaf_string ''audience'' Audience_update, leaf_string ''jwks_url'' JWKSURL_update,
      leaf_strings ''algorithms'' Algorithms_update, leaf_string ''scope_claim'' ScopeClaim_update,
      leaf_duration ''clock_skew'' ClockSkew_update, leaf_duration ''cache_ttl'' CacheTTL_update,
      leaf_duration ''request_timeout'' jwt_RequestTimeout_update, leaf_int ''max_token_bytes'' MaxTokenBytes_update]"

definition callback_node :: "Callback node" where
  "callback_node = Struct
     [leaf_ints ''allowed_ports'' AllowedPorts_update, leaf_strings ''allowed_hosts'' AllowedHosts_update,
      leaf_strings ''allowed_cidrs'' AllowedCIDRs_update, leaf_duration ''connect_timeout'' ConnectTimeout_update,
      leaf_duration ''tls_handshake_timeout'' TLSHandshakeTimeout_update,
      leaf_duration ''response_header_timeout'' ResponseHeaderTimeout_update]"

definition secret_storage_node :: "SecretStorage node" where
  "secret_storage_node = Struct [leaf_string ''key_file'' KeyFile_update, leaf_string ''key_id'' KeyID_update]"

definition security_node :: "Security node" where
  "security_node = Struct
     [(''jwt'', within sec_JWT_update jwt_node), (''callbacks'', within Callbacks_update callback_node),
      (''secrets'', within Secrets_update secret_storage_node)]"

definition hub_server_node :: "HubServer node" where
  "hub_server_node = Struct
     [(''auth'', within srv_Auth_update api_auth_node), leaf_string ''id'' srv_ID_update, leaf_string ''listen'' srv_Listen_update,
      leaf_string ''public_url'' PublicURL_update, leaf_duration ''read_header_timeout'' srv_ReadHeaderTimeout_update,
      leaf_duration ''read_timeout'' srv_ReadTimeout_update, leaf_duration ''write_timeout'' srv_WriteTimeout_update,
      leaf_duration ''idle_timeout'' srv_IdleTimeout_update, leaf_duration ''shutdown_timeout'' srv_ShutdownTimeout_update]"

definition protocol_node :: "ResourceProtocol node" where
  "protocol_node = Struct
     [leaf_bool ''publisher_extension_enabled'' PublisherExtensionEnabled_update, leaf_duration ''default_lease'' DefaultLease_update,
      leaf_duration ''max_lease'' MaxLease_update, leaf_int ''max_request_body'' MaxRequestBody_update,
      leaf_int ''max_callback_body'' MaxCallbackBody_update, leaf_duration ''verification_timeout'' VerificationTimeout_update,
      leaf_int ''verification_workers'' VerificationWorkers_update, leaf_int ''verification_queue'' VerificationQueue_update,
      leaf_bool ''hub_error_callback_enabled'' HubErrorCallbackEnabled_update]"

definition client_files_node :: "MTLSClientFiles node" where
  "client_files_node = Struct
     [leaf_string ''certificate_file'' cf_CertificateFile_update, leaf_string ''private_key_file'' cf_PrivateKeyFile_update,
      leaf_string ''server_ca_file'' ServerCAFile_update, leaf_string ''server_name'' cf_ServerName_update]"

definition server_files_node :: "MTLSServerFiles node" where
  "server_files_node = Struct
     [leaf_string ''certificate_file'' sf_CertificateFile_update, leaf_string ''private_key_file'' sf_PrivateKeyFile_update,
      leaf_string ''client_ca_file'' ClientCAFile_update]"

definition client_auth_node :: "ClientAuth node" where
  "client_auth_node = Struct [leaf_string ''mode'' ca_Mode_update, (''mtls'', within ca_MTLS_update client_files_node)]"

definition server_auth_node :: "ServerAuth node" where
  "server_auth_node = Struct [leaf_string ''mode'' sa_Mode_update, (''mtls'', within sa_MTLS_update server_files_node)]"

definition consolidator_client_node :: "ConsolidatorClient node" where
  "consolidator_client_node = Struct
     [leaf_string ''endpoint'' Endpoint_update, leaf_duration ''timeout'' cc_Timeout_update, (''auth'', within cc_Auth_update client_auth_node)]"

definition hub_state_node :: "HubState node" where
  "hub_state_node = Struct
     [(''events'', within hs_Events_update (Struct
         [leaf_string ''destination'' hse_Destination_update, leaf_int ''consumer_batch_size'' hse_ConsumerBatchSize_update])),
      (''startup'', within Startup_update (Struct [leaf_int ''buffer_max'' BufferMax_update]))]"

definition http_retry_node :: "HTTPRetry node" where
  "http_retry_node = Struct
     [leaf_int ''max_attempts'' MaxAttempts_update, leaf_duration ''initial_interval'' InitialInterval_update,
      (''backoff_factor'', Leaf (FloatField BackoffFactor_update)), leaf_duration ''max_interval'' MaxInterval_update,
      (''jitter_factor'', Leaf (FloatField JitterFactor_update)), leaf_ints ''retry_status_codes'' RetryStatusCodes_update,
      leaf_bool ''reset_on_exhaust'' ResetOnExhaust_update]"

definition store_retry_node :: "MessageStoreRetry node" where
  "store_retry_node = Struct
     [leaf_duration ''delay'' Delay_update, leaf_ints ''redeliver_status_codes'' RedeliverStatusCodes_update,
      leaf_ints ''dead_letter_status_codes'' DeadLetterStatusCodes_update, leaf_ints ''fail_status_codes'' FailStatusCodes_update,
      leaf_string ''default_action'' DefaultAction_update, leaf_string ''network_failure_action'' NetworkFailureAction_update]"

definition delivery_node :: "Delivery node" where
  "delivery_node = Struct
     [leaf_int ''consumer_batch_size'' del_ConsumerBatchSize_update, leaf_duration ''reconnect_interval'' ReconnectInterval_update,
      leaf_duration ''request_timeout'' del_RequestTimeout_update, leaf_int ''max_response_body'' MaxResponseBody_update,
      leaf_string ''dlq_destination'' DLQDestination_update,
      (''retry'', within Retry_update (Struct
         [leaf_string ''strategy'' Strategy_update, (''http'', within retry_HTTP_update http_retry_node),
          (''message_store'', within retry_MessageStore_update store_retry_node)]))]"

definition state_destination_node :: "StateDestination node" where
  "state_destination_node = Struct [leaf_string ''destination'' sd_Destination_update, leaf_duration ''retention'' sd_Retention_update]"

definition consolidator_state_node :: "ConsolidatorState node" where
  "consolidator_state_node = Struct
     [(''events'', within cst_Events_update state_destination_node), (''snapshots'', within Snapshots_update state_destination_node),
      (''consumer'', within cst_Consumer_update (Struct [leaf_int ''batch_size'' sc_BatchSize_update]))]"

definition consolidator_server_node :: "ConsolidatorServer node" where
  "consolidator_server_node = Struct
     [leaf_string ''listen'' cs_Listen_update, leaf_duration ''read_header_timeout'' cs_ReadHeaderTimeout_update,
      leaf_duration ''read_timeout'' cs_ReadTimeout_update, leaf_duration ''write_timeout'' cs_WriteTimeout_update,
      leaf_duration ''idle_timeout'' cs_IdleTimeout_update, leaf_duration ''shutdown_timeout'' cs_ShutdownTimeout_update,
      (''auth'', within cs_Auth_update server_auth_node)]"

definition kafka_node :: "KafkaConfig node" where
  "kafka_node = Struct
     [leaf_strings ''brokers'' kfk_Brokers_update, leaf_string ''client_id'' kfk_ClientID_update,
      leaf_duration ''dial_timeout'' kfk_DialTimeout_update, leaf_duration ''request_timeout_overhead'' kfk_RequestTimeoutOverhead_update,
      (''default_replication_factor'', Leaf (IntField 16 kfk_DefaultReplicationFactor_update)),
      (''tls'', within kfk_TLS_update (Struct
         [leaf_bool ''enabled'' tls_Enabled_update, leaf_string ''ca_file'' CAFile_update,
          leaf_string ''certificate_file'' tls_CertificateFile_update, leaf_string ''private_key_file'' tls_PrivateKeyFile_update,
          leaf_string ''server_name'' tls_ServerName_update, leaf_bool ''insecure_skip_verify'' InsecureSkipVerify_update])),
      (''sasl'', within kfk_SASL_update (Struct
         [leaf_string ''mechanism'' Mechanism_update, leaf_string ''username'' Username_update,
          leaf_string ''password_file'' PasswordFile_update]))]"

definition message_store_node :: "MessageStore node" where
  "message_store_node = Struct [leaf_string ''provider'' ms_Provider_update, (''kafka'', within ms_Kafka_update kafka_node)]"

definition hub_node :: "HubConfig node" where
  "hub_node = Struct
     [(''logging'', within hub_Logging_update logging_node), (''server'', within hub_Server_update hub_server_node),
      (''operations'', within Operations_update operations_node), (''security'', within hub_Security_update security_node),
      (''protocol'', within Protocol_update protocol_node), (''consolidator'', within Consolidator_update consolidator_client_node),
      (''state'', within hub_State_update hub_state_node), (''delivery'', within hub_Delivery_update delivery_node),
      (''message_store'', within hub_MessageStore_update message_store_node)]"

definition consolidator_node :: "ConsolidatorConfig node" where
  "consolidator_node = Struct
     [(''logging'', within con_Logging_update logging_node), (''server'', within con_Server_update consolidator_server_node),
      (''state'', within con_State_update consolidator_state_node), (''message_store'', within con_MessageStore_update message_store_node)]"

section \<open>Overrides\<close>

record toml =
  toml_strings :: "string \<Rightarrow> string list result"
  toml_ints :: "string \<Rightarrow> int list result"

abbreviation invalid_value :: "'a option \<Rightarrow> ('a \<Rightarrow> 't) \<Rightarrow> 't result" where
  "invalid_value v set1 \<equiv> (case v of None \<Rightarrow> Inl (Error ''invalid syntax'') | Some x \<Rightarrow> Inr (set1 x))"

fun setValue :: "toml \<Rightarrow> 't field \<Rightarrow> string \<Rightarrow> 't \<Rightarrow> 't result" where
  "setValue lib (DurationField f) raw cfg = invalid_value (ParseDuration raw) (\<lambda>v. f (\<lambda>_. v) cfg)"
| "setValue lib (StringField f) raw cfg = Inr (f (\<lambda>_. raw) cfg)"
| "setValue lib (BoolField f) raw cfg = invalid_value (ParseBool raw) (\<lambda>v. f (\<lambda>_. v) cfg)"
| "setValue lib (IntField bits f) raw cfg = invalid_value (ParseInt bits raw) (\<lambda>v. f (\<lambda>_. v) cfg)"
| "setValue lib (FloatField f) raw cfg = invalid_value (ParseFloat raw) (\<lambda>v. f (\<lambda>_. v) cfg)"
| "setValue lib (StringsField f) raw cfg =
     (case toml_strings lib (''value = '' @ raw) of Inl err \<Rightarrow> Inl err | Inr vs \<Rightarrow> Inr (f (\<lambda>_. vs) cfg))"
| "setValue lib (IntsField f) raw cfg =
     (case toml_ints lib (''value = '' @ raw) of Inl err \<Rightarrow> Inl err | Inr vs \<Rightarrow> Inr (f (\<lambda>_. vs) cfg))"

text \<open>\<open>strings.ToUpper\<close> as far as a comparison with an ASCII prefix can see it: ASCII letters and the two code points
  outside ASCII whose upper case is an ASCII letter (the dotless i and the long s).\<close>

definition upper_char :: "char \<Rightarrow> char" where
  "upper_char c = (if 97 \<le> byte c \<and> byte c \<le> 122 then char_of (byte c - 32) else c)"

fun ToUpper :: "string \<Rightarrow> string" where
  "ToUpper (a # b # s) =
     (if byte a = 196 \<and> byte b = 177 then CHR ''I'' # ToUpper s
      else if byte a = 197 \<and> byte b = 191 then CHR ''S'' # ToUpper s
      else upper_char a # ToUpper (b # s))"
| "ToUpper [a] = [upper_char a]"
| "ToUpper [] = []"

text \<open>\<open>strings.ReplaceAll(s, "__", ".")\<close>.\<close>

fun dots :: "string \<Rightarrow> string" where
  "dots (a # b # s) = (if a = CHR ''_'' \<and> b = CHR ''_'' then CHR ''.'' # dots s else a # dots (b # s))"
| "dots s = s"

definition env_path :: "string \<Rightarrow> string" where
  "env_path name = ToLower (dots (drop (length EnvPrefix) name))"

text \<open>\<open>strings.Cut(entry, "=")\<close>.\<close>

definition cut_entry :: "string \<Rightarrow> (string \<times> string) option" where
  "cut_entry entry =
     (if CHR ''='' \<in> set entry
      then let n = length (takeWhile (\<lambda>c. c \<noteq> CHR ''='') entry) in Some (take n entry, drop (Suc n) entry)
      else None)"

fun apply_entries :: "toml \<Rightarrow> (string \<times> 't field) list \<Rightarrow> string list \<Rightarrow> 't \<Rightarrow> 't result" where
  "apply_entries lib index1 [] cfg = Inr cfg"
| "apply_entries lib index1 (entry # environ) cfg =
     (case cut_entry entry of
        None \<Rightarrow> apply_entries lib index1 environ cfg
      | Some (name, raw) \<Rightarrow>
          if \<not> HasPrefix (ToUpper name) EnvPrefix then apply_entries lib index1 environ cfg
          else case map_of (rev index1) (env_path name) of
              None \<Rightarrow> Inl (Error ''unknown environment override'')
            | Some field \<Rightarrow>
                (case setValue lib field raw cfg of
                   Inl err \<Rightarrow> Inl (Wrap ''invalid environment override'' err)
                 | Inr cfg \<Rightarrow> apply_entries lib index1 environ cfg))"

definition applyEnvironment :: "toml \<Rightarrow> 't node \<Rightarrow> string list \<Rightarrow> 't \<Rightarrow> 't result" where
  "applyEnvironment lib node environ cfg = apply_entries lib (indexFields node []) environ cfg"

section \<open>Loading\<close>

definition load_file :: "(string \<Rightarrow> string result) \<Rightarrow> (string \<Rightarrow> 't \<Rightarrow> 't result) \<Rightarrow> string \<Rightarrow> 't \<Rightarrow> 't result" where
  "load_file read decode path cfg =
     (if path = [] then Inr cfg
      else case read path of
          Inl err \<Rightarrow> Inl (Wrap ''read configuration'' err)
        | Inr body \<Rightarrow> (case decode body cfg of Inl err \<Rightarrow> Inl (Wrap ''decode configuration'' err) | Inr cfg \<Rightarrow> Inr cfg))"

definition config_load ::
  "toml \<Rightarrow> (string \<Rightarrow> string result) \<Rightarrow> (string \<Rightarrow> 't \<Rightarrow> 't result) \<Rightarrow> 't node \<Rightarrow> ('t \<Rightarrow> goerr option) \<Rightarrow>
   string \<Rightarrow> string list \<Rightarrow> 't \<Rightarrow> 't result" where
  "config_load lib read decode node validate path environ cfg =
     (case load_file read decode path cfg of
        Inl err \<Rightarrow> Inl err
      | Inr cfg \<Rightarrow>
          (case applyEnvironment lib node environ cfg of
             Inl err \<Rightarrow> Inl err
           | Inr cfg \<Rightarrow> (case validate cfg of Some err \<Rightarrow> Inl err | None \<Rightarrow> Inr cfg)))"

definition LoadHub ::
  "toml \<Rightarrow> (string \<Rightarrow> string result) \<Rightarrow> (string \<Rightarrow> HubConfig \<Rightarrow> HubConfig result) \<Rightarrow> string \<Rightarrow> string list \<Rightarrow> HubConfig result" where
  "LoadHub lib read decode path environ = config_load lib read decode hub_node HubConfig_Validate path environ HubDefaults"

definition LoadConsolidator ::
  "toml \<Rightarrow> (string \<Rightarrow> string result) \<Rightarrow> (string \<Rightarrow> ConsolidatorConfig \<Rightarrow> ConsolidatorConfig result) \<Rightarrow> string \<Rightarrow> string list \<Rightarrow>
   ConsolidatorConfig result" where
  "LoadConsolidator lib read decode path environ =
     config_load lib read decode consolidator_node ConsolidatorConfig_Validate path environ ConsolidatorDefaults"

section \<open>Names of settings\<close>

text \<open>The spelling of a setting in the environment: upper case, with two underscores for a dot.\<close>

definition spelled :: "string \<Rightarrow> string" where
  "spelled p = concat (map (\<lambda>c. if c = CHR ''.'' then ''__'' else [upper_char c]) p)"

definition override :: "string \<Rightarrow> string \<Rightarrow> string" where
  "override p raw = EnvPrefix @ spelled p @ ''='' @ raw"

definition is_override :: "string \<Rightarrow> bool" where
  "is_override entry = (case cut_entry entry of None \<Rightarrow> False | Some (name, _) \<Rightarrow> HasPrefix (ToUpper name) EnvPrefix)"

text \<open>What overrides mean: each sets the field at its path, which is found by walking down the structs.\<close>

primrec field_at :: "'t node \<Rightarrow> string list \<Rightarrow> 't field option" where
  "field_at (Leaf f) = (\<lambda>q. if q = [] then Some f else None)"
| "field_at (Struct ns) =
     (\<lambda>q. case q of [] \<Rightarrow> None | name # q' \<Rightarrow> (case map_of (map (map_prod id field_at) ns) name of None \<Rightarrow> None | Some below \<Rightarrow> below q'))"

fun apply_settings :: "toml \<Rightarrow> 't node \<Rightarrow> (string list \<times> string) list \<Rightarrow> 't \<Rightarrow> 't result" where
  "apply_settings lib node [] cfg = Inr cfg"
| "apply_settings lib node ((q, raw) # ss) cfg =
     (case field_at node q of
        None \<Rightarrow> Inl (Error ''unknown environment override'')
      | Some f \<Rightarrow>
          (case setValue lib f raw cfg of
             Inl err \<Rightarrow> Inl (Wrap ''invalid environment override'' err)
           | Inr cfg \<Rightarrow> apply_settings lib node ss cfg))"

text \<open>A name of small letters and single underscores that does not end in one.\<close>

definition name_char :: "char \<Rightarrow> bool" where
  "name_char c = (97 \<le> byte c \<and> byte c \<le> 122 \<or> c = CHR ''_'')"

fun single :: "string \<Rightarrow> bool" where
  "single (a # b # s) = (\<not> (a = CHR ''_'' \<and> b = CHR ''_'') \<and> single (b # s))"
| "single [a] = (a \<noteq> CHR ''_'')"
| "single [] = False"

definition setting_name :: "string \<Rightarrow> bool" where
  "setting_name s = (list_all name_char s \<and> single s)"

primrec well_named :: "'t node \<Rightarrow> bool" where
  "well_named (Leaf f) = True"
| "well_named (Struct ns) =
     (distinct (map fst ns) \<and> list_all setting_name (map fst ns) \<and> list_all snd (map (map_prod id well_named) ns))"

lemma well_named_within [simp]: "well_named (within up n) = well_named n"
  by (induction n) (auto simp: list_all_iff comp_def)

lemma field_at_within [simp]: "field_at (within up n) q = map_option (within_field up) (field_at n q)"
proof (induction n arbitrary: q)
  case (Struct ns)
  have "map_of (map (map_prod id field_at \<circ> map_prod id (within up)) ns) name = map_option (\<lambda>below q. map_option (within_field up) (below q)) (map_of (map (map_prod id field_at) ns) name)" for name
    using Struct by (induction ns) (force simp: fun_eq_iff)+
  then show ?case by (simp split: list.split option.split)
qed simp

text \<open>The index with its paths still in parts.\<close>

primrec parts :: "'t node \<Rightarrow> (string list \<times> 't field) list" where
  "parts (Leaf f) = [([], f)]"
| "parts (Struct ns) = concat (map (\<lambda>(name, ps). map (\<lambda>(q, f). (name # q, f)) ps) (map (map_prod id parts) ns))"

lemma indexFields_parts: "indexFields n path = map (\<lambda>(q, f). (join_dots (path @ q), f)) (parts n)"
proof (induction n arbitrary: path)
  case (Struct ns)
  have "map ((\<lambda>(name, index). index (path @ [name])) \<circ> map_prod id indexFields) ns =
      map ((map (\<lambda>(q, f). (join_dots (path @ q), f))) \<circ> (\<lambda>(name, ps). map (\<lambda>(q, f). (name # q, f)) ps) \<circ> map_prod id parts) ns"
    using Struct by (fastforce intro: map_cong)
  then show ?case by (simp only: indexFields.simps parts.simps map_concat map_map comp_assoc)
qed simp

lemma distinct_parts: "well_named n \<Longrightarrow> distinct (map fst (parts n))"
proof (induction n)
  case (Struct ns)
  have "distinct (map fst ns) \<Longrightarrow> \<forall>x \<in> set ns. distinct (g x) \<Longrightarrow> distinct (concat (map (\<lambda>x. map ((#) (fst x)) (g x)) ns))"
    for g :: "string \<times> 'a node \<Rightarrow> string list list"
    by (induction ns) (auto simp: distinct_map)
  note this [of "\<lambda>x. map fst (parts (snd x))"]
  moreover have "map fst (parts (Struct ns)) = concat (map (\<lambda>x. map ((#) (fst x)) (map fst (parts (snd x)))) ns)"
    by (simp add: map_concat comp_def case_prod_unfold)
  moreover have "\<forall>x \<in> set ns. distinct (map fst (parts (snd x)))" using Struct by (auto simp: list_all_iff comp_def)
  ultimately show ?case using Struct.prems by simp
qed simp

lemma parts_names: "well_named n \<Longrightarrow> (q, f) \<in> set (parts n) \<Longrightarrow> list_all setting_name q"
proof (induction n arbitrary: q f)
  case (Struct ns)
  then obtain name n q' where h: "(name, n) \<in> set ns" "q = name # q'" "(q', f) \<in> set (parts n)" by auto
  with Struct show ?case by (fastforce simp: list_all_iff)
qed simp

text \<open>Upper case and back.\<close>

lemma name_char_simps [simp]: "\<not> name_char (CHR ''.'')" "\<not> name_char (CHR ''='')"
  by (auto simp: name_char_def byte_def)

lemma setting_name_chars: "setting_name s \<Longrightarrow> CHR ''.'' \<notin> set s \<and> CHR ''='' \<notin> set s"
  by (auto simp: setting_name_def list_all_iff)

lemma name_char_upper:
  assumes "name_char c"
  shows "byte (upper_char c) < 128 \<and> lower_char (upper_char c) = c \<and> upper_char c \<noteq> CHR ''='' \<and>
     (upper_char c = CHR ''_'' \<longleftrightarrow> c = CHR ''_'')"
proof (cases "c = CHR ''_''")
  case True
  then show ?thesis by (simp add: upper_char_def lower_char_def byte_def)
next
  case False
  with assms have l: "97 \<le> byte c" "byte c \<le> 122" by (auto simp: name_char_def)
  then have u: "upper_char c = char_of (byte c - 32)" "byte (upper_char c) = byte c - 32"
    by (simp_all add: upper_char_def) (simp add: byte_def)
  moreover have "char_of (byte c) = c" "65 \<le> byte c - 32" "byte c - 32 \<le> 90" using l by (simp_all add: byte_def)
  ultimately have "lower_char (upper_char c) = c" using l by (simp add: lower_char_def)
  moreover have "byte (upper_char c) \<noteq> byte (CHR ''='')" "byte (upper_char c) \<noteq> byte (CHR ''_'')"
    using l u by (simp_all add: byte_def)
  ultimately show ?thesis using l u False by auto
qed

lemma ToLower_ascii: "list_all (\<lambda>c. byte c < 128) s \<Longrightarrow> ToLower s = map lower_char s"
  by (induction s rule: ToLower.induct) auto

lemma ToUpper_ascii: "byte a < 128 \<Longrightarrow> ToUpper (a # s) = upper_char a # ToUpper s"
  by (cases s) auto

lemma prefix_upper: "HasPrefix (ToUpper (EnvPrefix @ s)) EnvPrefix"
  by (simp add: ToUpper_ascii upper_char_def byte_def HasPrefix_def)

lemma spelled_append [simp]: "spelled (s @ t) = spelled s @ spelled t"
  by (simp add: spelled_def)

lemma spelled_Cons: "spelled (CHR ''.'' # s) = ''__'' @ spelled s"
  by (simp add: spelled_def)

lemma spelled_name: "list_all name_char s \<Longrightarrow> spelled s = map upper_char s"
  by (induction s) (auto simp: spelled_def)

lemma dots_name: "list_all name_char s \<Longrightarrow> single s \<Longrightarrow> dots (map upper_char s @ t) = map upper_char s @ dots t"
proof (induction s rule: single.induct)
  case (2 a)
  then show ?case using name_char_upper [of a] by (cases t) auto
next
  case (1 a b s)
  then show ?case using name_char_upper [of a] name_char_upper [of b] by auto
qed simp

lemma join_dots_chars: "list_all setting_name q \<Longrightarrow> list_all (\<lambda>c. name_char c \<or> c = CHR ''.'') (join_dots q)"
  by (induction q rule: join_dots.induct) (auto simp: setting_name_def list_all_iff)

lemma spelled_no_eq: "list_all (\<lambda>c. name_char c \<or> c = CHR ''.'') p \<Longrightarrow> CHR ''='' \<notin> set (spelled p)"
proof (induction p)
  case (Cons c p)
  then show ?case using name_char_upper [of c] by (auto simp: spelled_def)
qed (simp add: spelled_def)

lemma env_spelled: "q \<noteq> [] \<Longrightarrow> list_all setting_name q \<Longrightarrow> env_path (EnvPrefix @ spelled (join_dots q)) = join_dots q"
proof -
  assume "q \<noteq> []" "list_all setting_name q"
  note chars = join_dots_chars [OF this(2)]
  from \<open>q \<noteq> []\<close> \<open>list_all setting_name q\<close> have "dots (spelled (join_dots q)) = map upper_char (join_dots q)"
  proof (induction q rule: join_dots.induct)
    case (2 s)
    then show ?case using dots_name [of s "[]"] by (auto simp: spelled_name setting_name_def list_all_iff)
  next
    case (3 s t ss)
    have "upper_char (CHR ''.'') = CHR ''.''" by (simp add: upper_char_def byte_def)
    with 3 show ?case using dots_name [of s "''__'' @ spelled (join_dots (t # ss))"]
      by (auto simp: spelled_name spelled_Cons setting_name_def list_all_iff)
  qed simp
  moreover have "byte (upper_char c) < 128 \<and> lower_char (upper_char c) = c" if "name_char c \<or> c = CHR ''.''" for c
    using that name_char_upper [of c] by (auto simp: upper_char_def lower_char_def byte_def)
  ultimately show ?thesis using chars
    by (auto simp: env_path_def ToLower_ascii list_all_iff comp_def intro!: map_idI)
qed

lemma first_dot: "x \<notin> set a \<Longrightarrow> x \<notin> set b \<Longrightarrow> a @ x # s = b @ x # t \<Longrightarrow> a = b \<and> s = t"
proof (induction a arbitrary: b)
  case Nil
  then show ?case by (cases b) auto
next
  case (Cons c a)
  then show ?case by (cases b) auto
qed

lemma join_dots_inj: "list_all setting_name p \<Longrightarrow> list_all setting_name q \<Longrightarrow> join_dots p = join_dots q \<Longrightarrow> p = q"
proof (induction p arbitrary: q rule: join_dots.induct)
  case 1
  then show ?case by (cases q rule: join_dots.cases) (auto simp: setting_name_def)
next
  case (2 s)
  then show ?case by (cases q rule: join_dots.cases) (auto simp: setting_name_def dest: setting_name_chars)
next
  case (3 s t ss)
  then show ?case
  proof (cases q rule: join_dots.cases)
    case (3 s' t' ss')
    from 3 \<open>join_dots (s # t # ss) = join_dots q\<close> have "s @ CHR ''.'' # join_dots (t # ss) = s' @ CHR ''.'' # join_dots (t' # ss')" by simp
    moreover have "CHR ''.'' \<notin> set s" "CHR ''.'' \<notin> set s'" using 3 "3.prems" by (auto dest: setting_name_chars)
    ultimately have "s = s' \<and> join_dots (t # ss) = join_dots (t' # ss')" by (intro first_dot)
    then show ?thesis using 3 "3.IH" [of "t' # ss'"] "3.prems" by auto
  qed (auto simp: setting_name_def dest: setting_name_chars)
qed

section \<open>Overrides by path\<close>

lemma cut_entry_eq: "CHR ''='' \<notin> set name \<Longrightarrow> cut_entry (name @ CHR ''='' # raw) = Some (name, raw)"
proof -
  assume n: "CHR ''='' \<notin> set name"
  then have "takeWhile (\<lambda>c. c \<noteq> CHR ''='') (name @ CHR ''='' # raw) = name" by (subst takeWhile_append2) auto
  then show ?thesis by (simp add: cut_entry_def Let_def)
qed

text \<open>Foreign entries play no role.\<close>

lemma apply_entries_foreign: "apply_entries lib index1 environ cfg = apply_entries lib index1 (filter is_override environ) cfg"
  by (induction environ arbitrary: cfg) (auto simp: is_override_def split: option.splits prod.splits sum.splits)

text \<open>An override of a setting that does not exist is never overlooked.\<close>

lemma unknown_override_rejected:
  "is_override entry \<Longrightarrow> cut_entry entry = Some (name, raw) \<Longrightarrow> env_path name \<notin> fst ` set index1 \<Longrightarrow> entry \<in> set environ \<Longrightarrow>
     \<exists>err. apply_entries lib index1 environ cfg = Inl err"
proof (induction environ arbitrary: cfg)
  case (Cons e environ)
  show ?case
  proof (cases "e = entry")
    case True
    moreover have "map_of (rev index1) (env_path name) = None" using Cons.prems by (simp add: map_of_eq_None_iff)
    ultimately show ?thesis using Cons.prems by (auto simp: is_override_def)
  next
    case False
    then show ?thesis using Cons by (auto split: option.splits prod.splits sum.splits)
  qed
qed simp

locale settings =
  fixes node :: "'t node"
  assumes addressed: "field_at node q = Some f \<Longrightarrow> map_of (rev (indexFields node [])) (join_dots q) = Some f"
    and path_spelled: "field_at node q = Some f \<Longrightarrow>
      CHR ''='' \<notin> set (spelled (join_dots q)) \<and> env_path (EnvPrefix @ spelled (join_dots q)) = join_dots q"
begin

lemma cut_override: "field_at node q = Some f \<Longrightarrow> cut_entry (override (join_dots q) raw) = Some (EnvPrefix @ spelled (join_dots q), raw)"
  using cut_entry_eq [of "EnvPrefix @ spelled (join_dots q)" raw] path_spelled [of q f] by (simp add: override_def)

lemma overrides_set_settings:
  assumes "\<forall>(q, raw)\<in>set ss. field_at node q \<noteq> None"
    and "filter is_override environ = map (\<lambda>(q, raw). override (join_dots q) raw) ss"
  shows "applyEnvironment lib node environ cfg = apply_settings lib node ss cfg"
proof -
  have "apply_entries lib (indexFields node []) (map (\<lambda>(q, raw). override (join_dots q) raw) ss) cfg = apply_settings lib node ss cfg"
    using assms(1)
  proof (induction ss arbitrary: cfg)
    case (Cons s ss)
    obtain q raw where s: "s = (q, raw)" by (cases s)
    with Cons.prems obtain f where f: "field_at node q = Some f" by auto
    then show ?case using Cons s addressed [OF f] path_spelled [OF f] prefix_upper [of "spelled (join_dots q)"]
      by (auto simp: cut_override split: sum.split)
  qed simp
  then show ?thesis using apply_entries_foreign [of lib "indexFields node []" environ cfg] by (simp only: applyEnvironment_def assms(2))
qed

end

lemma parts_field_at: "well_named n \<Longrightarrow> (q, f) \<in> set (parts n) \<longleftrightarrow> field_at n q = Some f"
proof (induction n arbitrary: q f)
  case (Struct ns)
  have sub: "(q', f) \<in> set (parts n) \<longleftrightarrow> field_at n q' = Some f" if "(name, n) \<in> set ns" for name n q'
    using that Struct by (fastforce simp: list_all_iff)
  have look: "map_of (map (map_prod id field_at) ns) name = Some below \<longleftrightarrow> (\<exists>n. (name, n) \<in> set ns \<and> below = field_at n)" for name below
    using Struct.prems by (subst map_of_eq_Some_iff) (force simp: comp_def)+
  have "field_at (Struct ns) q = Some f \<longleftrightarrow>
      (\<exists>name q' below. q = name # q' \<and> map_of (map (map_prod id field_at) ns) name = Some below \<and> below q' = Some f)"
    by (auto split: list.splits option.splits)
  then have "field_at (Struct ns) q = Some f \<longleftrightarrow> (\<exists>name n q'. q = name # q' \<and> (name, n) \<in> set ns \<and> field_at n q' = Some f)"
    unfolding look by blast
  moreover have "(q, f) \<in> set (parts (Struct ns)) \<longleftrightarrow> (\<exists>name n q'. q = name # q' \<and> (name, n) \<in> set ns \<and> (q', f) \<in> set (parts n))"
    by force
  ultimately show ?case using sub by blast
qed auto

lemma index_paths:
  assumes "well_named n" "list_all setting_name q"
  shows "join_dots q \<in> fst ` set (indexFields n []) \<longleftrightarrow> field_at n q \<noteq> None"
proof -
  have "fst ` set (indexFields n []) = join_dots ` fst ` set (parts n)" unfolding indexFields_parts by force
  moreover have "p = q" if "(p, f) \<in> set (parts n)" "join_dots p = join_dots q" for p f
    by (rule join_dots_inj [OF parts_names [OF assms(1) that(1)] assms(2) that(2)])
  then have "join_dots q \<in> join_dots ` fst ` set (parts n) \<longleftrightarrow> q \<in> fst ` set (parts n)" by force
  moreover have "q \<in> fst ` set (parts n) \<longleftrightarrow> field_at n q \<noteq> None"
    using parts_field_at [OF assms(1), of q] by (auto simp: image_iff simp flip: not_None_eq) (metis fst_conv not_None_eq)
  ultimately show ?thesis by simp
qed

lemma well_named_settings:
  assumes "well_named (Struct ns)"
  shows "settings (Struct ns)"
proof
  let ?n = "Struct ns"
  have paths: "indexFields ?n [] = map (map_prod join_dots id) (parts ?n)"
    unfolding indexFields_parts by (intro map_cong) auto
  have "inj_on join_dots (set (map fst (parts ?n)))" using parts_names [OF assms] by (auto intro!: inj_onI join_dots_inj simp del: parts.simps)
  then have "distinct (map join_dots (map fst (parts ?n)))" using distinct_parts [OF assms] by (simp only: distinct_map)
  then have d: "distinct (map fst (rev (indexFields ?n [])))" unfolding paths by (simp add: rev_map [symmetric] comp_def del: parts.simps)
  fix q f assume "field_at ?n q = Some f"
  then have q: "(q, f) \<in> set (parts ?n)" using parts_field_at [OF assms] by blast
  have "(join_dots q, f) \<in> set (rev (indexFields ?n []))" unfolding paths using q by (force simp del: parts.simps)
  then show "map_of (rev (indexFields ?n [])) (join_dots q) = Some f" using map_of_eq_Some_iff [OF d] by blast
  have "q \<noteq> []" using q by auto
  note names = parts_names [OF assms q]
  have "CHR ''='' \<notin> set (spelled (join_dots q))" using names by (intro spelled_no_eq join_dots_chars)
  with env_spelled [OF \<open>q \<noteq> []\<close> names]
  show "CHR ''='' \<notin> set (spelled (join_dots q)) \<and> env_path (EnvPrefix @ spelled (join_dots q)) = join_dots q" by simp
qed

lemmas node_defs = logging_node_def api_auth_node_def operations_node_def jwt_node_def callback_node_def secret_storage_node_def
  security_node_def hub_server_node_def protocol_node_def client_files_node_def server_files_node_def client_auth_node_def
  server_auth_node_def consolidator_client_node_def hub_state_node_def http_retry_node_def store_retry_node_def delivery_node_def
  state_destination_node_def consolidator_state_node_def consolidator_server_node_def kafka_node_def message_store_node_def

lemma hub_node_named: "well_named hub_node"
  by (simp add: hub_node_def node_defs setting_name_def name_char_def byte_def)

lemma consolidator_node_named: "well_named consolidator_node"
  by (simp add: consolidator_node_def node_defs setting_name_def name_char_def byte_def)

interpretation hub_settings: settings hub_node
  using well_named_settings hub_node_named unfolding hub_node_def by blast

interpretation consolidator_settings: settings consolidator_node
  using well_named_settings consolidator_node_named unfolding consolidator_node_def by blast

section \<open>Loading with overrides\<close>

text \<open>(C40) Every setting of a hub can be given in the environment, under its path in upper case with two underscores for
  each dot. Whatever other variables there are, loading takes the defaults, then the file, then the overrides in their
  order, each of which changes the setting it names, and accepts the result if validation does. The second part: an
  override that names no setting is an error, however it is spelled and whatever else is there.\<close>

theorem LoadHub_overrides:
  "((\<forall>(q, raw)\<in>set ss. field_at hub_node q \<noteq> None) \<and> filter is_override environ = map (\<lambda>(q, raw). override (join_dots q) raw) ss \<longrightarrow>
      LoadHub lib read decode path environ =
        (case load_file read decode path HubDefaults of
           Inl err \<Rightarrow> Inl err
         | Inr base \<Rightarrow>
             (case apply_settings lib hub_node ss base of
                Inl err \<Rightarrow> Inl err
              | Inr cfg \<Rightarrow> (case HubConfig_Validate cfg of None \<Rightarrow> Inr cfg | Some err \<Rightarrow> Inl err)))) \<and>
   (entry \<in> set environ \<and> is_override entry \<and> cut_entry entry = Some (name, raw) \<and> env_path name \<notin> fst ` set (indexFields hub_node []) \<longrightarrow>
      (\<exists>err. LoadHub lib read decode path environ = Inl err))"
proof (intro conjI impI; elim conjE)
  assume "\<forall>(q, raw)\<in>set ss. field_at hub_node q \<noteq> None" "filter is_override environ = map (\<lambda>(q, raw). override (join_dots q) raw) ss"
  note hub_settings.overrides_set_settings [OF this, of lib]
  then show "LoadHub lib read decode path environ =
        (case load_file read decode path HubDefaults of
           Inl err \<Rightarrow> Inl err
         | Inr base \<Rightarrow>
             (case apply_settings lib hub_node ss base of
                Inl err \<Rightarrow> Inl err
              | Inr cfg \<Rightarrow> (case HubConfig_Validate cfg of None \<Rightarrow> Inr cfg | Some err \<Rightarrow> Inl err)))"
    by (simp add: LoadHub_def config_load_def split: sum.split option.split)
next
  assume "entry \<in> set environ" "is_override entry" "cut_entry entry = Some (name, raw)"
    "env_path name \<notin> fst ` set (indexFields hub_node [])"
  then have "\<exists>err. applyEnvironment lib hub_node environ cfg = Inl err" for cfg
    unfolding applyEnvironment_def by (intro unknown_override_rejected)
  then show "\<exists>err. LoadHub lib read decode path environ = Inl err"
    unfolding LoadHub_def config_load_def by (metis (no_types, lifting) sum.case sum.exhaust)
qed

lemma hub_paths: "list_all setting_name q \<Longrightarrow> join_dots q \<in> fst ` set (indexFields hub_node []) \<longleftrightarrow> field_at hub_node q \<noteq> None"
  using index_paths [OF hub_node_named] by simp

definition sample_toml :: toml where
  "sample_toml = \<lparr>toml_strings = (\<lambda>_. Inr [''k:9092'']), toml_ints = (\<lambda>_. Inl (Error ''toml''))\<rparr>"

definition sample_environment :: "string list" where
  "sample_environment =
     [''HOME=/root'', ''WEBSUBHUB__SERVER__ID=hub-1'', ''WEBSUBHUB__SERVER__AUTH__MODE=none'', ''WEBSUBHUB'',
      ''WEBSUBHUB__OPERATIONS__AUTH__MODE=none'', ''WEBSUBHUB__MESSAGE_STORE__KAFKA__BROKERS=[]'']"

definition sample_settings :: "(string list \<times> string) list" where
  "sample_settings =
     [([''server'', ''id''], ''hub-1''), ([''server'', ''auth'', ''mode''], ''none''), ([''operations'', ''auth'', ''mode''], ''none''),
      ([''message_store'', ''kafka'', ''brokers''], ''[]'')]"

lemma sample_overrides: "filter is_override sample_environment = map (\<lambda>(q, raw). override (join_dots q) raw) sample_settings"
  by code_simp

lemmas sample_fields = hub_node_def hub_server_node_def operations_node_def api_auth_node_def message_store_node_def kafka_node_def

lemma sample_known: "\<forall>(q, raw)\<in>set sample_settings. field_at hub_node q \<noteq> None"
  by (simp add: sample_settings_def sample_fields)

lemma sample_applied: "apply_settings sample_toml hub_node sample_settings HubDefaults = Inr sample_hub_config"
  by (simp add: sample_settings_def sample_fields sample_toml_def sample_hub_config_def)

lemma sample_loaded: "LoadHub sample_toml read decode [] sample_environment = Inr sample_hub_config"
  using hub_settings.overrides_set_settings [OF sample_known sample_overrides]
  by (simp add: LoadHub_def config_load_def load_file_def sample_applied sample_hub_config_valid)

theorem LoadHub_overrides_witness:
  "LoadHub sample_toml (\<lambda>_. Inl (Error ''no file'')) (\<lambda>_. Inr) [] sample_environment = Inr sample_hub_config \<and>
   (\<exists>err. LoadHub sample_toml (\<lambda>_. Inl (Error ''no file'')) (\<lambda>_. Inr) [] [''websubhub__server__idd=x''] = Inl err)"
proof
  show "LoadHub sample_toml (\<lambda>_. Inl (Error ''no file'')) (\<lambda>_. Inr) [] sample_environment = Inr sample_hub_config"
    using LoadHub_overrides [THEN conjunct1, THEN mp, OF conjI, OF sample_known sample_overrides,
        of sample_toml "\<lambda>_. Inl (Error ''no file'')" "\<lambda>_. Inr" "[]"]
    by (simp add: load_file_def sample_applied sample_hub_config_valid)
  have "is_override ''websubhub__server__idd=x''" "cut_entry ''websubhub__server__idd=x'' = Some (''websubhub__server__idd'', ''x'')"
    "env_path ''websubhub__server__idd'' = ''server.idd''" by code_simp+
  moreover have "''server.idd'' \<notin> fst ` set (indexFields hub_node [])"
    using hub_paths [of "[''server'', ''idd'']"] by (simp add: setting_name_def name_char_def byte_def sample_fields)
  ultimately show "\<exists>err. LoadHub sample_toml (\<lambda>_. Inl (Error ''no file'')) (\<lambda>_. Inr) [] [''websubhub__server__idd=x''] = Inl err"
    by (intro LoadHub_overrides [THEN conjunct2, THEN mp, of "''websubhub__server__idd=x''" _ "''websubhub__server__idd''" "''x''"]) simp
qed

end
