(* ===== verification/Commands.thy ===== *)
theory Commands
  imports Processes Observe Environment
begin

text \<open>
  The command line of the two processes (\<open>internal/command/command.go\<close>, \<open>internal/buildinfo\<close> and the main packages):
  flags, the version, loading the configuration, starting the process and the exit code. What a command does is a list
  of outputs in their order; the run of the process is one of them.
\<close>

section \<open>Flags\<close>

text \<open>The two flags of \<open>RunContext\<close>, parsed as \<open>flag.FlagSet.Parse\<close> parses them: \<^const>\<open>None\<close> is any error, the request for
  help included. The result is the version flag, the configuration path and the remaining arguments.\<close>

record Flags =
  showVersion :: bool
  configPath :: string
  flag_Args :: "string list"

text \<open>A flag's name and its value, if it has one; \<^const>\<open>None\<close> is a syntax error.\<close>

definition flag_split :: "string \<Rightarrow> (string \<times> string option) option" where
  "flag_split s =
     (let name = (if 2 \<le> length s \<and> s ! 1 = CHR ''-'' then drop 2 s else drop 1 s) in
      if name = [] \<or> hd name = CHR ''-'' \<or> hd name = CHR ''='' then None
      else let n = length (takeWhile (\<lambda>c. c \<noteq> CHR ''='') name) in
        Some (take n name, if n < length name then Some (drop (Suc n) name) else None))"

fun flags_Parse :: "string list \<Rightarrow> Flags \<Rightarrow> Flags option" where
  "flags_Parse [] f = Some (f\<lparr>flag_Args := []\<rparr>)"
| "flags_Parse (s # args) f =
     (if length s < 2 \<or> hd s \<noteq> CHR ''-'' then Some (f\<lparr>flag_Args := s # args\<rparr>)
      else if s = ''--'' then Some (f\<lparr>flag_Args := args\<rparr>)
      else case flag_split s of
          None \<Rightarrow> None
        | Some (name, given) \<Rightarrow>
            if name = ''version''
            then (case (case given of None \<Rightarrow> Some True | Some raw \<Rightarrow> ParseBool raw) of
                    None \<Rightarrow> None
                  | Some b \<Rightarrow> flags_Parse args (f\<lparr>showVersion := b\<rparr>))
            else if name = ''config''
            then (case given of
                    Some raw \<Rightarrow> flags_Parse args (f\<lparr>configPath := raw\<rparr>)
                  | None \<Rightarrow> (case args of [] \<Rightarrow> None | raw # rest \<Rightarrow> flags_Parse rest (f\<lparr>configPath := raw\<rparr>)))
            else None)"

section \<open>Outputs\<close>

record Info =
  info_Version :: string
  info_Commit :: string
  info_Date :: string

definition Info_String :: "Info \<Rightarrow> string" where
  "Info_String i = ''version='' @ info_Version i @ '' commit='' @ info_Commit i @ '' date='' @ info_Date i"

record log_line =
  ln_Level :: int
  ln_Msg :: log_attr
  ln_Attrs :: "log_attr list"

datatype emission = Usage | Stderr string | Stdout string | Logged log_line | Ran "lifecycle list"

text \<open>A logger has a level and the component it adds to each line.\<close>

type_synonym logger = "int \<times> string"

definition log_attrs :: "(string \<times> string) list \<Rightarrow> log_attr list" where
  "log_attrs kvs = filter (\<lambda>a. a \<noteq> dropped) (map (\<lambda>(k, v). replaceAttribute [] \<lparr>at_Key = k, at_Value = LogString v\<rparr>) kvs)"

definition write_log :: "logger \<Rightarrow> int \<Rightarrow> string \<Rightarrow> (string \<times> string) list \<Rightarrow> emission list" where
  "write_log lg level msg kvs =
     (if level < fst lg then []
      else [Logged \<lparr>ln_Level = level, ln_Msg = replaceAttribute [] \<lparr>at_Key = ''msg'', at_Value = LogString msg\<rparr>,
              ln_Attrs = log_attrs ((''component'', snd lg) # kvs)\<rparr>])"

abbreviation LevelInfo :: int where "LevelInfo \<equiv> 0"
abbreviation LevelWarn :: int where "LevelWarn \<equiv> 4"
abbreviation LevelError :: int where "LevelError \<equiv> 8"

definition configuredLogger :: "string \<Rightarrow> string \<Rightarrow> logger" where
  "configuredLogger component levelName =
     ((case log_Level levelName of Inl _ \<Rightarrow> LevelInfo | Inr level \<Rightarrow> level), component)"

definition logProcessStarting :: "logger \<Rightarrow> Info \<Rightarrow> string \<Rightarrow> emission list" where
  "logProcessStarting lg build prov = write_log lg LevelInfo ''process starting''
     [(''operation'', ''process_starting''), (''provider'', prov), (''version'', info_Version build),
      (''commit'', info_Commit build), (''build_date'', info_Date build)]"

definition auth_warning :: "logger \<Rightarrow> string \<Rightarrow> emission list" where
  "auth_warning lg surface = write_log lg LevelWarn ''API authentication is disabled''
     [(''operation'', ''authentication_disabled''), (''surface'', surface), (''auth_mode'', AuthModeNone)]"

definition writeAuthenticationWarnings :: "logger \<Rightarrow> HubConfig \<Rightarrow> emission list" where
  "writeAuthenticationWarnings lg cfg =
     (if api_Mode (srv_Auth (hub_Server cfg)) = AuthModeNone then auth_warning lg ''public'' else []) @
     (if api_Mode (op_Auth (Operations cfg)) = AuthModeNone then auth_warning lg ''operations'' else [])"

section \<open>The command\<close>

text \<open>What a run of a process adds to the outputs, and the exit code.\<close>

definition finish :: "logger \<Rightarrow> emission list \<Rightarrow> lifecycle list \<times> goerr option \<Rightarrow> emission list \<times> int" where
  "finish lg out run =
     (case run of
        (tr, Some _) \<Rightarrow>
          (out @ [Ran tr] @ write_log lg LevelError ''process failed'' [(''operation'', ''process_failed''), (''error_class'', ''runtime'')], 1)
      | (tr, None) \<Rightarrow> (out @ [Ran tr] @ write_log lg LevelInfo ''process stopped'' [(''operation'', ''process_stopped'')], 0))"

definition rejected_configuration :: "logger \<Rightarrow> emission list \<times> int" where
  "rejected_configuration lg =
     (write_log lg LevelError ''configuration rejected'' [(''operation'', ''configuration_load''), (''error_class'', ''configuration'')], 1)"

text \<open>The libraries and the file system as the command meets them.\<close>

record command_env =
  cmd_toml :: toml
  cmd_read :: "string \<Rightarrow> string result"
  cmd_decodeHub :: "string \<Rightarrow> HubConfig \<Rightarrow> HubConfig result"
  cmd_decodeConsolidator :: "string \<Rightarrow> ConsolidatorConfig \<Rightarrow> ConsolidatorConfig result"
  cmd_build :: Info

definition hub_command ::
  "command_env \<Rightarrow> ('w, 'c, 'cert, 'pool, 'alg, 'key, 'set, 'h) hub_boot \<Rightarrow> 'w \<Rightarrow> string \<Rightarrow> string \<Rightarrow> string list \<Rightarrow> emission list \<times> int" where
  "hub_command env b w component path environ =
     (case LoadHub (cmd_toml env) (cmd_read env) (cmd_decodeHub env) path environ of
        Inl _ \<Rightarrow> rejected_configuration (LevelInfo, component)
      | Inr cfg \<Rightarrow>
          let lg = configuredLogger component (Level (hub_Logging cfg)) in
          finish lg (writeAuthenticationWarnings lg cfg @ logProcessStarting lg (cmd_build env) (ms_Provider (hub_MessageStore cfg)))
            (RunHub b cfg w))"

definition consolidator_command ::
  "command_env \<Rightarrow> ('w, 'c, 'cert, 'pool) boot \<Rightarrow> poll list \<Rightarrow> 'w \<Rightarrow> string \<Rightarrow> string \<Rightarrow> string list \<Rightarrow> (emission list \<times> int) option" where
  "consolidator_command env b polls w component path environ =
     (case LoadConsolidator (cmd_toml env) (cmd_read env) (cmd_decodeConsolidator env) path environ of
        Inl _ \<Rightarrow> Some (rejected_configuration (LevelInfo, component))
      | Inr cfg \<Rightarrow>
          let lg = configuredLogger component (Level (con_Logging cfg)) in
          map_option (finish lg (logProcessStarting lg (cmd_build env) (ms_Provider (con_MessageStore cfg))))
            (RunConsolidator b polls cfg w))"

fun join_spaces :: "string list \<Rightarrow> string" where
  "join_spaces [] = []"
| "join_spaces [s] = s"
| "join_spaces (s # t # ss) = s @ '' '' @ join_spaces (t # ss)"

definition no_flags :: Flags where
  "no_flags = \<lparr>showVersion = False, configPath = [], flag_Args = []\<rparr>"

definition RunContext ::
  "command_env \<Rightarrow> ('w, 'c, 'cert, 'pool, 'alg, 'key, 'set, 'h) hub_boot \<Rightarrow> ('w, 'c, 'cert, 'pool) boot \<Rightarrow> poll list \<Rightarrow> 'w \<Rightarrow>
   string \<Rightarrow> string list \<Rightarrow> string list \<Rightarrow> (emission list \<times> int) option" where
  "RunContext env hb b polls w component args environ =
     (case flags_Parse args no_flags of
        None \<Rightarrow> Some ([Usage], 2)
      | Some flags \<Rightarrow>
          if flag_Args flags \<noteq> []
          then Some ([Stderr (component @ '': unexpected arguments: ['' @ join_spaces (flag_Args flags) @ '']'' @ [CHR 0x0A])], 2)
          else if showVersion flags
          then Some ([Stdout (component @ '' '' @ Info_String (cmd_build env) @ [CHR 0x0A])], 0)
          else if component = ''websubhub'' then Some (hub_command env hb w component (configPath flags) environ)
          else if component = ''websubhub-consolidator'' then consolidator_command env b polls w component (configPath flags) environ
          else Some (write_log (LevelInfo, component) LevelError ''unknown component''
                       [(''operation'', ''component_selection''), (''error_class'', ''configuration'')], 1))"

section \<open>What a command guarantees\<close>

lemma write_log_not_Ran [simp]: "Ran tr \<notin> set (write_log lg level msg kvs)"
  by (simp add: write_log_def)

lemma Ran_finish: "Ran tr \<in> set (fst (finish lg out run)) \<longleftrightarrow> Ran tr \<in> set out \<or> tr = fst run"
  by (cases run; cases "snd run") (auto simp: finish_def)

lemma LoadHub_valid: "LoadHub lib read decode path environ = Inr cfg \<Longrightarrow> HubConfig_Validate cfg = None"
  by (auto simp: LoadHub_def config_load_def split: sum.splits option.splits)

text \<open>A warning is written unless only errors are.\<close>

definition warns :: "emission list \<Rightarrow> string \<Rightarrow> bool" where
  "warns out surface \<longleftrightarrow> (\<exists>l. Logged l \<in> set out \<and> ln_Level l = LevelWarn \<and>
     \<lparr>at_Key = ''surface'', at_Value = LogString surface\<rparr> \<in> set (ln_Attrs l))"

lemma auth_warning_warns:
  assumes "fst lg \<le> LevelWarn" "surface = ''public'' \<or> surface = ''operations''"
  shows "warns (auth_warning lg surface) surface"
  using assms by (auto simp: warns_def auth_warning_def write_log_def log_attrs_def replaceAttribute_def allowedLogAttributes_def
      truncateAttribute_def blank_def byte_def dropped_def)

lemma configuredLogger_level: "levelName \<noteq> ''error'' \<Longrightarrow> fst (configuredLogger component levelName) \<le> LevelWarn"
  by (auto simp: configuredLogger_def log_Level_def)

lemma authentication_warnings:
  assumes "fst lg \<le> LevelWarn"
  shows "(api_Mode (srv_Auth (hub_Server cfg)) = AuthModeNone \<longrightarrow> warns (writeAuthenticationWarnings lg cfg @ out) ''public'') \<and>
    (api_Mode (op_Auth (Operations cfg)) = AuthModeNone \<longrightarrow> warns (writeAuthenticationWarnings lg cfg @ out) ''operations'')"
  using auth_warning_warns [OF assms] by (auto simp: writeAuthenticationWarnings_def warns_def)

lemma finish_split:
  "\<exists>post. fst (finish lg out run) = out @ Ran (fst run) # post" "snd (finish lg out run) = 0 \<longleftrightarrow> snd run = None"
  by (auto simp: finish_def split: prod.split option.split)

lemma hub_command_loaded:
  assumes "LoadHub (cmd_toml env) (cmd_read env) (cmd_decodeHub env) path environ = Inr cfg"
  shows "\<exists>pre post. fst (hub_command env b w component path environ) = pre @ Ran (fst (RunHub b cfg w)) # post \<and>
    (snd (hub_command env b w component path environ) = 0 \<longleftrightarrow> snd (RunHub b cfg w) = None) \<and>
    (Level (hub_Logging cfg) \<noteq> ''error'' \<longrightarrow>
      (api_Mode (srv_Auth (hub_Server cfg)) = AuthModeNone \<longrightarrow> warns pre ''public'') \<and>
      (api_Mode (op_Auth (Operations cfg)) = AuthModeNone \<longrightarrow> warns pre ''operations''))"
proof -
  let ?lg = "configuredLogger component (Level (hub_Logging cfg))"
  let ?pre = "writeAuthenticationWarnings ?lg cfg @ logProcessStarting ?lg (cmd_build env) (ms_Provider (hub_MessageStore cfg))"
  have cmd: "hub_command env b w component path environ = finish ?lg ?pre (RunHub b cfg w)"
    using assms by (simp add: hub_command_def Let_def)
  obtain post where "fst (finish ?lg ?pre (RunHub b cfg w)) = ?pre @ Ran (fst (RunHub b cfg w)) # post"
    using finish_split(1) by blast
  moreover have "Level (hub_Logging cfg) \<noteq> ''error'' \<longrightarrow>
      (api_Mode (srv_Auth (hub_Server cfg)) = AuthModeNone \<longrightarrow> warns ?pre ''public'') \<and>
      (api_Mode (op_Auth (Operations cfg)) = AuthModeNone \<longrightarrow> warns ?pre ''operations'')"
    using authentication_warnings [OF configuredLogger_level] by blast
  ultimately show ?thesis unfolding cmd using finish_split(2) by blast
qed


definition sample_command :: command_env where
  "sample_command = \<lparr>cmd_toml = sample_toml, cmd_read = (\<lambda>_. Inl (Error ''no file'')), cmd_decodeHub = (\<lambda>_. Inr),
     cmd_decodeConsolidator = (\<lambda>_. Inr), cmd_build = \<lparr>info_Version = ''dev'', info_Commit = ''unknown'', info_Date = ''unknown''\<rparr>\<rparr>"


end
