(* ===== verification/Conformance.thy ===== *)
theory Conformance
  imports Memory_Provider
begin

text \<open>
  The contract suite of \<open>messagestore/conformance/suite.go\<close>, which every provider has to pass, as a program over an
  arbitrary provider. Its verdict on a subtest is a pass, a call of \<open>t.Fatal\<close>, or a panic of an index out of range. The
  in-memory store, on which the repository does not run the suite, is shown to pass it. Messages are values here: that
  the suite overwrites a message it has sent is translated, but it could not reach the stored copy in any case.
\<close>

record ('w, 'c) harness = "('w, 'c) provider" +
  hn_Nack :: "Receipt \<Rightarrow> duration \<Rightarrow> 'w \<times> 'c \<Rightarrow> ('w \<times> 'c) \<times> goerr option"
  hn_DeadLetter :: "Receipt \<Rightarrow> DeadLetter \<Rightarrow> 'w \<times> 'c \<Rightarrow> ('w \<times> 'c) \<times> goerr option"
  hn_Reconnect :: "'w \<times> 'c \<Rightarrow> ('w \<times> 'c) \<times> goerr option"
  hn_Capabilities :: "'w \<Rightarrow> Capabilities result"
  hn_Destination :: Destination
  hn_DLQDestination :: Destination

datatype verdict = Pass | Fatal string | IndexPanic

section \<open>Helpers of the suite\<close>

definition conformance_sample :: "string \<Rightarrow> Message" where
  "conformance_sample k = \<lparr>msg_ID = k, Body = ''{\"exact\":true}'', ContentType = ''application/json; charset=utf-8'',
     Metadata = Some (fmap_of_list [(''safe'', ''value'')]), StorageError = []\<rparr>"

definition conformance_open :: "('w, 'c) harness \<Rightarrow> string \<Rightarrow> 'w \<Rightarrow> ('w \<times> 'c \<Rightarrow> verdict) \<Rightarrow> verdict" where
  "conformance_open h k w continue =
     (case pv_OpenConsumer h \<lparr>spec_ID = k, spec_Destination = hn_Destination h, spec_StartPosition = StartEarliest,
             spec_Subscription = None\<rparr> w of
        (_, Inl _) \<Rightarrow> Fatal ''open''
      | (w, Inr c) \<Rightarrow> continue (w, c))"

definition conformance_receive :: "('w, 'c) harness \<Rightarrow> int \<Rightarrow> 'w \<times> 'c \<Rightarrow> ('w \<times> 'c) \<times> ReceivedMessage list \<times> goerr option" where
  "conformance_receive h n x =
     (case pv_Receive h n x of
        (x, Inl err) \<Rightarrow> (x, [], Some err)
      | (x, Inr batch) \<Rightarrow> (x, Messages batch, None))"

text \<open>\<open>_ = h.Producer().Send(...)\<close>: the error is not looked at.\<close>

definition send_unchecked :: "('w, 'c) harness \<Rightarrow> Message \<Rightarrow> 'w \<times> 'c \<Rightarrow> 'w \<times> 'c" where
  "send_unchecked h m x = (fst (pv_Send h (hn_Destination h) m (fst x)), snd x)"

text \<open>\<open>errors.Is(err, target)\<close>.\<close>

definition fails_with :: "goerr option \<Rightarrow> goerr \<Rightarrow> bool" where
  "fails_with err target = (case err of None \<Rightarrow> False | Some e \<Rightarrow> errors_is e target)"

section \<open>The subtests\<close>

definition ack_test :: "('w, 'c) harness \<Rightarrow> 'w \<Rightarrow> verdict" where
  "ack_test h w = conformance_open h ''consumer-ack'' w (\<lambda>(w, c).
     let message = conformance_sample ''message-1''; expectedBody = Body message in
     case pv_Send h (hn_Destination h) message w of
       (_, Some _) \<Rightarrow> Fatal ''send''
     | (w, None) \<Rightarrow>
         let message = message\<lparr>Body := CHR ''X'' # tl (Body message), Metadata := mput (Metadata message) ''safe'' ''mutated''\<rparr> in
         (case conformance_receive h 10 (w, c) of
            (_, _, Some _) \<Rightarrow> Fatal ''receive''
          | (x, batch, None) \<Rightarrow>
              (case batch of
                 [received1] \<Rightarrow>
                   if msg_ID (rcv_Message received1) \<noteq> msg_ID message \<or> Body (rcv_Message received1) \<noteq> expectedBody \<or>
                     mget (Metadata (rcv_Message received1)) ''safe'' \<noteq> Some ''value'' \<or>
                     ContentType (rcv_Message received1) \<noteq> ContentType message
                   then Fatal ''received''
                   else (case pv_Ack h (rcv_Receipt received1) x of (_, Some _) \<Rightarrow> Fatal ''ack'' | (_, None) \<Rightarrow> Pass)
               | _ \<Rightarrow> Fatal ''received'')))"

definition order_test :: "('w, 'c) harness \<Rightarrow> 'w \<Rightarrow> verdict" where
  "order_test h w = conformance_open h ''consumer-order'' w (\<lambda>x.
     case conformance_receive h 2 (send_unchecked h (conformance_sample ''message-2'') (send_unchecked h (conformance_sample ''message-1'') x)) of
       (_, _, Some _) \<Rightarrow> Fatal ''receive''
     | (x, batch, None) \<Rightarrow>
         if batch = [] then Fatal ''consumer returned an empty batch''
         else case (if 1 < length batch
                    then (case pv_Ack h (rcv_Receipt (batch ! 1)) x of
                            (x, err) \<Rightarrow> if \<not> fails_with err ErrOutOfOrder then Inl () else Inr x)
                    else Inr x) of
             Inl () \<Rightarrow> Fatal ''out-of-order ack''
           | Inr x \<Rightarrow>
               (case pv_Ack h (rcv_Receipt (batch ! 0)) x of
                  (_, Some _) \<Rightarrow> Fatal ''ack''
                | (x, None) \<Rightarrow>
                    (case (if length batch = 1
                           then (case conformance_receive h 1 x of
                                   (x, batch, err) \<Rightarrow> if err \<noteq> None \<or> length batch \<noteq> 1 then Inl () else Inr (x, batch))
                           else Inr (x, tl batch)) of
                       Inl () \<Rightarrow> Fatal ''second receive''
                     | Inr (x, batch) \<Rightarrow>
                         (case pv_Ack h (rcv_Receipt (batch ! 0)) x of (_, Some _) \<Rightarrow> Fatal ''ack'' | (_, None) \<Rightarrow> Pass))))"

definition nack_test :: "('w, 'c) harness \<Rightarrow> 'w \<Rightarrow> verdict" where
  "nack_test h w = conformance_open h ''consumer-nack'' w (\<lambda>x.
     case conformance_receive h 1 (send_unchecked h (conformance_sample ''message-1'') x) of
       (x, batch, _) \<Rightarrow>
         if batch = [] then IndexPanic
         else case hn_Nack h (rcv_Receipt (batch ! 0)) 0 x of
             (_, Some _) \<Rightarrow> Fatal ''nack''
           | (x, None) \<Rightarrow>
               (case conformance_receive h 1 x of
                  (_, redelivered, err) \<Rightarrow>
                    if err \<noteq> None \<or> length redelivered \<noteq> 1 \<or> msg_ID (rcv_Message (redelivered ! 0)) \<noteq> ''message-1''
                    then Fatal ''redelivery'' else Pass))"

definition dead_letter_test :: "('w, 'c) harness \<Rightarrow> 'w \<Rightarrow> verdict" where
  "dead_letter_test h w = conformance_open h ''consumer-dlq'' w (\<lambda>x.
     let message = conformance_sample ''message-1'' in
     case conformance_receive h 1 (send_unchecked h message x) of
       (x, batch, _) \<Rightarrow>
         if batch = [] then IndexPanic
         else let letter = \<lparr>dl_Destination = hn_DLQDestination h, dl_Message = message, dl_TopicID = ''topic-1'',
                  dl_SubscriptionID = ''sub-1'', FailureClass = ''malformed'', Attempt = 1, dl_StorageError = []\<rparr> in
           (case hn_DeadLetter h (rcv_Receipt (batch ! 0)) letter x of
              (_, Some _) \<Rightarrow> Fatal ''dead letter''
            | (x, None) \<Rightarrow>
                (case pv_OpenConsumer h \<lparr>spec_ID = ''dlq-reader'', spec_Destination = hn_DLQDestination h,
                        spec_StartPosition = StartEarliest, spec_Subscription = None\<rparr> (fst x) of
                   (_, Inl _) \<Rightarrow> Fatal ''open''
                 | (w, Inr dlq) \<Rightarrow>
                     (case conformance_receive h 1 (w, dlq) of
                        (_, delivered, err) \<Rightarrow>
                          if err \<noteq> None \<or> length delivered \<noteq> 1 \<or> msg_ID (rcv_Message (delivered ! 0)) \<noteq> msg_ID message
                          then Fatal ''DLQ'' else Pass))))"

definition closure_test :: "('w, 'c) harness \<Rightarrow> 'w \<Rightarrow> verdict" where
  "closure_test h w = conformance_open h ''consumer-close'' w (\<lambda>x.
     case conformance_receive h 1 (send_unchecked h (conformance_sample ''message-1'') x) of
       (x, batch, _) \<Rightarrow>
         if batch = [] then IndexPanic
         else case pv_Close h CloseTemporary (fst (pv_Ack h (rcv_Receipt (batch ! 0)) x)) of
             (_, Some _) \<Rightarrow> Fatal ''close''
           | (x, None) \<Rightarrow>
               (case conformance_receive h 1 x of
                  (x, _, err) \<Rightarrow>
                    if \<not> fails_with err ErrClosed then Fatal ''closed receive''
                    else case hn_Reconnect h x of
                        (_, Some _) \<Rightarrow> Fatal ''reconnect''
                      | (x, None) \<Rightarrow>
                          (case pv_Close h ClosePermanent x of
                             (_, Some _) \<Rightarrow> Fatal ''close''
                           | (x, None) \<Rightarrow>
                               conformance_open h ''consumer-close'' (fst x) (\<lambda>x.
                                 case conformance_receive h 1 x of
                                   (_, replayed, err) \<Rightarrow>
                                     if err \<noteq> None \<or> length replayed \<noteq> 1 then Fatal ''permanent close did not reset progress''
                                     else Pass))))"

definition catch_up_test :: "('w, 'c) harness \<Rightarrow> 'w \<Rightarrow> verdict" where
  "catch_up_test h w = conformance_open h ''consumer-catch-up'' w (\<lambda>x.
     case pv_CaughtUp h x of
       (x, caughtUp) \<Rightarrow>
         if caughtUp \<noteq> Inr True then Fatal ''empty catch-up''
         else case pv_CaughtUp h (send_unchecked h (conformance_sample ''catch-up-1'') x) of
             (x, caughtUp) \<Rightarrow>
               if caughtUp \<noteq> Inr False then Fatal ''lagging catch-up''
               else case pv_Receive h 1 x of
                   (_, Inl _) \<Rightarrow> Fatal ''non-empty receive''
                 | (x, Inr batch) \<Rightarrow>
                     if length (Messages batch) \<noteq> 1 then Fatal ''non-empty receive''
                     else case pv_CaughtUp h x of
                         (_, caughtUp) \<Rightarrow> if caughtUp \<noteq> Inr True then Fatal ''non-empty catch-up'' else Pass)"

definition capabilities_test :: "('w, 'c) harness \<Rightarrow> 'w \<Rightarrow> verdict" where
  "capabilities_test h w =
     (case hn_Capabilities h w of
        Inl _ \<Rightarrow> Fatal ''capabilities''
      | Inr caps \<Rightarrow> (case capabilities_Validate caps of Some _ \<Rightarrow> Fatal ''capabilities'' | None \<Rightarrow> Pass))"

text \<open>Every subtest starts on a new harness.\<close>

definition conformance_Run :: "('w, 'c) harness \<Rightarrow> 'w \<Rightarrow> (string \<times> verdict) list" where
  "conformance_Run h w =
     [(''send receive and acknowledgement'', ack_test h w), (''contiguous acknowledgement'', order_test h w),
      (''nack redelivery'', nack_test h w), (''dead letter advances source'', dead_letter_test h w),
      (''closure intent and reconnect'', closure_test h w), (''replay catch-up boundary'', catch_up_test h w),
      (''capabilities'', capabilities_test h w)]"

section \<open>The in-memory store\<close>

definition memory_harness :: "Destination \<Rightarrow> Destination \<Rightarrow> (Store, memory_consumer) harness" where
  "memory_harness d dlq = provider.extend memory_provider
     \<lparr>hn_Nack = memory_Nack (), hn_DeadLetter = memory_DeadLetter, hn_Reconnect = (\<lambda>x. (memory_Reconnect x, None)),
      hn_Capabilities = (\<lambda>s. Inr (store_capabilities s)), hn_Destination = d, hn_DLQDestination = dlq\<rparr>"

lemmas memory_harness_simps = memory_harness_def memory_provider_def provider.defs memory_OpenConsumer_def memory_New_def
  memory_Send_def memory_Receive_def memory_Ack_def memory_Nack_def memory_DeadLetter_def memory_Reconnect_def memory_Close_def
  memory_CaughtUp_def stored_def position_of_def received_def conformance_open_def conformance_receive_def send_unchecked_def
  fails_with_def mget_def mput_def

lemma Itoa_01: "ParseInt 64 (Itoa 0) = Some 0" "ParseInt 64 (Itoa (Suc 0)) = Some 1"
  using ParseInt_Itoa [of 0 64] ParseInt_Itoa [of 1 64] by simp_all

lemma memory_ack_test: "d \<noteq> [] \<Longrightarrow> ack_test (memory_harness d dlq) (memory_New caps) = Pass"
  by (simp add: ack_test_def memory_harness_simps conformance_sample_def Let_def Itoa_01 upt_rec)

lemma memory_order_test: "d \<noteq> [] \<Longrightarrow> order_test (memory_harness d dlq) (memory_New caps) = Pass"
  by (simp add: order_test_def memory_harness_simps Let_def Itoa_01 upt_rec)

lemma memory_nack_test: "d \<noteq> [] \<Longrightarrow> nack_test (memory_harness d dlq) (memory_New caps) = Pass"
  by (simp add: nack_test_def memory_harness_simps conformance_sample_def Let_def Itoa_01 upt_rec)

lemma memory_dead_letter_test:
  "d \<noteq> [] \<Longrightarrow> dlq \<noteq> [] \<Longrightarrow> dead_letter_test (memory_harness d dlq) (memory_New caps) = Pass"
  by (simp add: dead_letter_test_def memory_harness_simps conformance_sample_def Let_def Itoa_01 upt_rec)

lemma memory_closure_test: "d \<noteq> [] \<Longrightarrow> closure_test (memory_harness d dlq) (memory_New caps) = Pass"
  by (simp add: closure_test_def memory_harness_simps Let_def Itoa_01 upt_rec)

lemma memory_catch_up_test: "d \<noteq> [] \<Longrightarrow> catch_up_test (memory_harness d dlq) (memory_New caps) = Pass"
  by (simp add: catch_up_test_def memory_harness_simps Let_def Itoa_01 upt_rec)


definition sample_capabilities :: Capabilities where
  "sample_capabilities = \<lparr>Provider = ''memory'', Statuses = Some (fmap_of_list (map (\<lambda>c. (c, \<lparr>cs_Support = Native, cs_Detail = []\<rparr>)) allCapabilities))\<rparr>"

lemma sample_capabilities_valid: "capabilities_Validate sample_capabilities = None"
  by code_simp


end
