(* ===== verification/Delivery_Path.thy ===== *)
theory Delivery_Path
  imports Worker_Props Resource_Hub Memory_Provider
begin

text \<open>
  The way of content through the hub, from a publication to the request a subscriber receives: content ingestion stores it
  under the topic's destination, a worker reads that destination, and the adapter to the protocol library
  (\<open>LibraryAttemptFactory\<close> of \<open>internal/delivery/worker.go\<close>) sends it. The library's delivery client is an argument.
\<close>

section \<open>The delivery client\<close>

abbreviation HeaderMessageID :: string where "HeaderMessageID \<equiv> ''X-Hub-MessageId''"

record client_subscription =
  cls_Hub :: string
  cls_Mode :: string
  cls_Topic :: string
  cls_Callback :: string
  cls_Secret :: string

record 'http DeliveryConfig =
  dc_HTTPClient :: 'http
  dc_Timeout :: duration
  dc_MaxResponseBody :: int

record ContentDistribution =
  cd_ContentType :: string
  cd_Body :: string
  cd_Header :: "(string \<times> string list) list"

record ('http, 'client) delivery_library =
  lib_NewDeliveryClient :: "client_subscription \<Rightarrow> 'http DeliveryConfig \<Rightarrow> 'client result"
  lib_Deliver :: "'client \<Rightarrow> ContentDistribution \<Rightarrow> int \<times> goerr option"

record 'http LibraryAttemptFactory =
  laf_HubURL :: string
  laf_HTTPClient :: "'http option"
  laf_Timeout :: duration
  laf_MaxResponseBody :: int

record 'client libraryAttempt =
  la_client :: 'client
  la_contentType :: string

definition LibraryAttemptFactory_New ::
  "('http, 'client) delivery_library \<Rightarrow> 'http LibraryAttemptFactory \<Rightarrow> Topic \<Rightarrow> Subscription \<Rightarrow> string \<Rightarrow> 'client libraryAttempt result" where
  "LibraryAttemptFactory_New lib f topic sub secret =
     (case laf_HTTPClient f of
        None \<Rightarrow> Inl (Error ''policy-controlled callback HTTP client is required'')
      | Some http \<Rightarrow>
          (case lib_NewDeliveryClient lib
                 \<lparr>cls_Hub = laf_HubURL f, cls_Mode = ''subscribe'', cls_Topic = TopicURL sub, cls_Callback = CallbackURL sub, cls_Secret = secret\<rparr>
                 \<lparr>dc_HTTPClient = http, dc_Timeout = laf_Timeout f, dc_MaxResponseBody = laf_MaxResponseBody f\<rparr> of
             Inl err \<Rightarrow> Inl err
           | Inr client \<Rightarrow> Inr \<lparr>la_client = client, la_contentType = topic_ContentType topic\<rparr>))"

definition distribution :: "'client libraryAttempt \<Rightarrow> Message \<Rightarrow> ContentDistribution" where
  "distribution a m = \<lparr>cd_ContentType = la_contentType a, cd_Body = Body m, cd_Header = [(HeaderMessageID, [msg_ID m])]\<rparr>"

definition libraryAttempt_Deliver :: "('http, 'client) delivery_library \<Rightarrow> 'client libraryAttempt \<Rightarrow> Message \<Rightarrow> int \<times> goerr option" where
  "libraryAttempt_Deliver lib a m = lib_Deliver lib (la_client a) (distribution a m)"

section \<open>Names of topics\<close>

text \<open>A topic under the names of the layout, and an event that registers only such topics.\<close>

definition laid_out_topic :: "Topic \<Rightarrow> bool" where
  "laid_out_topic t \<longleftrightarrow> TopicID (CanonicalURL t) = Inr (topic_ID t) \<and> ContentDestination_of (CanonicalURL t) = Inr (ContentDestination t)"

definition event_laid_out :: "event \<Rightarrow> bool" where
  "event_laid_out e = (case e of TopicRegistered _ t \<Rightarrow> laid_out_topic t | _ \<Rightarrow> True)"

definition laid_out :: "Snapshot \<Rightarrow> bool" where
  "laid_out s \<longleftrightarrow> (\<forall>k t. mget (Topics s) k = Some t \<longrightarrow> laid_out_topic t \<and> topic_ID t = k)"

lemma handler_lays_out: "handle env req = (Some e, res) \<Longrightarrow> event_laid_out e"
  by (cases req) (auto simp: registerTopic_Some deregisterTopic_Some subscriptionVerified_Some unsubscriptionVerified_Some
      append_answer_Some event_laid_out_def laid_out_topic_def)

lemma laid_out_put:
  "laid_out s \<Longrightarrow> laid_out_topic t \<Longrightarrow> topic_ID t = k \<Longrightarrow> laid_out ((put_topic s k (t\<lparr>topic_Revision := r\<rparr>))\<lparr>snap_Revision := r'\<rparr>)"
  "laid_out s \<Longrightarrow> laid_out ((put_subscription s k b)\<lparr>snap_Revision := r'\<rparr>)"
  by (auto simp: laid_out_def laid_out_topic_def)

lemma apply_event_laid_out:
  assumes "apply_event s e = Inr (n, True)" "laid_out s" "event_laid_out e"
  shows "(\<exists>k t. event_topic e = Some k \<and> n = put_topic s k t \<and> laid_out_topic t \<and> topic_ID t = k) \<or>
         (\<exists>k b. event_subscription e = Some k \<and> n = put_subscription s k b)"
  using assms by (cases e)
    (auto simp: event_laid_out_def laid_out_def laid_out_topic_def removeSubscription_def invalid_transition_def Let_def verified_value_def
      split: if_splits option.splits sum.splits)

lemma reducer_step_laid_out:
  assumes "reducer_step s e = Inr (s', c)" "laid_out s" "event_laid_out e"
  shows "laid_out s'"
  using assms(1) unfolding reducer_step_def
proof (cases rule: Reducer_ApplyE)
  case (changed n)
  from apply_event_laid_out [OF changed(4) assms(2,3)] show ?thesis
    using changed(5) assms(2) by (auto simp: stampRevision_shape stamp_put laid_out_put)
qed (use assms(2) in simp)

section \<open>States of one log\<close>

definition state_at :: "event list \<Rightarrow> nat \<Rightarrow> Snapshot \<Rightarrow> bool" where
  "state_at log n s \<longleftrightarrow> fold_events reducer_step EmptySnapshot (take n log) = Inr s"

lemma fold_laid_out:
  "fold_events reducer_step s es = Inr s' \<Longrightarrow> laid_out s \<Longrightarrow> \<forall>e\<in>set es. event_laid_out e \<Longrightarrow> laid_out s'"
  by (induction es arbitrary: s) (auto split: sum.splits dest: reducer_step_laid_out)

lemma state_at_laid_out:
  assumes "state_at log n s" "\<forall>e\<in>set log. event_laid_out e"
  shows "laid_out s"
proof (rule fold_laid_out)
  show "fold_events reducer_step EmptySnapshot (take n log) = Inr s" using assms(1) by (simp add: state_at_def)
  show "laid_out EmptySnapshot" by (simp add: laid_out_def EmptySnapshot_def mget_Some)
  show "\<forall>e\<in>set (take n log). event_laid_out e" using assms(2) by (auto dest: in_set_takeD)
qed

lemma state_at_later:
  assumes "state_at log n s" "state_at log n' s'" "n \<le> n'" "length log < 2 ^ 64"
  shows "persists s s'"
proof -
  have split: "take n' log = take n log @ drop n (take n' log)" using assms(3) by (metis append_take_drop_id min.absorb1 take_take)
  have len: "length (take n log) + length (drop n (take n' log)) \<le> max_revision" using assms(4) by (auto simp: max_revision_def)
  have first: "fold_events reducer_step EmptySnapshot (take n log) = Inr s" using assms(1) by (simp add: state_at_def)
  have "fold_events reducer_step EmptySnapshot (take n log @ drop n (take n' log)) = Inr s'"
    using assms(2) split by (simp only: state_at_def)
  then have second: "fold_events reducer_step s (drop n (take n' log)) = Inr s'"
    using first by (simp only: fold_events_append sum.case)
  have "hub_invariant s \<and> revision_count s \<le> length (take n log)"
    using hub_reducer.fold_keeps [OF EmptySnapshot_invariant(1) _ first] len by (simp add: EmptySnapshot_invariant(2))
  then show ?thesis using hub_reducer.fold_keeps [OF _ _ second] len by auto
qed

text \<open>Two states of one log have the same content type for a topic.\<close>

lemma state_at_content_type:
  assumes "state_at log n s" "state_at log n' s'" "length log < 2 ^ 64"
    "mget (Topics s) k = Some t" "mget (Topics s') k = Some t'"
  shows "topic_ContentType t' = topic_ContentType t"
proof (cases "n \<le> n'")
  case True
  from state_at_later [OF assms(1,2) this assms(3)] assms(4,5) show ?thesis by (fastforce simp: persists_def topic_persists_def)
next
  case False
  then have "n' \<le> n" by simp
  from state_at_later [OF assms(2,1) this assms(3)] assms(4,5) show ?thesis by (fastforce simp: persists_def topic_persists_def)
qed

section \<open>Publication and delivery\<close>

definition publish :: "ingest_env \<times> ContentUpdate \<Rightarrow> Store \<Rightarrow> Store" where
  "publish p s = (case fst (Persist (fst p) (snd p)) of None \<Rightarrow> s | Some (d, m) \<Rightarrow> memory_Send s d m)"

lemma published_origin:
  "m \<in> set (stored (fold publish pubs s) d) \<Longrightarrow> m \<in> set (stored s d) \<or> (\<exists>env update. (env, update) \<in> set pubs \<and> fst (Persist env update) = Some (d, m))"
proof (induction pubs arbitrary: s)
  case (Cons p pubs)
  obtain env update where p: "p = (env, update)" by (cases p)
  from Cons.IH [of "publish p s"] Cons.prems
  have "m \<in> set (stored (publish p s) d) \<or> (\<exists>env update. (env, update) \<in> set pubs \<and> fst (Persist env update) = Some (d, m))" by simp
  moreover have "m \<in> set (stored s d) \<or> fst (Persist env update) = Some (d, m)" if "m \<in> set (stored (publish p s) d)"
    using that by (auto simp: publish_def p stored_Send split: option.splits if_splits)
  ultimately show ?case using p by auto
qed simp

lemma Persist_Some:
  assumes "fst (Persist env update) = Some (d, m)"
  shows "\<exists>k topic. TopicID (cu_Topic update) = Inr k \<and> mget (Topics (ie_snapshot env)) k = Some topic \<and> ContentDestination topic = d \<and>
    NormalizeContentType (cu_ContentType update) = Inr (topic_ContentType topic) \<and> Body m = cu_Body update \<and> ie_message_id env = Inr (msg_ID m)"
  using assms by (auto simp: Persist_def Let_def split: if_splits sum.splits option.splits)

lemma attempted_received:
  assumes "Worker_Run fuel env w [] = (tr, res)" "Attempted m answer \<in> set tr"
  shows "\<exists>pre b. w_receive env pre = Inr b \<and> m \<in> rcv_Message ` set (Messages b)"
proof -
  note d = run_disciplined [OF assms(1)]
  obtain pre post where tr: "tr = pre @ Attempted m answer # post" using assms(2) by (meson split_list)
  with disciplined_split [of env w pre "Attempted m answer" post] d obtain n b x where b: "Received n (Inr b) \<in> set pre" "x \<in> set (Messages b)" "rcv_Message x = m"
    by (auto simp: may_def handed_out_def)
  then obtain pre' post' where pre: "pre = pre' @ Received n (Inr b) # post'" by (meson split_list)
  have "w_receive env pre' = Inr b"
    using disciplined_split [of env w pre' "Received n (Inr b)" "post' @ Attempted m answer # post"] d tr pre by (simp add: may_def)
  with b(2,3) show ?thesis by blast
qed

text \<open>A collision of the hash function.\<close>

definition sha256_collision :: bool where
  "sha256_collision \<longleftrightarrow> (\<exists>a b. a \<noteq> b \<and> sha256_Sum256 a = sha256_Sum256 b)"


definition registered_topic :: Topic where
  "registered_topic = zero_Topic\<lparr>topic_ID := projr (TopicID ''u''), CanonicalURL := ''u'', ContentDestination := projr (ContentDestination_of ''u''),
     topic_ContentType := ''application/json'', RegisteredAt := \<lparr>tm_ns = 7, tm_loc = UTC\<rparr>\<rparr>"

definition published_topic :: Topic where
  "published_topic = registered_topic\<lparr>topic_Status := TopicActive, topic_Revision := 1\<rparr>"

definition registration :: event where
  "registration = TopicRegistered \<lparr>meta_SchemaVersion = SchemaVersion, EventID = ''event-1'', OccurredAt = \<lparr>tm_ns = 7, tm_loc = UTC\<rparr>,
     meta_Actor = \<lparr>actor_Type = ''publisher'', actor_ID = ''alice''\<rparr>\<rparr> registered_topic"

definition published_state :: Snapshot where
  "published_state = EmptySnapshot\<lparr>Topics := Some (fmupd (topic_ID published_topic) published_topic fmempty), snap_Revision := 1\<rparr>"

definition sample_publisher :: ingest_env where
  "sample_publisher = \<lparr>ie_snapshot = published_state, ie_message_id = Inr ''m'', ie_send = (\<lambda>_ _. None)\<rparr>"

lemma published_names: "TopicID ''u'' = Inr (topic_ID published_topic)" "ContentDestination_of ''u'' = Inr (ContentDestination published_topic)"
  "topic_ID published_topic \<noteq> []" "ContentDestination published_topic \<noteq> []"
  by (simp_all add: published_topic_def registered_topic_def TopicID_def ContentDestination_of_def)

lemma published_topic_simps: "CanonicalURL published_topic = ''u''" "topic_ContentType published_topic = ''application/json''"
  "topic_Status published_topic = TopicActive" "topic_ID registered_topic = topic_ID published_topic"
  "ContentDestination registered_topic = ContentDestination published_topic" "CanonicalURL registered_topic = ''u''"
  "topic_ContentType registered_topic = ''application/json''" "RegisteredAt registered_topic = \<lparr>tm_ns = 7, tm_loc = UTC\<rparr>"
  "topic_Revision registered_topic = 0"
  by (simp_all add: published_topic_def registered_topic_def zero_Topic_def)

lemma registration_handled:
  "handle (sample_hub_env\<lparr>he_snapshot := EmptySnapshot\<rparr>) (RegisterTopicRequest ''u'' ''Application/JSON'') = (Some registration, Inr 0)"
proof -
  let ?env = "sample_hub_env\<lparr>he_snapshot := EmptySnapshot\<rparr>"
  let ?meta = "\<lparr>meta_SchemaVersion = SchemaVersion, EventID = ''event-1'', OccurredAt = \<lparr>tm_ns = 7, tm_loc = UTC\<rparr>,
    meta_Actor = \<lparr>actor_Type = ''publisher'', actor_ID = ''alice''\<rparr>\<rparr>"
  have type: "NormalizeTopicContentType ''Application/JSON'' = Inr ''application/json''"
    using sample_content_type by (simp add: NormalizeTopicContentType_def)
  have auth: "adapter_authorize ?env ScopeTopicRegister = Inr ''alice''" by (simp add: adapter_authorize_def sample_hub_env_def)
  have meta: "adapter_metadata ?env ''publisher'' ''alice'' = Inr ?meta"
    by (simp add: adapter_metadata_def sample_hub_env_def time_IsZero_def time_UTC_def)
  have fresh: "mget (Topics (he_snapshot ?env)) k = None" for k by (simp add: EmptySnapshot_def mget_Some)
  have appended: "append_answer ?env registration = (Some registration, Inr 0)" by (simp add: append_answer_def sample_hub_env_def)
  have made: "registration = TopicRegistered ?meta (zero_Topic\<lparr>topic_ID := topic_ID published_topic, CanonicalURL := ''u'',
      ContentDestination := ContentDestination published_topic, topic_ContentType := ''application/json'', RegisteredAt := OccurredAt ?meta\<rparr>)"
    by (simp add: registration_def published_topic_def registered_topic_def)
  show ?thesis unfolding handle.simps registerTopic_Some
    by (rule exI [of _ "''alice''"], rule exI [of _ "topic_ID published_topic"], rule exI [of _ "''application/json''"], rule exI [of _ ?meta],
        rule exI [of _ "ContentDestination published_topic"], unfold made [symmetric], unfold fresh)
      (intro conjI allI impI auth published_names type meta appended; blast)
qed

lemma published_log: "state_at [registration] 1 published_state"
proof -
  have "apply_event EmptySnapshot registration = Inr (put_topic EmptySnapshot (topic_ID published_topic)
      (registered_topic\<lparr>topic_Status := TopicActive, topic_Revision := 0\<rparr>), True)"
    using published_names canonical_json by (simp add: registration_def EmptySnapshot_def mget_Some time_IsZero_def published_topic_simps)
  moreover have "validateEvent (Some registration) = None"
    using canonical_json by (simp add: validateEvent_def registration_def registered_topic_def time_IsZero_def)
  ultimately show ?thesis using Reducer_ApplyI [of EmptySnapshot registration] EmptySnapshot_invariant(1)
    by (simp add: state_at_def reducer_step_def hub_invariant_def published_state_def put_topic_def mput_def EmptySnapshot_def stamp_topic_def
        mget_Some registration_def published_topic_simps) (simp add: published_topic_def)
qed

lemma published_message: "fst (Persist sample_publisher sample_update) = Some (ContentDestination published_topic, rcv_Message sample_received)"
  using published_names sample_content_type
  by (simp add: Persist_def sample_publisher_def sample_update_def published_state_def mget_Some published_topic_simps sample_received_def)

lemma accepting_attempts:
  "Attempted (rcv_Message sample_received) (204, None) \<in> set (fst (Worker_Run 3 accepting (sample_worker\<lparr>wk_topic := t\<rparr>) []))"
  by code_simp


end
