(* ===== verification/Spec2Isabelle.thy ===== *)
theory Spec2Isabelle
  imports Reducer Memory_Store Kafka_Admin Callback_Policy Worker_Props Manager Management Ingest Resource_Hub Projection
    Secrets Admin Hub_Runtime Observe Transport Hub_System Processes Commands Conformance Delivery_Path
begin

text \<open>
  A model of the WebSub hub \<open>websubhub\<close> (Go, under \<open>src/\<close>) and of its consolidator, with the theorems
  that make their components correct.

  \<^bold>\<open>The system.\<close> Publishers register topics and publish content, subscribers subscribe with a callback. A hub
  process takes requests through a protocol library, turns them into state events and appends these to a log
  in a message store (Kafka). The consolidator process reads the log alone, reduces it to the canonical
  snapshot, publishes every snapshot and serves the current one over HTTP. Each hub starts from that snapshot and
  follows the log; its delivery manager keeps one worker per active subscription, and a worker reads the topic's
  content destination and posts each message to the callback, with retries, dead letters and life-cycle events
  of its own. An operations endpoint answers health, metrics and management queries.

  \<^bold>\<open>What models what.\<close> Go strings and byte slices are byte lists, maps are finite maps that may be nil, errors are
  values of \<open>goerr\<close> and a fallible function returns \<open>goerr + 'a\<close>. Effects are explicit: state is passed, and code
  outside the repository is an argument whose documented behaviour, where a theorem needs it, is a named
  hypothesis.

  \<^item> \<open>Hub_Prelude\<close>, \<open>Go_Strings\<close>, \<open>Go_Mime\<close>, \<open>Go_Time\<close>, \<open>Go_Sha256\<close>, \<open>Go_Netip\<close>, \<open>Go_Url\<close>, \<open>Go_Json\<close>, \<open>Go_Base64\<close>,
    \<open>Go_Unmarshal\<close>: what the program uses of the language and its standard library.
  \<^item> \<open>State\<close>, \<open>Reducer\<close>: \<open>internal/state/model.go\<close>, \<open>events.go\<close>, \<open>reducer.go\<close>, \<open>content_type.go\<close> and the validation of
    \<open>snapshot.go\<close>: the reducer refines two life cycles given as step relations, keeps the state invariant, is
    harmless under redelivery and forgets nothing. The locale \<open>event_reducer\<close> states what a client of a
    reducer relies on.
  \<^item> \<open>Codec\<close>, \<open>Storable\<close>: \<open>codec.go\<close> and the rest of \<open>snapshot.go\<close>, as JSON text: encoding and decoding are
    inverse, and the reducer keeps states encodable.
  \<^item> \<open>Contracts\<close>, \<open>Capabilities\<close>, \<open>Consumer_Contract\<close>, \<open>Store_Interface\<close>: \<open>messagestore/contracts.go\<close> and
    \<open>capabilities.go\<close>, and two interfaces as locales: a consumer that acknowledges in order, and a provider whose
    log can be replayed.
  \<^item> \<open>Memory_Store\<close>, \<open>Memory_Provider\<close>: \<open>messagestoretest/memory.go\<close>, which satisfies both interfaces.
  \<^item> \<open>Kafka_Options\<close>, \<open>Kafka_Consumer\<close>, \<open>Kafka_Admin\<close>: \<open>messagestore/kafka\<close>, over what the Kafka client answers; the
    consumer satisfies the first interface.
  \<^item> \<open>Layout\<close>: \<open>internal/persistence/layout.go\<close>, identifiers by SHA-256.
  \<^item> \<open>State_Store\<close>, \<open>Consolidator\<close>, \<open>Projection\<close>: \<open>statestore\<close>, \<open>internal/consolidator\<close> and \<open>app/hubstate\<close>: loading a
    snapshot ends with the newest one, the consolidator computes what the reducer computes from the log, its client
    reads that state, and the hub's projection takes a batch wholly or not at all.
  \<^item> \<open>Worker\<close>, \<open>Worker_Props\<close>, \<open>Manager\<close>: \<open>internal/delivery\<close>: what a worker does is a trace of effects; it
    acknowledges only what was delivered, ends its retries and removes a subscription only when the subscriber is
    gone; the manager keeps the registered workers in line with the state.
  \<^item> \<open>Ingest\<close>, \<open>Resource_Hub\<close>: \<open>internal/ingest\<close> and \<open>app/resourcehub\<close>: the callbacks given to the protocol library.
  \<^item> \<open>Auth\<close>, \<open>Secrets\<close>, \<open>Callback_Policy\<close>, \<open>Admin\<close>, \<open>Management\<close>: \<open>internal/security\<close>, \<open>internal/admin\<close> and
    \<open>internal/management\<close>: what a verified token proves, key rotation, sealed secrets, where the hub may
    connect to, what an unauthorized request can learn, and exact answers of the queries.
  \<^item> \<open>Configuration\<close>, \<open>Go_Strconv\<close>, \<open>Environment\<close>: \<open>internal/config/config.go\<close>: defaults, validation, and loading with overrides
    from the environment, where the locale \<open>settings\<close> states that every setting has a spelling of its own.
  \<^item> \<open>Hub_Runtime\<close>: \<open>app/runtime\<close> and \<open>app/httpruntime\<close>: the loops of the two processes. As long as the hub's loop runs,
    its projection is what the reducer computes from the events consumed and its workers are in line with it.
  \<^item> \<open>Observe\<close>, \<open>Transport\<close>: \<open>observe/log.go\<close>, \<open>transport/mtls\<close> and \<open>app/provider\<close>: which attributes reach the log and in
    what form, and the transport configurations that settings give.
  \<^item> \<open>Hub_System\<close>: the processes together on one store, as a step relation. However they interleave, each holds the state of a
    part of the same log. The locale \<open>shared_log\<close> states what they rely on when they share it.
  \<^item> \<open>Delivery_Path\<close>: the way of content from ingestion through the store and a worker to the delivery client of the protocol
    library: what a subscriber is sent was published for its topic, unchanged.
  \<^item> \<open>Processes\<close>, \<open>Commands\<close>: \<open>RunHub\<close> and \<open>RunConsolidator\<close>: what is built in which order and closed when, and which accepted
    configurations a component still rejects; \<open>internal/command\<close>: flags, loading, warnings and exit codes.
  \<^item> \<open>Conformance\<close>: \<open>messagestore/conformance/suite.go\<close> as a program over a provider, and that the in-memory store passes it.

  \<^bold>\<open>Loops.\<close> Loops over data are structural recursions. The loops of \<open>LoadSnapshot\<close> and \<open>Refresh\<close> may run forever
  for an arbitrary provider and are partial functions into \<open>option\<close>; for a provider that satisfies the replay
  interface they are shown to return. The loops of a worker take fuel; a run that has used it up is still running, so that
  statements about its trace hold at every moment of every run, and that its retries end within the configured attempts is
  a theorem. The order in which Go visits a map is an argument, or the
  result is shown not to depend on it.

  \<^bold>\<open>Not modelled.\<close> The protocol library, the Kafka client, the JOSE library, AES-GCM and TLS are arguments. Locks only
  serialise operations that are single steps here. The TOML library and the file system are arguments too. The JSON form of log lines,
  signals, the network, and the repository's tools and test fixture are left out, as are the texts of formatted errors,
  the aliasing of byte slices and monotonic clock readings.
\<close>

end
